(* ===== verification/Wally_Prelude.thy ===== *)
theory Wally_Prelude
  imports Main "HOL-Library.Word"
begin

text \<open>
  Shared vocabulary of the development.

  \<^item> The machine integers of the server: \<open>uint8_t\<close>, \<open>uint16_t\<close>, \<open>uint32_t\<close> as words.
  \<^item> The ways a C++ operation of the server can fail, as values: the exceptions it throws, a failed
    \<^verbatim>\<open>assert\<close> (the build files never define \<^verbatim>\<open>NDEBUG\<close>, so assertions are live in every build) and
    behaviour the C++ standard leaves undefined.
  \<^item> The result type, its sequencing operator \<open>rbind\<close> and its automation.
  \<^item> Reading a byte buffer through an index (the code's iterators) and the predicate
    \<open>holds_at\<close>: a byte string lies in a buffer at a position.
\<close>

unbundle bit_operations_syntax

type_synonym byte = "8 word"
type_synonym u16 = "16 word"
type_synonym u32 = "32 word"

section \<open>Failures\<close>

text \<open>
  The reason of an \<^verbatim>\<open>error::malformed_mqtt_packet\<close>: one constructor for each place that throws it
  (the exception's text is only ever logged).
\<close>

datatype malformed =
    Remaining_length_too_large
  | Uint16_truncated
  | Qos_truncated
  | String_length_truncated
  | String_truncated
  | Invalid_header_flags
  | Missing_protocol_name
  | Last_will_truncated
  | Trailing_bytes
  | Dup_with_qos0
  | Reserved_qos
  | Topic_empty
  | Topic_too_long
  | Topic_contains_null
  | Topic_contains_plus
  | Topic_contains_hash
  | Topic_filter_malformed
  | No_subscriptions
  | No_topic_filters
  | Nonzero_remaining_length
  | Encoded_length_too_large
  | Encoded_string_too_long

datatype error =
    Malformed malformed            \<comment> \<open>\<^verbatim>\<open>error::malformed_mqtt_packet\<close>\<close>
  | Invalid_argument               \<comment> \<open>\<^verbatim>\<open>std::invalid_argument\<close>\<close>
  | Out_of_range                   \<comment> \<open>\<^verbatim>\<open>std::out_of_range\<close>\<close>
  | Bad_cast                       \<comment> \<open>\<^verbatim>\<open>std::bad_cast\<close>\<close>
  | System_error                   \<comment> \<open>\<^verbatim>\<open>std::system_error\<close>\<close>
  | Option_exception               \<comment> \<open>\<^verbatim>\<open>cxxopts::OptionException\<close>\<close>
  | Spdlog_exception               \<comment> \<open>\<^verbatim>\<open>spdlog::spdlog_ex\<close>\<close>
  | Assertion_failed               \<comment> \<open>\<^verbatim>\<open>assert( .. )\<close>: the process aborts\<close>
  | Undefined_behaviour            \<comment> \<open>a read or write outside an object, a null or empty dereference\<close>

type_synonym 'a result = "error + 'a"

section \<open>Sequencing of fallible operations\<close>

named_theorems result_simps \<open>rewriting of results\<close>

definition rbind :: "'a result \<Rightarrow> ('a \<Rightarrow> 'b result) \<Rightarrow> 'b result" where
  "rbind r f = (case r of Inl e \<Rightarrow> Inl e | Inr x \<Rightarrow> f x)"

definition check :: "bool \<Rightarrow> error \<Rightarrow> unit result" where
  "check b e = (if b then Inr () else Inl e)"

abbreviation cpp_assert :: "bool \<Rightarrow> unit result" where
  "cpp_assert b \<equiv> check b Assertion_failed"

lemma rbind_Inl [simp, result_simps]: "rbind (Inl e) f = Inl e"
  by (simp add: rbind_def)

lemma rbind_Inr [simp, result_simps]: "rbind (Inr x) f = f x"
  by (simp add: rbind_def)

lemma rbind_cong [fundef_cong]:
  "r = r' \<Longrightarrow> (\<And>x. r' = Inr x \<Longrightarrow> f x = f' x) \<Longrightarrow> rbind r f = rbind r' f'"
  by (auto simp: rbind_def split: sum.splits)

lemma rbind_eq_Inr_iff [result_simps]: "rbind r f = Inr y \<longleftrightarrow> (\<exists>x. r = Inr x \<and> f x = Inr y)"
  by (cases r) auto

lemma rbind_eq_Inl_iff [result_simps]:
  "rbind r f = Inl e \<longleftrightarrow> r = Inl e \<or> (\<exists>x. r = Inr x \<and> f x = Inl e)"
  by (cases r) auto

lemma rbind_assoc: "rbind (rbind r f) g = rbind r (\<lambda>x. rbind (f x) g)"
  by (cases r) auto

lemma check_True [simp]: "check True e = Inr ()"
  by (simp add: check_def)

lemma check_False [simp]: "check False e = Inl e"
  by (simp add: check_def)

lemma check_eq_Inr_iff [simp, result_simps]: "check b e = Inr u \<longleftrightarrow> b"
  by (cases b) auto

lemma check_eq_Inl_iff [simp, result_simps]: "check b e = Inl e' \<longleftrightarrow> \<not> b \<and> e' = e"
  by (cases b) auto

text \<open>A \<^verbatim>\<open>for\<close> loop that updates a state and may throw.\<close>

primrec fold_result :: "('b \<Rightarrow> 'a \<Rightarrow> 'b result) \<Rightarrow> 'b \<Rightarrow> 'a list \<Rightarrow> 'b result" where
  "fold_result f acc [] = Inr acc"
| "fold_result f acc (x # xs) = rbind (f acc x) (\<lambda>acc'. fold_result f acc' xs)"

lemma fold_result_append:
  "fold_result f acc (xs @ ys) = rbind (fold_result f acc xs) (\<lambda>acc'. fold_result f acc' ys)"
  by (induction xs arbitrary: acc) (simp_all add: rbind_assoc)

lemma fold_result_nested:
  "fold_result (\<lambda>acc x. fold_result (\<lambda>acc y. f acc (x, y)) acc ys) acc xs =
     fold_result f acc (List.product xs ys)"
proof (induction xs arbitrary: acc)
  case (Cons x xs)
  have "fold_result (\<lambda>acc y. f acc (x, y)) acc ys = fold_result f acc (map (Pair x) ys)" for acc
    by (induction ys arbitrary: acc) simp_all
  then show ?case
    by (simp add: Cons.IH fold_result_append)
qed simp

lemma fold_result_invariant:
  assumes "fold_result f acc xs = Inr acc'" "P acc"
    and "\<And>acc x acc'. x \<in> set xs \<Longrightarrow> P acc \<Longrightarrow> f acc x = Inr acc' \<Longrightarrow> P acc'"
  shows "P acc'"
  using assms by (induction xs arbitrary: acc) (auto simp: result_simps)

lemma fold_result_ok:
  assumes "P acc" "\<And>acc x. x \<in> set xs \<Longrightarrow> P acc \<Longrightarrow> \<exists>acc'. f acc x = Inr acc' \<and> P acc'"
  shows "\<exists>acc'. fold_result f acc xs = Inr acc' \<and> P acc'"
  using assms by (induction xs arbitrary: acc) (auto simp: result_simps, metis)

lemma fold_result_Inr: "fold_result (\<lambda>acc x. Inr (g acc x)) acc xs = Inr (foldl g acc xs)"
  by (induction xs arbitrary: acc) simp_all

lemma fold_result_cong [fundef_cong]:
  "acc = acc' \<Longrightarrow> xs = ys \<Longrightarrow> (\<And>a x. x \<in> set ys \<Longrightarrow> f a x = g a x) \<Longrightarrow>
   fold_result f acc xs = fold_result g acc' ys"
proof (induction xs arbitrary: acc acc' ys)
  case (Cons x xs)
  then show ?case
    by (auto intro: rbind_cong)
qed auto

section \<open>The ways an operation can fail\<close>

text \<open>An operation fails with certain errors only; the rules compose along the code.\<close>

definition fails_only :: "(error \<Rightarrow> bool) \<Rightarrow> 'a result \<Rightarrow> bool" where
  "fails_only E r \<longleftrightarrow> (\<forall>e. r = Inl e \<longrightarrow> E e)"

named_theorems fails_intros \<open>composition of operations that fail in known ways only\<close>

lemma fails_only_Inr [fails_intros]: "fails_only E (Inr x)"
  by (simp add: fails_only_def)

lemma fails_only_Inl [fails_intros]: "E e \<Longrightarrow> fails_only E (Inl e)"
  by (simp add: fails_only_def)

lemma fails_only_check [fails_intros]: "(\<not> b \<Longrightarrow> E e) \<Longrightarrow> fails_only E (check b e)"
  by (cases b) (simp_all add: fails_only_def)

lemma fails_only_rbind [fails_intros]:
  "fails_only E r \<Longrightarrow> (\<And>x. r = Inr x \<Longrightarrow> fails_only E (f x)) \<Longrightarrow> fails_only E (rbind r f)"
  by (auto simp: fails_only_def result_simps)

lemma fails_only_if [fails_intros]:
  "(b \<Longrightarrow> fails_only E r) \<Longrightarrow> (\<not> b \<Longrightarrow> fails_only E s) \<Longrightarrow> fails_only E (if b then r else s)"
  by simp

lemma fails_only_prod [fails_intros]:
  "(\<And>a b. p = (a, b) \<Longrightarrow> fails_only E (f a b)) \<Longrightarrow> fails_only E (case p of (a, b) \<Rightarrow> f a b)"
  by (cases p) simp

lemma fails_only_option [fails_intros]:
  "(x = None \<Longrightarrow> fails_only E r) \<Longrightarrow> (\<And>y. x = Some y \<Longrightarrow> fails_only E (f y)) \<Longrightarrow>
   fails_only E (case x of None \<Rightarrow> r | Some y \<Rightarrow> f y)"
  by (cases x) simp_all

lemma fails_onlyD: "fails_only E r \<Longrightarrow> r = Inl e \<Longrightarrow> E e"
  by (simp add: fails_only_def)

lemma fails_only_fold:
  assumes "P acc" "\<And>acc x. x \<in> set xs \<Longrightarrow> P acc \<Longrightarrow> fails_only E (f acc x)"
    and "\<And>acc x acc'. x \<in> set xs \<Longrightarrow> P acc \<Longrightarrow> f acc x = Inr acc' \<Longrightarrow> P acc'"
  shows "fails_only E (fold_result f acc xs)"
  using assms
proof (induction xs arbitrary: acc)
  case (Cons x xs)
  have "fails_only E (fold_result f acc' xs)" if "f acc x = Inr acc'" for acc'
    using Cons.prems that by (intro Cons.IH) (auto intro: Cons.prems(3))
  moreover have "fails_only E (f acc x)"
    using Cons.prems by simp
  ultimately show ?case
    by (simp add: fails_only_rbind)
qed (simp add: fails_only_Inr)

section \<open>Ranges of the machine integers\<close>

lemma unat_byte_less: "unat (b :: byte) < 256"
  using unsigned_less [of b] by simp

lemma unat_u16_less: "unat (v :: u16) < 65536"
  using unsigned_less [of v] by simp

section \<open>Bytes and characters\<close>

text \<open>
  The code reinterprets the bytes of a buffer as the characters of a \<^verbatim>\<open>std::string\<close> and back.
\<close>

abbreviation NUL :: char where
  "NUL \<equiv> CHR 0x00"

definition char_of_byte :: "byte \<Rightarrow> char" where
  "char_of_byte b = char_of (unat b)"

definition byte_of_char :: "char \<Rightarrow> byte" where
  "byte_of_char c = word_of_nat (of_char c)"

lemma unat_byte_of_char: "unat (byte_of_char c) = of_char c"
  by (simp add: byte_of_char_def unat_of_nat take_bit_nat_eq_self)

lemma char_of_byte_of_char [simp]: "char_of_byte (byte_of_char c) = c"
  by (simp add: char_of_byte_def unat_byte_of_char)

lemma byte_of_char_of_byte [simp]: "byte_of_char (char_of_byte b) = b"
proof -
  have "unat b < 2 ^ LENGTH(8)"
    by (rule unsigned_less)
  then have "(of_char (char_of (unat b) :: char) :: nat) = unat b"
    by simp
  then show ?thesis
    by (simp add: byte_of_char_def char_of_byte_def)
qed

lemma map_char_of_byte_of_char [simp]: "map (char_of_byte \<circ> byte_of_char) s = s"
  by (induction s) auto

section \<open>Buffers and positions\<close>

text \<open>
  An iterator into a buffer is an index. Dereferencing one outside the buffer is undefined
  behaviour; \<^verbatim>\<open>std::distance\<close> of two random access iterators may be negative.
\<close>

definition deref :: "byte list \<Rightarrow> nat \<Rightarrow> byte result" where
  "deref buf i = (if i < length buf then Inr (buf ! i) else Inl Undefined_behaviour)"

definition distance :: "nat \<Rightarrow> nat \<Rightarrow> int" where
  "distance i e = int e - int i"

text \<open>Subtraction of \<^verbatim>\<open>size_t\<close> values wraps around.\<close>

definition size_minus :: "nat \<Rightarrow> nat \<Rightarrow> nat" where
  "size_minus m n = (if n \<le> m then m - n else 2 ^ 64 + m - n)"

definition buf_slice :: "byte list \<Rightarrow> nat \<Rightarrow> nat \<Rightarrow> byte list" where
  "buf_slice buf i e = take (e - i) (drop i buf)"

lemma deref_eq_Inr_iff [result_simps]: "deref buf i = Inr b \<longleftrightarrow> i < length buf \<and> buf ! i = b"
  by (auto simp: deref_def)

lemma deref_eq_Inl_iff [result_simps]:
  "deref buf i = Inl e \<longleftrightarrow> length buf \<le> i \<and> e = Undefined_behaviour"
  by (auto simp: deref_def)

lemma distance_less_iff [simp]: "distance i e < int n \<longleftrightarrow> e < i + n"
  unfolding distance_def by linarith

lemma distance_less_numeral_iff [simp]:
  "distance i e < numeral k \<longleftrightarrow> e < i + numeral k" "distance i e < 1 \<longleftrightarrow> e < i + 1"
  using distance_less_iff [of i e "numeral k"] distance_less_iff [of i e 1] by simp_all

lemma distance_less_word_iff [simp]: "distance i e < uint w \<longleftrightarrow> e < i + unat w"
  unfolding uint_nat by (rule distance_less_iff)

lemma length_buf_slice: "e \<le> length buf \<Longrightarrow> length (buf_slice buf i e) = e - i"
  by (simp add: buf_slice_def)

definition holds_at :: "byte list \<Rightarrow> nat \<Rightarrow> byte list \<Rightarrow> bool" where
  "holds_at buf i bs \<longleftrightarrow> i + length bs \<le> length buf \<and> take (length bs) (drop i buf) = bs"

lemma holds_at_Nil [simp]: "holds_at buf i [] \<longleftrightarrow> i \<le> length buf"
  by (simp add: holds_at_def)

lemma holds_at_Cons:
  "holds_at buf i (b # bs) \<longleftrightarrow> i < length buf \<and> buf ! i = b \<and> holds_at buf (Suc i) bs"
proof (cases "i < length buf")
  case True
  then show ?thesis
    by (auto simp: holds_at_def Cons_nth_drop_Suc [symmetric])
qed (auto simp: holds_at_def)

lemma holds_at_append:
  "holds_at buf i (xs @ ys) \<longleftrightarrow> holds_at buf i xs \<and> holds_at buf (i + length xs) ys"
  by (induction xs arbitrary: i) (auto simp: holds_at_Cons, simp_all add: holds_at_def)

lemma holds_at_bound: "holds_at buf i bs \<Longrightarrow> i + length bs \<le> length buf"
  by (simp add: holds_at_def)

lemma holds_at_buf_slice: "holds_at buf i bs \<Longrightarrow> buf_slice buf i (i + length bs) = bs"
  by (simp add: holds_at_def buf_slice_def)

lemma holds_at_self: "holds_at (pre @ bs @ post) (length pre) bs"
  by (simp add: holds_at_def)

end
