(* ===== verification/Packet_Header.thy ===== *)
theory Packet_Header
  imports Wally_Prelude
begin

text \<open>
  The bit-level vocabulary of the first byte of an MQTT packet and the packet length arithmetic:
  \<^verbatim>\<open>source/server/io_wally/protocol/common.hpp\<close>. Functions of the source that write through a
  \<^verbatim>\<open>uint8_t&\<close> return the new byte. The source asserts \<^verbatim>\<open>left_shift < 7\<close> in \<^verbatim>\<open>qos_of\<close> and
  \<^verbatim>\<open>qos_into\<close>; every call of the program passes one of the constants 0, 1, 3, so the assertion
  is not a branch of the model.
\<close>

section \<open>Quality of service\<close>

datatype QoS = AT_MOST_ONCE | AT_LEAST_ONCE | EXACTLY_ONCE | QOS_RESERVED

text \<open>The enumeration's underlying \<^verbatim>\<open>uint8_t\<close> value, \<^verbatim>\<open>static_cast<uint8_t>( qos )\<close>.\<close>

fun qos_code :: "QoS \<Rightarrow> byte" where
  "qos_code AT_MOST_ONCE = 0"
| "qos_code AT_LEAST_ONCE = 1"
| "qos_code EXACTLY_ONCE = 2"
| "qos_code QOS_RESERVED = 3"

text \<open>Scoped enumerations compare by their underlying values.\<close>

instantiation QoS :: linorder
begin

definition less_eq_QoS :: "QoS \<Rightarrow> QoS \<Rightarrow> bool" where
  "less_eq_QoS q r \<longleftrightarrow> qos_code q \<le> qos_code r"

definition less_QoS :: "QoS \<Rightarrow> QoS \<Rightarrow> bool" where
  "less_QoS q r \<longleftrightarrow> qos_code q < qos_code r"

instance
proof
  fix x y z :: QoS
  show "x < y \<longleftrightarrow> x \<le> y \<and> \<not> y \<le> x"
    by (auto simp: less_eq_QoS_def less_QoS_def)
  show "x \<le> x"
    by (simp add: less_eq_QoS_def)
  show "x \<le> y \<Longrightarrow> y \<le> z \<Longrightarrow> x \<le> z"
    by (simp add: less_eq_QoS_def)
  show "x \<le> y \<Longrightarrow> y \<le> x \<Longrightarrow> x = y"
    by (cases x; cases y) (simp_all add: less_eq_QoS_def word_le_nat_alt)
  show "x \<le> y \<or> y \<le> x"
    by (auto simp: less_eq_QoS_def)
qed

end

definition qos_of :: "byte \<Rightarrow> nat \<Rightarrow> QoS" where
  "qos_of b left_shift =
     (let bits = drop_bit left_shift b AND 0x03
      in if bits = 0x00 then AT_MOST_ONCE
         else if bits = 0x01 then AT_LEAST_ONCE
         else if bits = 0x02 then EXACTLY_ONCE
         else QOS_RESERVED)"

fun qos_mask :: "QoS \<Rightarrow> nat \<Rightarrow> byte" where
  "qos_mask AT_MOST_ONCE left_shift = push_bit left_shift 0x00"
| "qos_mask AT_LEAST_ONCE left_shift = push_bit left_shift 0x01"
| "qos_mask EXACTLY_ONCE left_shift = push_bit left_shift 0x02"
| "qos_mask QOS_RESERVED left_shift = push_bit left_shift 0x0F"

definition qos_into :: "QoS \<Rightarrow> byte \<Rightarrow> nat \<Rightarrow> byte" where
  "qos_into qos b left_shift =
     (b AND (0xFF - push_bit left_shift 0x03)) OR qos_mask qos left_shift"

fun qos_string :: "QoS \<Rightarrow> string" where
  "qos_string AT_MOST_ONCE = ''At most once''"
| "qos_string AT_LEAST_ONCE = ''At least once''"
| "qos_string EXACTLY_ONCE = ''Exactly once''"
| "qos_string QOS_RESERVED = ''Reserved''"

section \<open>Control packet type\<close>

datatype packet_type =
    RESERVED1 | CONNECT | CONNACK | PUBLISH | PUBACK | PUBREC | PUBREL | PUBCOMP
  | SUBSCRIBE | SUBACK | UNSUBSCRIBE | UNSUBACK | PINGREQ | PINGRESP | DISCONNECT | RESERVED2

definition type_of :: "byte \<Rightarrow> packet_type" where
  "type_of control_packet_type_and_flags =
     (let type_bits = drop_bit 4 (control_packet_type_and_flags AND 0xF0)
      in if type_bits = 0x00 then RESERVED1
         else if type_bits = 0x01 then CONNECT
         else if type_bits = 0x02 then CONNACK
         else if type_bits = 0x03 then PUBLISH
         else if type_bits = 0x04 then PUBACK
         else if type_bits = 0x05 then PUBREC
         else if type_bits = 0x06 then PUBREL
         else if type_bits = 0x07 then PUBCOMP
         else if type_bits = 0x08 then SUBSCRIBE
         else if type_bits = 0x09 then SUBACK
         else if type_bits = 0x0A then UNSUBSCRIBE
         else if type_bits = 0x0B then UNSUBACK
         else if type_bits = 0x0C then PINGREQ
         else if type_bits = 0x0D then PINGRESP
         else if type_bits = 0x0E then DISCONNECT
         else RESERVED2)"

fun type_mask :: "packet_type \<Rightarrow> byte" where
  "type_mask RESERVED1 = push_bit 4 0x00"
| "type_mask CONNECT = push_bit 4 0x01"
| "type_mask CONNACK = push_bit 4 0x02"
| "type_mask PUBLISH = push_bit 4 0x03"
| "type_mask PUBACK = push_bit 4 0x04"
| "type_mask PUBREC = push_bit 4 0x05"
| "type_mask PUBREL = push_bit 4 0x06"
| "type_mask PUBCOMP = push_bit 4 0x07"
| "type_mask SUBSCRIBE = push_bit 4 0x08"
| "type_mask SUBACK = push_bit 4 0x09"
| "type_mask UNSUBSCRIBE = push_bit 4 0x0A"
| "type_mask UNSUBACK = push_bit 4 0x0B"
| "type_mask PINGREQ = push_bit 4 0x0C"
| "type_mask PINGRESP = push_bit 4 0x0D"
| "type_mask DISCONNECT = push_bit 4 0x0E"
| "type_mask RESERVED2 = push_bit 4 0x0F"

definition type_into :: "packet_type \<Rightarrow> byte \<Rightarrow> byte" where
  "type_into type control_packet_type_and_flags =
     (control_packet_type_and_flags AND 0x0F) OR type_mask type"

section \<open>Flags\<close>

definition dup_of :: "byte \<Rightarrow> bool" where
  "dup_of b \<longleftrightarrow> b AND 0x08 = 0x08"

definition dup_into :: "bool \<Rightarrow> byte \<Rightarrow> byte" where
  "dup_into dup b = (if dup then b OR 0x08 else b AND NOT 0x08)"

definition retain_of :: "byte \<Rightarrow> bool" where
  "retain_of b \<longleftrightarrow> b AND 0x01 = 0x01"

definition retain_into :: "bool \<Rightarrow> byte \<Rightarrow> byte" where
  "retain_into retain b = (if retain then b OR 0x01 else b AND NOT 0x01)"

section \<open>Packet length\<close>

definition MAX_ALLOWED_PACKET_LENGTH :: u32 where
  "MAX_ALLOWED_PACKET_LENGTH = 268435455"

definition total_length :: "u32 \<Rightarrow> u32" where
  "total_length remaining_length =
     (let rem_length_bytes =
        (if remaining_length \<le> 127 then 1
         else if remaining_length \<le> 16383 then 2
         else if remaining_length \<le> 2097151 then 3
         else 4)
      in 1 + rem_length_bytes + remaining_length)"

section \<open>Reasoning about bytes bit by bit\<close>

lemma byte_eq_iff:
  "(a::byte) = b \<longleftrightarrow>
     (bit a 0 = bit b 0) \<and> (bit a 1 = bit b 1) \<and> (bit a 2 = bit b 2) \<and> (bit a 3 = bit b 3) \<and>
     (bit a 4 = bit b 4) \<and> (bit a 5 = bit b 5) \<and> (bit a 6 = bit b 6) \<and> (bit a 7 = bit b 7)"
  (is "_ \<longleftrightarrow> ?bits")
proof
  assume ?bits
  show "a = b"
  proof (rule bit_word_eqI)
    fix n :: nat
    assume "n < LENGTH(8)"
    then have "n \<in> {0, 1, 2, 3, 4, 5, 6, 7}" by auto
    with \<open>?bits\<close> show "bit a n = bit b n" by blast
  qed
qed simp

lemma bit_byte_beyond: "8 \<le> n \<Longrightarrow> \<not> bit (b :: byte) n"
  by (auto dest: bit_imp_le_length)

lemmas byte_bits = byte_eq_iff bit_simps bit_byte_beyond numeral_2_eq_2 [symmetric]

section \<open>The header byte as a record of fields\<close>

text \<open>
  Each accessor reads its own bits, and each modifier writes its own bits only. The one exception
  is \<^verbatim>\<open>qos_into\<close> with the reserved quality of service, whose mask \<^verbatim>\<open>0x0F << left_shift\<close> is two
  bits too wide.
\<close>

lemma dup_of_bit: "dup_of b \<longleftrightarrow> bit b 3"
  unfolding dup_of_def by (auto simp: byte_bits)

lemma retain_of_bit: "retain_of b \<longleftrightarrow> bit b 0"
  unfolding retain_of_def by (auto simp: byte_bits)

lemma qos_of_1_bits:
  "qos_of b (Suc 0) = (if bit b 1 then if bit b 2 then QOS_RESERVED else AT_LEAST_ONCE
                 else if bit b 2 then EXACTLY_ONCE else AT_MOST_ONCE)"
  unfolding qos_of_def Let_def by (auto simp: byte_bits)

lemma type_of_cong: "a AND 0xF0 = b AND 0xF0 \<Longrightarrow> type_of a = type_of b"
  by (simp add: type_of_def)

lemma type_bits_type_into: "drop_bit 4 ((b AND 0x0F OR m) AND 0xF0) = drop_bit 4 (m :: byte)"
  by (auto simp: byte_bits)

named_theorems header_simps \<open>accessors of the header byte after its modifiers\<close>

lemma type_of_type_into [header_simps, simp]: "type_of (type_into t b) = t"
  by (cases t) (simp_all add: type_of_def type_into_def Let_def type_bits_type_into)

lemma type_of_dup_into [header_simps, simp]: "type_of (dup_into d b) = type_of b"
  by (rule type_of_cong) (auto simp: dup_into_def byte_bits)

lemma type_of_retain_into [header_simps, simp]: "type_of (retain_into r b) = type_of b"
  by (rule type_of_cong) (auto simp: retain_into_def byte_bits)

lemma type_of_qos_into [header_simps, simp]:
  "q \<noteq> QOS_RESERVED \<Longrightarrow> type_of (qos_into q b (Suc 0)) = type_of b"
  by (rule type_of_cong) (cases q; auto simp: qos_into_def byte_bits)

lemma dup_of_dup_into [header_simps, simp]: "dup_of (dup_into d b) = d"
  unfolding dup_of_bit by (auto simp: dup_into_def byte_bits)

lemma dup_of_retain_into [header_simps, simp]: "dup_of (retain_into r b) = dup_of b"
  unfolding dup_of_bit by (auto simp: retain_into_def byte_bits)

lemma dup_of_qos_into [header_simps, simp]:
  "q \<noteq> QOS_RESERVED \<Longrightarrow> dup_of (qos_into q b (Suc 0)) = dup_of b"
  unfolding dup_of_bit by (cases q) (auto simp: qos_into_def byte_bits)

lemma retain_of_retain_into [header_simps, simp]: "retain_of (retain_into r b) = r"
  unfolding retain_of_bit by (auto simp: retain_into_def byte_bits)

lemma retain_of_dup_into [header_simps, simp]: "retain_of (dup_into d b) = retain_of b"
  unfolding retain_of_bit by (auto simp: dup_into_def byte_bits)

lemma retain_of_qos_into [header_simps, simp]: "retain_of (qos_into q b (Suc 0)) = retain_of b"
  unfolding retain_of_bit by (cases q) (auto simp: qos_into_def byte_bits)

lemma qos_of_qos_into [header_simps, simp]: "qos_of (qos_into q b (Suc 0)) (Suc 0) = q"
  unfolding qos_of_1_bits by (cases q) (auto simp: qos_into_def byte_bits)

lemma qos_of_dup_into [header_simps, simp]: "qos_of (dup_into d b) (Suc 0) = qos_of b (Suc 0)"
  unfolding qos_of_1_bits by (auto simp: dup_into_def byte_bits)

lemma qos_of_retain_into [header_simps, simp]: "qos_of (retain_into r b) (Suc 0) = qos_of b (Suc 0)"
  unfolding qos_of_1_bits by (auto simp: retain_into_def byte_bits)

lemma qos_of_type_into [header_simps, simp]: "qos_of (type_into t b) (Suc 0) = qos_of b (Suc 0)"
  unfolding qos_of_1_bits by (cases t) (auto simp: type_into_def byte_bits)

lemma dup_of_type_into [header_simps, simp]: "dup_of (type_into t b) = dup_of b"
  unfolding dup_of_bit by (cases t) (auto simp: type_into_def byte_bits)

lemma retain_of_type_into [header_simps, simp]: "retain_of (type_into t b) = retain_of b"
  unfolding retain_of_bit by (cases t) (auto simp: type_into_def byte_bits)

text \<open>The reserved quality of service overwrites the DUP flag and bit 4, the lowest type bit.\<close>

lemma qos_into_reserved: "qos_into QOS_RESERVED b (Suc 0) = b OR 0x1E"
  by (auto simp: qos_into_def byte_bits)

lemma qos_of_code [simp]: "qos_of (qos_code q) 0 = q"
  by (cases q) (simp_all add: qos_of_def)

section \<open>Packet length\<close>

text \<open>The number of bytes MQTT needs for the variable-length encoding of a remaining length.\<close>

definition length_bytes :: "nat \<Rightarrow> nat" where
  "length_bytes n = (if n \<le> 127 then 1 else if n \<le> 16383 then 2 else if n \<le> 2097151 then 3 else 4)"

lemma unat_total_length:
  assumes "remaining_length \<le> MAX_ALLOWED_PACKET_LENGTH"
  shows "unat (total_length remaining_length)
       = 1 + length_bytes (unat remaining_length) + unat remaining_length"
proof -
  have le: "unat remaining_length \<le> 268435455"
    using assms by (simp add: MAX_ALLOWED_PACKET_LENGTH_def word_le_nat_alt)
  have "unat (k + remaining_length) = unat k + unat remaining_length" if "unat k \<le> 5" for k :: u32
    by (rule unat_add_lem [THEN iffD1]) (use le that in simp)
  then show ?thesis
    using le by (auto simp: total_length_def length_bytes_def Let_def word_le_nat_alt)
qed

end
