(* ===== verification/Packets.thy ===== *)
theory Packets
  imports Packet_Header
begin

text \<open>
  The MQTT control packets of \<^verbatim>\<open>source/server/io_wally/protocol\<close>: each packet class is a record
  that extends the record of the base class \<^verbatim>\<open>mqtt_packet\<close> (raw first byte and remaining length),
  each constructor and each operation of the class is a definition. \<^verbatim>\<open>const char*\<close> arguments are
  the bytes they point to, possibly null (\<open>None\<close>); converting one to \<^verbatim>\<open>std::string\<close> stops at the
  first NUL character. The classes' \<^verbatim>\<open>to_string\<close> renderings are in the theory \<open>Packet_Strings\<close>.
\<close>

section \<open>The base class\<close>

record mqtt_header =
  type_and_flags :: byte
  remaining_length :: u32

definition header_type :: "'a mqtt_header_scheme \<Rightarrow> packet_type" where
  "header_type p = type_of (type_and_flags p)"

definition header_total_length :: "'a mqtt_header_scheme \<Rightarrow> u32" where
  "header_total_length p = total_length (remaining_length p)"

text \<open>The \<^verbatim>\<open>mqtt_ack\<close> constructor writes the type into the given flags.\<close>

definition mqtt_ack :: "packet_type \<Rightarrow> u32 \<Rightarrow> byte \<Rightarrow> mqtt_header" where
  "mqtt_ack type remaining_len flags =
     \<lparr>type_and_flags = type_into type flags, remaining_length = remaining_len\<rparr>"

definition c_string :: "string \<Rightarrow> string" where
  "c_string s = takeWhile (\<lambda>c. c \<noteq> NUL) s"

section \<open>CONNECT\<close>

definition cf_has_username :: "byte \<Rightarrow> bool" where
  "cf_has_username con_flags \<longleftrightarrow> con_flags AND 0x80 = 0x80"

definition cf_has_password :: "byte \<Rightarrow> bool" where
  "cf_has_password con_flags \<longleftrightarrow> con_flags AND 0x40 = 0x40"

definition cf_retain_last_will :: "byte \<Rightarrow> bool" where
  "cf_retain_last_will con_flags \<longleftrightarrow> con_flags AND 0x20 = 0x20"

definition cf_last_will_qos :: "byte \<Rightarrow> QoS" where
  "cf_last_will_qos con_flags = qos_of con_flags 3"

definition cf_contains_last_will :: "byte \<Rightarrow> bool" where
  "cf_contains_last_will con_flags \<longleftrightarrow> con_flags AND 0x04 = 0x04"

definition cf_clean_session :: "byte \<Rightarrow> bool" where
  "cf_clean_session con_flags \<longleftrightarrow> con_flags AND 0x02 = 0x02"

datatype protocol_level = LEVEL4 | UNSUPPORTED

record connect = mqtt_header +
  prot_name :: string
  prot_level :: byte
  con_flags :: byte
  keep_alive_secs :: u16
  client_id :: string
  will_topic :: "string option"
  will_message :: "byte list option"
  username :: "string option"
  password :: "string option"

definition new_connect ::
  "u32 \<Rightarrow> string \<Rightarrow> byte \<Rightarrow> byte \<Rightarrow> u16 \<Rightarrow> string \<Rightarrow> string option \<Rightarrow> byte list
   \<Rightarrow> string option \<Rightarrow> string option \<Rightarrow> connect" where
  "new_connect remaining_len name level flags keep_alive cid topic msg user pwd =
     \<lparr>type_and_flags = push_bit 4 0x01, remaining_length = remaining_len,
      prot_name = c_string name, prot_level = level, con_flags = flags,
      keep_alive_secs = keep_alive, client_id = c_string cid,
      will_topic = map_option c_string topic,
      will_message = (case topic of None \<Rightarrow> None | Some _ \<Rightarrow> Some msg),
      username = map_option c_string user,
      password = map_option c_string pwd\<rparr>"

definition connect_protocol_level :: "connect \<Rightarrow> protocol_level" where
  "connect_protocol_level c = (if prot_level c = 0x04 then LEVEL4 else UNSUPPORTED)"

definition connect_retain_last_will :: "connect \<Rightarrow> bool" where
  "connect_retain_last_will c = cf_retain_last_will (con_flags c)"

definition connect_last_will_qos :: "connect \<Rightarrow> QoS" where
  "connect_last_will_qos c = cf_last_will_qos (con_flags c)"

definition connect_contains_last_will :: "connect \<Rightarrow> bool" where
  "connect_contains_last_will c = cf_contains_last_will (con_flags c)"

definition connect_clean_session :: "connect \<Rightarrow> bool" where
  "connect_clean_session c = cf_clean_session (con_flags c)"

section \<open>CONNACK\<close>

datatype connect_return_code =
    CONNECTION_ACCEPTED | UNACCEPTABLE_PROTOCOL_VERSION | IDENTIFIER_REJECTED
  | SERVER_UNAVAILABLE | BAD_USERNAME_OR_PASSWORD | NOT_AUTHORIZED | CONNECT_RESERVED

record connack = mqtt_header +
  session_present :: bool
  return_code :: connect_return_code

definition new_connack :: "bool \<Rightarrow> connect_return_code \<Rightarrow> connack" where
  "new_connack present rc =
     mqtt_header.extend (mqtt_ack CONNACK 2 0x00) \<lparr>session_present = present, return_code = rc\<rparr>"

section \<open>PUBLISH\<close>

record publish = mqtt_header +
  topic :: string
  packet_identifier :: u16
  application_message :: "byte list"

definition new_publish :: "byte \<Rightarrow> u32 \<Rightarrow> string \<Rightarrow> u16 \<Rightarrow> byte list \<Rightarrow> publish result" where
  "new_publish tf remaining_len tpc pktid msg =
     rbind (cpp_assert (type_of tf = PUBLISH)) (\<lambda>_.
     Inr \<lparr>type_and_flags = tf, remaining_length = remaining_len,
          topic = tpc, packet_identifier = pktid, application_message = msg\<rparr>)"

definition publish_create ::
  "bool \<Rightarrow> QoS \<Rightarrow> bool \<Rightarrow> string \<Rightarrow> u16 \<Rightarrow> byte list \<Rightarrow> publish result" where
  "publish_create dup qos retain tpc pktid msg =
     (let tf = retain_into retain (qos_into qos (dup_into dup (type_into PUBLISH 0x00)) 1);
          len = (if qos = AT_MOST_ONCE then 0 else 2 :: u32)
                + (2 + word_of_nat (length tpc)) + word_of_nat (length msg)
      in new_publish tf len tpc pktid msg)"

definition publish_dup :: "publish \<Rightarrow> bool" where
  "publish_dup p = dup_of (type_and_flags p)"

definition publish_set_dup :: "bool \<Rightarrow> publish \<Rightarrow> publish" where
  "publish_set_dup dup p = p\<lparr>type_and_flags := dup_into dup (type_and_flags p)\<rparr>"

definition publish_qos :: "publish \<Rightarrow> QoS" where
  "publish_qos p = qos_of (type_and_flags p) 1"

text \<open>
  The setter first rewrites the flag bits, then adjusts the remaining length by the size of the
  packet identifier; an old quality of service of \<^verbatim>\<open>RESERVED\<close> ends in \<^verbatim>\<open>assert( false )\<close>.
\<close>

definition qos_bits_into :: "QoS \<Rightarrow> byte \<Rightarrow> byte" where
  "qos_bits_into new_qos b = (b AND 0xF9) OR push_bit 1 (qos_code new_qos)"

definition publish_set_qos :: "QoS \<Rightarrow> publish \<Rightarrow> publish result" where
  "publish_set_qos new_qos p =
     (let old_qos = publish_qos p;
          p' = p\<lparr>type_and_flags := qos_bits_into new_qos (type_and_flags p)\<rparr>
      in case old_qos of
           AT_MOST_ONCE \<Rightarrow>
             Inr (if new_qos = AT_LEAST_ONCE \<or> new_qos = EXACTLY_ONCE
                  then p'\<lparr>remaining_length := remaining_length p + 2\<rparr> else p')
         | AT_LEAST_ONCE \<Rightarrow>
             Inr (if new_qos = AT_MOST_ONCE
                  then p'\<lparr>remaining_length := remaining_length p - 2\<rparr> else p')
         | EXACTLY_ONCE \<Rightarrow>
             Inr (if new_qos = AT_MOST_ONCE
                  then p'\<lparr>remaining_length := remaining_length p - 2\<rparr> else p')
         | QOS_RESERVED \<Rightarrow> Inl Assertion_failed)"

definition publish_retain :: "publish \<Rightarrow> bool" where
  "publish_retain p = retain_of (type_and_flags p)"

definition publish_set_retain :: "bool \<Rightarrow> publish \<Rightarrow> publish" where
  "publish_set_retain retain p = p\<lparr>type_and_flags := retain_into retain (type_and_flags p)\<rparr>"

definition has_packet_identifier :: "publish \<Rightarrow> bool" where
  "has_packet_identifier p \<longleftrightarrow> publish_qos p \<noteq> AT_MOST_ONCE"

definition with_new_packet_identifier :: "u16 \<Rightarrow> publish \<Rightarrow> publish result" where
  "with_new_packet_identifier new_packet_identifier p =
     new_publish (type_and_flags p) (remaining_length p) (topic p) new_packet_identifier
       (application_message p)"

section \<open>PUBACK, PUBREC, PUBREL, PUBCOMP\<close>

record publish_ack = mqtt_header +
  ack_packet_identifier :: u16

definition new_publish_ack :: "packet_type \<Rightarrow> u16 \<Rightarrow> byte \<Rightarrow> publish_ack" where
  "new_publish_ack type pktid flags =
     mqtt_header.extend (mqtt_ack type 2 flags) \<lparr>ack_packet_identifier = pktid\<rparr>"

definition new_puback :: "u16 \<Rightarrow> publish_ack" where
  "new_puback pktid = new_publish_ack PUBACK pktid 0x00"

definition new_pubrec :: "u16 \<Rightarrow> publish_ack" where
  "new_pubrec pktid = new_publish_ack PUBREC pktid 0x00"

definition new_pubrel :: "u16 \<Rightarrow> publish_ack" where
  "new_pubrel pktid = new_publish_ack PUBREL pktid 0x02"

definition new_pubcomp :: "u16 \<Rightarrow> publish_ack" where
  "new_pubcomp pktid = new_publish_ack PUBCOMP pktid 0x00"

section \<open>SUBSCRIBE, SUBACK, UNSUBSCRIBE, UNSUBACK\<close>

text \<open>
  \<^verbatim>\<open>subscription\<close> holds a topic filter and a maximum quality of service. Its constructor
  validates the filter; see the theory \<open>Topic_Filter\<close>.
\<close>

record subscription =
  topic_filter :: string
  maximum_qos :: QoS

datatype suback_return_code = MAXIMUM_QOS0 | MAXIMUM_QOS1 | MAXIMUM_QOS2 | FAILURE | SUBACK_RESERVED

record suback = mqtt_header +
  suback_packet_identifier :: u16
  return_codes :: "suback_return_code list"

definition new_suback :: "u16 \<Rightarrow> suback_return_code list \<Rightarrow> suback" where
  "new_suback pktid rcs =
     mqtt_header.extend (mqtt_ack SUBACK (2 + word_of_nat (length rcs)) 0x00)
       \<lparr>suback_packet_identifier = pktid, return_codes = rcs\<rparr>"

record subscribe = mqtt_header +
  subscribe_packet_identifier :: u16
  subscriptions :: "subscription list"

definition new_subscribe :: "u32 \<Rightarrow> u16 \<Rightarrow> subscription list \<Rightarrow> subscribe" where
  "new_subscribe remaining_len pktid subscrs =
     \<lparr>type_and_flags = push_bit 4 0x08 OR 0x02, remaining_length = remaining_len,
      subscribe_packet_identifier = pktid, subscriptions = subscrs\<rparr>"

definition subscribe_fail :: "subscribe \<Rightarrow> suback" where
  "subscribe_fail s =
     new_suback (subscribe_packet_identifier s) (replicate (length (subscriptions s)) FAILURE)"

fun suback_code_for :: "QoS \<Rightarrow> suback_return_code" where
  "suback_code_for AT_MOST_ONCE = MAXIMUM_QOS0"
| "suback_code_for AT_LEAST_ONCE = MAXIMUM_QOS1"
| "suback_code_for EXACTLY_ONCE = MAXIMUM_QOS2"
| "suback_code_for QOS_RESERVED = FAILURE"

definition subscribe_succeed :: "subscribe \<Rightarrow> suback" where
  "subscribe_succeed s =
     new_suback (subscribe_packet_identifier s)
       (map (\<lambda>subscr. suback_code_for (maximum_qos subscr)) (subscriptions s))"

record unsuback = mqtt_header +
  unsuback_packet_identifier :: u16

definition new_unsuback :: "u16 \<Rightarrow> unsuback" where
  "new_unsuback pktid =
     mqtt_header.extend (mqtt_ack UNSUBACK 2 0x00) \<lparr>unsuback_packet_identifier = pktid\<rparr>"

record unsubscribe = mqtt_header +
  unsubscribe_packet_identifier :: u16
  topic_filters :: "string list"

definition new_unsubscribe :: "u32 \<Rightarrow> u16 \<Rightarrow> string list \<Rightarrow> unsubscribe" where
  "new_unsubscribe remaining_len pktid filters =
     \<lparr>type_and_flags = push_bit 4 0x0A OR 0x02, remaining_length = remaining_len,
      unsubscribe_packet_identifier = pktid, topic_filters = filters\<rparr>"

definition unsubscribe_ack :: "unsubscribe \<Rightarrow> unsuback" where
  "unsubscribe_ack u = new_unsuback (unsubscribe_packet_identifier u)"

section \<open>PINGREQ, PINGRESP, DISCONNECT\<close>

definition new_pingreq :: mqtt_header where
  "new_pingreq = \<lparr>type_and_flags = push_bit 4 0x0C, remaining_length = 0\<rparr>"

definition new_pingresp :: mqtt_header where
  "new_pingresp = \<lparr>type_and_flags = push_bit 4 0x0D, remaining_length = 0\<rparr>"

definition new_disconnect :: mqtt_header where
  "new_disconnect = \<lparr>type_and_flags = push_bit 4 0x0E, remaining_length = 0\<rparr>"

section \<open>Packets of any type\<close>

text \<open>
  A \<^verbatim>\<open>std::shared_ptr<mqtt_packet>\<close> points to an instance of one of the concrete classes; the
  constructor records which, so that a \<^verbatim>\<open>dynamic_cast\<close> is a match on it.
\<close>

datatype mqtt_packet =
    Connect connect | Connack connack | Publish publish
  | Puback publish_ack | Pubrec publish_ack | Pubrel publish_ack | Pubcomp publish_ack
  | Subscribe subscribe | Suback suback | Unsubscribe unsubscribe | Unsuback unsuback
  | Pingreq mqtt_header | Pingresp mqtt_header | Disconnect mqtt_header

fun packet_header :: "mqtt_packet \<Rightarrow> mqtt_header" where
  "packet_header (Connect p) = mqtt_header.truncate p"
| "packet_header (Connack p) = mqtt_header.truncate p"
| "packet_header (Publish p) = mqtt_header.truncate p"
| "packet_header (Puback p) = mqtt_header.truncate p"
| "packet_header (Pubrec p) = mqtt_header.truncate p"
| "packet_header (Pubrel p) = mqtt_header.truncate p"
| "packet_header (Pubcomp p) = mqtt_header.truncate p"
| "packet_header (Subscribe p) = mqtt_header.truncate p"
| "packet_header (Suback p) = mqtt_header.truncate p"
| "packet_header (Unsubscribe p) = mqtt_header.truncate p"
| "packet_header (Unsuback p) = mqtt_header.truncate p"
| "packet_header (Pingreq p) = p"
| "packet_header (Pingresp p) = p"
| "packet_header (Disconnect p) = p"

definition packet_type :: "mqtt_packet \<Rightarrow> packet_type" where
  "packet_type p = header_type (packet_header p)"

definition packet_type_and_flags :: "mqtt_packet \<Rightarrow> byte" where
  "packet_type_and_flags p = type_and_flags (packet_header p)"

definition packet_remaining_length :: "mqtt_packet \<Rightarrow> u32" where
  "packet_remaining_length p = remaining_length (packet_header p)"

definition packet_total_length :: "mqtt_packet \<Rightarrow> u32" where
  "packet_total_length p = header_total_length (packet_header p)"

text \<open>
  The dynamic class and the type bits of a packet agree. The server relies on it whenever it
  switches on \<^verbatim>\<open>type( )\<close> and then casts.
\<close>

fun class_type :: "mqtt_packet \<Rightarrow> packet_type" where
  "class_type (Connect _) = CONNECT"
| "class_type (Connack _) = CONNACK"
| "class_type (Publish _) = PUBLISH"
| "class_type (Puback _) = PUBACK"
| "class_type (Pubrec _) = PUBREC"
| "class_type (Pubrel _) = PUBREL"
| "class_type (Pubcomp _) = PUBCOMP"
| "class_type (Subscribe _) = SUBSCRIBE"
| "class_type (Suback _) = SUBACK"
| "class_type (Unsubscribe _) = UNSUBSCRIBE"
| "class_type (Unsuback _) = UNSUBACK"
| "class_type (Pingreq _) = PINGREQ"
| "class_type (Pingresp _) = PINGRESP"
| "class_type (Disconnect _) = DISCONNECT"

definition well_typed :: "mqtt_packet \<Rightarrow> bool" where
  "well_typed p \<longleftrightarrow> packet_type p = class_type p"

lemma truncate_simps [simp]:
  "type_and_flags (mqtt_header.truncate p) = type_and_flags p"
  "remaining_length (mqtt_header.truncate p) = remaining_length p"
  by (simp_all add: mqtt_header.truncate_def)

lemma header_type_truncate [simp]: "header_type (mqtt_header.truncate p) = header_type p"
  by (simp add: header_type_def)

section \<open>Constructors build well-typed packets\<close>

lemma mqtt_ack_simps [simp]:
  "header_type (mqtt_ack t n fl) = t"
  "remaining_length (mqtt_ack t n fl) = n"
  "type_and_flags (mqtt_ack t n fl) = type_into t fl"
  by (simp_all add: mqtt_ack_def header_type_def)

lemmas new_packet_defs =
  new_connect_def new_connack_def new_publish_ack_def new_puback_def new_pubrec_def new_pubrel_def
  new_pubcomp_def new_suback_def new_subscribe_def new_unsuback_def new_unsubscribe_def
  new_pingreq_def new_pingresp_def new_disconnect_def mqtt_header.defs

lemma type_of_literals [simp]:
  "type_of 16 = CONNECT" "type_of 130 = SUBSCRIBE" "type_of 162 = UNSUBSCRIBE"
  "type_of 192 = PINGREQ" "type_of 208 = PINGRESP" "type_of 224 = DISCONNECT"
  by (simp_all add: type_of_def)

lemma well_typed_new [simp]:
  "well_typed (Connect (new_connect l n v fl ka cid t m u pw))"
  "well_typed (Connack (new_connack sp rc))"
  "well_typed (Puback (new_puback i))" "well_typed (Pubrec (new_pubrec i))"
  "well_typed (Pubrel (new_pubrel i))" "well_typed (Pubcomp (new_pubcomp i))"
  "well_typed (Subscribe (new_subscribe l i ss))" "well_typed (Suback (new_suback i rcs))"
  "well_typed (Unsubscribe (new_unsubscribe l i fs))" "well_typed (Unsuback (new_unsuback i))"
  "well_typed (Pingreq new_pingreq)" "well_typed (Pingresp new_pingresp)"
  "well_typed (Disconnect new_disconnect)"
  by (simp_all add: well_typed_def packet_type_def header_type_def new_packet_defs mqtt_ack_def)

lemma ack_packet_identifier_new [simp]:
  "ack_packet_identifier (new_puback i) = i" "ack_packet_identifier (new_pubrec i) = i"
  "ack_packet_identifier (new_pubrel i) = i" "ack_packet_identifier (new_pubcomp i) = i"
  by (simp_all add: new_packet_defs)

section \<open>PUBLISH packets: the length field stays exact\<close>

text \<open>
  A PUBLISH packet is well formed when its type bits say PUBLISH, its quality of service is not the
  reserved one and its remaining length is the number of bytes its body takes on the wire.
\<close>

definition publish_body_length :: "publish \<Rightarrow> nat" where
  "publish_body_length p =
     2 + length (topic p) + (if has_packet_identifier p then 2 else 0)
     + length (application_message p)"

definition publish_wf :: "publish \<Rightarrow> bool" where
  "publish_wf p \<longleftrightarrow> header_type p = PUBLISH \<and> publish_qos p \<noteq> QOS_RESERVED \<and>
     unat (remaining_length p) = publish_body_length p"

lemma qos_bits_into_simps [simp]:
  "type_of (qos_bits_into q b) = type_of b"
  "dup_of (qos_bits_into q b) = dup_of b"
  "retain_of (qos_bits_into q b) = retain_of b"
  "qos_of (qos_bits_into q b) (Suc 0) = q"
  subgoal by (rule type_of_cong) (cases q; auto simp: qos_bits_into_def byte_bits)
  subgoal unfolding dup_of_bit by (cases q) (auto simp: qos_bits_into_def byte_bits)
  subgoal unfolding retain_of_bit by (cases q) (auto simp: qos_bits_into_def byte_bits)
  subgoal unfolding qos_of_1_bits by (cases q) (auto simp: qos_bits_into_def byte_bits)
  done

lemmas publish_accessor_defs =
  publish_dup_def publish_qos_def publish_retain_def publish_set_dup_def publish_set_retain_def
  has_packet_identifier_def header_type_def

lemma new_publish_Inr_iff:
  "new_publish tf l t i m = Inr p \<longleftrightarrow>
     type_of tf = PUBLISH \<and>
     p = \<lparr>type_and_flags = tf, remaining_length = l, topic = t, packet_identifier = i,
          application_message = m\<rparr>"
  by (auto simp: new_publish_def result_simps)

lemma publish_set_dup_simps [simp]:
  "publish_dup (publish_set_dup d p) = d"
  "publish_qos (publish_set_dup d p) = publish_qos p"
  "publish_retain (publish_set_dup d p) = publish_retain p"
  "has_packet_identifier (publish_set_dup d p) = has_packet_identifier p"
  "header_type (publish_set_dup d p) = header_type p"
  "remaining_length (publish_set_dup d p) = remaining_length p"
  "topic (publish_set_dup d p) = topic p"
  "packet_identifier (publish_set_dup d p) = packet_identifier p"
  "application_message (publish_set_dup d p) = application_message p"
  by (simp_all add: publish_accessor_defs)

lemma publish_set_retain_simps [simp]:
  "publish_retain (publish_set_retain r p) = r"
  "publish_qos (publish_set_retain r p) = publish_qos p"
  "publish_dup (publish_set_retain r p) = publish_dup p"
  "has_packet_identifier (publish_set_retain r p) = has_packet_identifier p"
  "header_type (publish_set_retain r p) = header_type p"
  "remaining_length (publish_set_retain r p) = remaining_length p"
  "topic (publish_set_retain r p) = topic p"
  "packet_identifier (publish_set_retain r p) = packet_identifier p"
  "application_message (publish_set_retain r p) = application_message p"
  by (simp_all add: publish_accessor_defs)

lemma publish_wf_set_dup [simp]: "publish_wf (publish_set_dup d p) = publish_wf p"
  by (simp add: publish_wf_def publish_body_length_def)

lemma publish_wf_set_retain [simp]: "publish_wf (publish_set_retain r p) = publish_wf p"
  by (simp add: publish_wf_def publish_body_length_def)

lemma publish_set_qos_fields:
  assumes "publish_set_qos q p = Inr p'"
  shows "publish_qos p' = q" "publish_dup p' = publish_dup p" "publish_retain p' = publish_retain p"
    "header_type p' = header_type p" "topic p' = topic p"
    "packet_identifier p' = packet_identifier p"
    "application_message p' = application_message p"
  using assms
  by (auto simp: publish_set_qos_def Let_def publish_accessor_defs
      split: QoS.splits if_splits)

lemma publish_set_qos_ok: "publish_qos p \<noteq> QOS_RESERVED \<Longrightarrow> \<exists>p'. publish_set_qos q p = Inr p'"
  by (cases "publish_qos p") (simp_all add: publish_set_qos_def Let_def)

lemma publish_set_qos_remaining_length:
  assumes "publish_set_qos q p = Inr p'" "q \<noteq> QOS_RESERVED"
  shows "remaining_length p' =
     (if has_packet_identifier p \<and> q = AT_MOST_ONCE then remaining_length p - 2
      else if \<not> has_packet_identifier p \<and> q \<noteq> AT_MOST_ONCE then remaining_length p + 2
      else remaining_length p)"
  using assms
  by (cases q) (auto simp: publish_set_qos_def Let_def has_packet_identifier_def split: QoS.splits)

lemma unat_add_2: "unat (l :: u32) + 2 < 2 ^ 32 \<Longrightarrow> unat (l + 2) = unat l + 2"
  by (simp add: unat_word_ariths)

lemma unat_sub_2: "2 \<le> unat (l :: u32) \<Longrightarrow> unat (l - 2) = unat l - 2"
  by (simp add: unat_sub_if')

lemma publish_wf_set_qos:
  assumes "publish_set_qos q p = Inr p'" "publish_wf p" "q \<noteq> QOS_RESERVED"
    "publish_body_length p + 2 < 2 ^ 32"
  shows "publish_wf p'"
proof -
  note fields = publish_set_qos_fields [OF assms(1)]
  have pid: "has_packet_identifier p' \<longleftrightarrow> q \<noteq> AT_MOST_ONCE"
    by (simp add: has_packet_identifier_def fields)
  have len: "unat (remaining_length p) = publish_body_length p"
    using assms(2) by (simp add: publish_wf_def)
  then have two: "2 \<le> unat (remaining_length p)" and room: "unat (remaining_length p) + 2 < 2 ^ 32"
    using assms(4) by (simp_all add: publish_body_length_def)
  have "unat (remaining_length p') = publish_body_length p'"
    unfolding publish_set_qos_remaining_length [OF assms(1,3)]
    using len unat_sub_2 [OF two] unat_add_2 [OF room]
    by (simp add: publish_body_length_def pid fields)
  then show ?thesis
    using assms(2,3) by (simp add: publish_wf_def fields)
qed

lemma publish_wf_new_identifier:
  assumes "with_new_packet_identifier i p = Inr p'"
  shows "packet_identifier p' = i" "publish_wf p' = publish_wf p" "publish_qos p' = publish_qos p"
    "publish_dup p' = publish_dup p" "publish_retain p' = publish_retain p"
    "topic p' = topic p" "application_message p' = application_message p"
    "publish_body_length p' = publish_body_length p"
  using assms
  by (auto simp: with_new_packet_identifier_def new_publish_Inr_iff publish_wf_def
      publish_body_length_def publish_accessor_defs)

lemma with_new_packet_identifier_ok:
  "header_type p = PUBLISH \<Longrightarrow> \<exists>p'. with_new_packet_identifier i p = Inr p'"
  by (simp add: with_new_packet_identifier_def new_publish_def header_type_def)

lemma publish_create_wf:
  assumes "qos \<noteq> QOS_RESERVED" "4 + length tpc + length msg < 2 ^ 32"
  shows "\<exists>p. publish_create dup qos retain tpc pktid msg = Inr p \<and> publish_wf p \<and>
    publish_dup p = dup \<and> publish_qos p = qos \<and> publish_retain p = retain \<and> topic p = tpc \<and>
    packet_identifier p = pktid \<and> application_message p = msg"
proof -
  have len: "unat ((if qos = AT_MOST_ONCE then 0 else 2 :: u32) + (2 + word_of_nat (length tpc))
        + word_of_nat (length msg))
      = 2 + length tpc + (if qos = AT_MOST_ONCE then 0 else 2) + length msg"
    using assms(2) by (auto simp: unat_word_ariths unat_of_nat take_bit_nat_def)
  show ?thesis
    using assms(1) len
    by (auto simp: publish_create_def new_publish_def Let_def publish_wf_def publish_body_length_def
        publish_accessor_defs)
qed

end
