(* ===== verification/In_Flight.thy ===== *)
theory In_Flight
  imports Packets
begin

text \<open>
  What the two stores of in-flight publications (\<^verbatim>\<open>tx_in_flight_publications\<close> for those the server
  sends, \<^verbatim>\<open>rx_in_flight_publications\<close> for those it receives) have in common: the effects they have on
  the connection (\<^verbatim>\<open>mqtt_packet_sender\<close>) and on timers, the map from packet identifiers to
  publications, and the handling of one event by the publication it is addressed to. A publication
  that is done asks its store to release it.

  The locale \<open>in_flight_protocol\<close> is the contract between a store and the state machine of its
  publications.
\<close>

section \<open>Effects\<close>

datatype action =
    Send mqtt_packet       \<comment> \<open>\<^verbatim>\<open>sender->send( packet )\<close>\<close>
  | Stop                   \<comment> \<open>\<^verbatim>\<open>sender->stop( .. )\<close>\<close>
  | Start_timer u16        \<comment> \<open>\<^verbatim>\<open>retry_on_timeout_.async_wait\<close> of a publication\<close>
  | Cancel_timer u16       \<comment> \<open>\<^verbatim>\<open>retry_on_timeout_.cancel( )\<close> of a publication\<close>

fun sent :: "action list \<Rightarrow> mqtt_packet list" where
  "sent [] = []"
| "sent (Send p # acts) = p # sent acts"
| "sent (_ # acts) = sent acts"

lemma sent_append [simp]: "sent (xs @ ys) = sent xs @ sent ys"
  by (induction xs rule: sent.induct) auto

section \<open>The map of publications\<close>

text \<open>
  \<^verbatim>\<open>emplace\<close> followed by \<^verbatim>\<open>assert( inserted )\<close>, and \<^verbatim>\<open>erase\<close> followed by
  \<^verbatim>\<open>assert( erase_count == 1 )\<close>.
\<close>

definition emplace_publication :: "u16 \<Rightarrow> 'p \<Rightarrow> (u16 \<rightharpoonup> 'p) \<Rightarrow> (u16 \<rightharpoonup> 'p) result" where
  "emplace_publication pktid pub pubs =
     rbind (cpp_assert (pubs pktid = None)) (\<lambda>_. Inr (pubs(pktid \<mapsto> pub)))"

definition release_publication :: "u16 \<Rightarrow> (u16 \<rightharpoonup> 'p) \<Rightarrow> (u16 \<rightharpoonup> 'p) result" where
  "release_publication pktid pubs =
     rbind (cpp_assert (pubs pktid \<noteq> None)) (\<lambda>_. Inr (pubs(pktid := None)))"

text \<open>
  An event handled by one publication: the publication afterwards, its effects in order, and whether
  it asked to be released.
\<close>

type_synonym 'p outcome = "'p \<times> action list \<times> bool"

definition on_publication ::
  "('p \<Rightarrow> u16) \<Rightarrow> ('p \<Rightarrow> 'p outcome result) \<Rightarrow> u16 \<Rightarrow> 'p \<Rightarrow> (u16 \<rightharpoonup> 'p)
   \<Rightarrow> ((u16 \<rightharpoonup> 'p) \<times> action list) result" where
  "on_publication ident handle pktid pub pubs =
     rbind (handle pub) (\<lambda>(pub', acts, released).
     if released
     then rbind (release_publication (ident pub') pubs) (\<lambda>pubs'. Inr (pubs', acts))
     else Inr (pubs(pktid \<mapsto> pub'), acts))"

section \<open>The contract of the state machines\<close>

locale in_flight_protocol =
  fixes ident :: "'p \<Rightarrow> u16"
    and waiting :: "'p \<Rightarrow> bool"
    and handle :: "'ev \<Rightarrow> 'p \<Rightarrow> 'p outcome result"
  assumes handle_ident:
      "\<lbrakk>handle ev p = Inr (p', acts, released); waiting p\<rbrakk> \<Longrightarrow> ident p' = ident p"
    and handle_waiting:
      "\<lbrakk>handle ev p = Inr (p', acts, False); waiting p\<rbrakk> \<Longrightarrow> waiting p'"
begin

text \<open>Every publication is filed under its identifier and waits for something.\<close>

definition store_ok :: "(u16 \<rightharpoonup> 'p) \<Rightarrow> bool" where
  "store_ok pubs \<longleftrightarrow> (\<forall>k p. pubs k = Some p \<longrightarrow> ident p = k \<and> waiting p)"

lemma store_ok_empty: "store_ok Map.empty"
  by (simp add: store_ok_def)

lemma store_okD: "store_ok pubs \<Longrightarrow> pubs k = Some p \<Longrightarrow> ident p = k \<and> waiting p"
  by (simp add: store_ok_def)

lemma store_ok_update: "store_ok pubs \<Longrightarrow> ident p = k \<Longrightarrow> waiting p \<Longrightarrow> store_ok (pubs(k \<mapsto> p))"
  by (simp add: store_ok_def)

lemma store_ok_delete: "store_ok pubs \<Longrightarrow> store_ok (pubs(k := None))"
  by (simp add: store_ok_def)

lemma store_ok_emplace:
  "\<lbrakk>emplace_publication k p pubs = Inr pubs'; store_ok pubs; ident p = k; waiting p\<rbrakk>
   \<Longrightarrow> store_ok pubs'"
  by (auto simp: emplace_publication_def result_simps intro: store_ok_update)

text \<open>
  What an event does to the store, given what it does to the publication it is addressed to: the
  store itself never fails, and no other publication is touched.
\<close>

lemma event_cases:
  assumes "store_ok pubs" "pubs k = Some p"
  shows "on_publication ident (handle ev) k p pubs =
    rbind (handle ev p) (\<lambda>(p', acts, released).
      Inr (if released then pubs(k := None) else pubs(k \<mapsto> p'), acts))"
proof (cases "handle ev p")
  case (Inr r)
  obtain p' acts released where r: "r = (p', acts, released)"
    by (cases r)
  have "ident p' = k"
    using handle_ident [OF Inr [unfolded r]] store_okD [OF assms] by simp
  then show ?thesis
    using assms(2) by (simp add: on_publication_def release_publication_def Inr r)
qed (simp add: on_publication_def)

lemma store_ok_event:
  assumes "on_publication ident (handle ev) k p pubs = Inr (pubs', acts)" "store_ok pubs" "pubs k = Some p"
  shows "store_ok pubs'"
proof -
  obtain p' released where h: "handle ev p = Inr (p', acts, released)"
    and pubs': "pubs' = (if released then pubs(k := None) else pubs(k \<mapsto> p'))"
    using assms(1) unfolding event_cases [OF assms(2,3)] by (auto simp: result_simps)
  have p: "ident p = k" "waiting p"
    using store_okD [OF assms(2,3)] by auto
  show ?thesis
  proof (cases released)
    case True
    then show ?thesis
      using pubs' assms(2) by (simp add: store_ok_delete)
  next
    case False
    then have "ident p' = k" "waiting p'"
      using h p handle_ident [OF h p(2)] handle_waiting [of ev p p' acts] by auto
    then show ?thesis
      using False pubs' assms(2) by (simp add: store_ok_update)
  qed
qed

lemma event_keeps_others:
  assumes "on_publication ident (handle ev) k p pubs = Inr (pubs', acts)" "store_ok pubs"
    "pubs k = Some p" "j \<noteq> k"
  shows "pubs' j = pubs j"
  using assms(1,4) unfolding event_cases [OF assms(2,3)] by (auto simp: result_simps)

lemma event_fails_iff:
  assumes "store_ok pubs" "pubs k = Some p"
  shows "on_publication ident (handle ev) k p pubs = Inl e \<longleftrightarrow> handle ev p = Inl e"
  unfolding event_cases [OF assms] by (auto simp: result_simps)

end

end
