(* ===== verification/Encoder.thy ===== *)
theory Encoder
  imports Packets
begin

text \<open>
  The encoders of \<^verbatim>\<open>source/server/io_wally/codec\<close>: \<^verbatim>\<open>encoder.hpp\<close> (primitives),
  \<^verbatim>\<open>*_packet_encoder.hpp\<close> (bodies) and \<^verbatim>\<open>mqtt_packet_encoder.hpp\<close> (dispatch on the type). An encoder
  writes through an output iterator and returns it advanced; here it returns the bytes it writes,
  in order. The iterator of \<^verbatim>\<open>mqtt_packet_encoder::encode\<close> runs over a write buffer of fixed size,
  so writing more bytes than that is undefined behaviour.
\<close>

section \<open>Primitives\<close>

function encode_remaining_length_loop :: "u32 \<Rightarrow> byte list" where
  "encode_remaining_length_loop remaining_len =
     (let rest = remaining_len mod 0x80;
          remaining_len' = remaining_len div 0x80;
          current = (if remaining_len' > 0 then rest OR 0x80 else rest)
      in ucast current #
         (if remaining_len' > 0 then encode_remaining_length_loop remaining_len' else []))"
  by pat_completeness auto
termination
proof (relation "measure unat")
  fix remaining_len x xa xb :: u32
  assume "xa = remaining_len div 0x80" "0 < xa"
  then have "unat remaining_len div 128 = unat xa" "0 < unat xa"
    by (simp_all add: unat_div word_less_nat_alt)
  then show "(xa, remaining_len) \<in> measure unat"
    by (cases "unat remaining_len = 0") auto
qed simp

declare encode_remaining_length_loop.simps [simp del]

definition encode_remaining_length :: "u32 \<Rightarrow> byte list result" where
  "encode_remaining_length remaining_len =
     (let bytes = encode_remaining_length_loop remaining_len
      in if length bytes > 4 then Inl (Malformed Encoded_length_too_large) else Inr bytes)"

definition encode_uint16 :: "u16 \<Rightarrow> byte list" where
  "encode_uint16 v = [ucast (v div 0x0100), ucast (v mod 0x0100)]"

definition MAX_STRING_LENGTH :: nat where
  "MAX_STRING_LENGTH = 0x00FF * 0x0100 + 0xFF"

definition encode_utf8_string :: "string \<Rightarrow> byte list result" where
  "encode_utf8_string v =
     (if length v > MAX_STRING_LENGTH then Inl (Malformed Encoded_string_too_long)
      else Inr (encode_uint16 (word_of_nat (length v)) @ map byte_of_char v))"

definition encode_fixed_header :: "byte \<Rightarrow> u32 \<Rightarrow> byte list result" where
  "encode_fixed_header type_and_flgs remaining_len =
     rbind (encode_remaining_length remaining_len) (\<lambda>bytes. Inr (type_and_flgs # bytes))"

section \<open>Packet bodies\<close>

fun connack_second_byte :: "connect_return_code \<Rightarrow> byte" where
  "connack_second_byte CONNECTION_ACCEPTED = 0x00"
| "connack_second_byte UNACCEPTABLE_PROTOCOL_VERSION = 0x01"
| "connack_second_byte IDENTIFIER_REJECTED = 0x02"
| "connack_second_byte SERVER_UNAVAILABLE = 0x03"
| "connack_second_byte BAD_USERNAME_OR_PASSWORD = 0x04"
| "connack_second_byte NOT_AUTHORIZED = 0x05"
| "connack_second_byte CONNECT_RESERVED = 0x06"

definition encode_connack_body :: "connack \<Rightarrow> byte list result" where
  "encode_connack_body p =
     rbind (cpp_assert (header_type p = CONNACK)) (\<lambda>_.
     Inr [if session_present p then 0x01 else 0x00, connack_second_byte (return_code p)])"

definition encode_pingresp_body :: "mqtt_header \<Rightarrow> byte list result" where
  "encode_pingresp_body p = rbind (cpp_assert (header_type p = PINGRESP)) (\<lambda>_. Inr [])"

definition encode_puback_body :: "publish_ack \<Rightarrow> byte list result" where
  "encode_puback_body p =
     rbind (cpp_assert (header_type p = PUBACK)) (\<lambda>_.
     Inr (encode_uint16 (ack_packet_identifier p)))"

definition encode_pubrec_body :: "publish_ack \<Rightarrow> byte list result" where
  "encode_pubrec_body p =
     rbind (cpp_assert (header_type p = PUBREC)) (\<lambda>_.
     Inr (encode_uint16 (ack_packet_identifier p)))"

definition encode_pubrel_body :: "publish_ack \<Rightarrow> byte list result" where
  "encode_pubrel_body p =
     rbind (cpp_assert (header_type p = PUBREL)) (\<lambda>_.
     Inr (encode_uint16 (ack_packet_identifier p)))"

definition encode_pubcomp_body :: "publish_ack \<Rightarrow> byte list result" where
  "encode_pubcomp_body p =
     rbind (cpp_assert (header_type p = PUBCOMP)) (\<lambda>_.
     Inr (encode_uint16 (ack_packet_identifier p)))"

definition encode_publish_body :: "publish \<Rightarrow> byte list result" where
  "encode_publish_body p =
     rbind (cpp_assert (header_type p = PUBLISH)) (\<lambda>_.
     rbind (encode_utf8_string (topic p)) (\<lambda>topic_bytes.
     Inr (topic_bytes
          @ (if has_packet_identifier p then encode_uint16 (packet_identifier p) else [])
          @ application_message p)))"

fun suback_code_byte :: "suback_return_code \<Rightarrow> byte" where
  "suback_code_byte MAXIMUM_QOS0 = 0x00"
| "suback_code_byte MAXIMUM_QOS1 = 0x01"
| "suback_code_byte MAXIMUM_QOS2 = 0x02"
| "suback_code_byte FAILURE = 0x80"
| "suback_code_byte SUBACK_RESERVED = 0x81"

fun encode_return_codes :: "suback_return_code list \<Rightarrow> byte list result" where
  "encode_return_codes [] = Inr []"
| "encode_return_codes (rc # rcs) =
     rbind (cpp_assert (rc \<noteq> SUBACK_RESERVED)) (\<lambda>_.
     rbind (encode_return_codes rcs) (\<lambda>bytes. Inr (suback_code_byte rc # bytes)))"

definition encode_suback_body :: "suback \<Rightarrow> byte list result" where
  "encode_suback_body p =
     rbind (cpp_assert (header_type p = SUBACK)) (\<lambda>_.
     rbind (encode_return_codes (return_codes p)) (\<lambda>bytes.
     Inr (encode_uint16 (suback_packet_identifier p) @ bytes)))"

definition encode_unsuback_body :: "unsuback \<Rightarrow> byte list result" where
  "encode_unsuback_body p =
     rbind (cpp_assert (header_type p = UNSUBACK)) (\<lambda>_.
     Inr (encode_uint16 (unsuback_packet_identifier p)))"

section \<open>Packets\<close>

text \<open>
  \<^verbatim>\<open>body_encoder_for\<close> switches on the type bits; the chosen encoder's \<^verbatim>\<open>dynamic_cast\<close> to a reference
  throws \<^verbatim>\<open>std::bad_cast\<close> when the object is of another class. Types that only clients send end in
  \<^verbatim>\<open>assert( false )\<close>.
\<close>

definition encode_body :: "mqtt_packet \<Rightarrow> byte list result" where
  "encode_body p =
     (case packet_type p of
        CONNACK \<Rightarrow> (case p of Connack q \<Rightarrow> encode_connack_body q | _ \<Rightarrow> Inl Bad_cast)
      | PINGRESP \<Rightarrow> (case p of Pingresp q \<Rightarrow> encode_pingresp_body q | _ \<Rightarrow> Inl Bad_cast)
      | SUBACK \<Rightarrow> (case p of Suback q \<Rightarrow> encode_suback_body q | _ \<Rightarrow> Inl Bad_cast)
      | UNSUBACK \<Rightarrow> (case p of Unsuback q \<Rightarrow> encode_unsuback_body q | _ \<Rightarrow> Inl Bad_cast)
      | PUBLISH \<Rightarrow> (case p of Publish q \<Rightarrow> encode_publish_body q | _ \<Rightarrow> Inl Bad_cast)
      | PUBACK \<Rightarrow> (case p of Puback q \<Rightarrow> encode_puback_body q | _ \<Rightarrow> Inl Bad_cast)
      | PUBREL \<Rightarrow> (case p of Pubrel q \<Rightarrow> encode_pubrel_body q | _ \<Rightarrow> Inl Bad_cast)
      | PUBREC \<Rightarrow> (case p of Pubrec q \<Rightarrow> encode_pubrec_body q | _ \<Rightarrow> Inl Bad_cast)
      | PUBCOMP \<Rightarrow> (case p of Pubcomp q \<Rightarrow> encode_pubcomp_body q | _ \<Rightarrow> Inl Bad_cast)
      | _ \<Rightarrow> Inl Assertion_failed)"

definition encode_packet :: "mqtt_packet \<Rightarrow> nat \<Rightarrow> byte list result" where
  "encode_packet p buf_size =
     rbind (encode_fixed_header (packet_type_and_flags p) (packet_remaining_length p)) (\<lambda>hdr.
     rbind (check (length hdr \<le> buf_size) Undefined_behaviour) (\<lambda>_.
     rbind (cpp_assert (unat (packet_remaining_length p) \<le> buf_size - length hdr)) (\<lambda>_.
     rbind (encode_body p) (\<lambda>body.
     rbind (check (length hdr + length body \<le> buf_size) Undefined_behaviour) (\<lambda>_.
     Inr (hdr @ body))))))"

section \<open>Lengths\<close>

lemma length_encode_uint16 [simp]: "length (encode_uint16 v) = 2"
  by (simp add: encode_uint16_def)

lemma unat_div_128: "unat (r div 0x80 :: u32) = unat r div 128"
  by (simp add: unat_div)

lemma unat_mod_128: "unat (r mod 0x80 :: u32) = unat r mod 128"
  by (simp add: unat_mod)

lemma length_encode_remaining_length_loop_le_1:
  "length (encode_remaining_length_loop r) \<le> Suc 0 \<longleftrightarrow> unat r < 128"
proof (cases "0 < r div 0x80")
  case True
  then have "0 < unat r div 128"
    by (simp add: word_less_nat_alt unat_div_128)
  moreover have "encode_remaining_length_loop (r div 0x80) \<noteq> []"
    by (subst encode_remaining_length_loop.simps) (simp add: Let_def)
  ultimately show ?thesis
    using True by (subst encode_remaining_length_loop.simps) (simp add: Let_def div_greater_zero_iff)
next
  case False
  then have "\<not> 0 < unat r div 128"
    by (simp add: word_less_nat_alt unat_div_128)
  then show ?thesis
    using False by (subst encode_remaining_length_loop.simps) (simp add: Let_def div_greater_zero_iff)
qed

lemma length_encode_remaining_length_loop:
  "length (encode_remaining_length_loop r) \<le> Suc k \<longleftrightarrow> unat r < 128 ^ Suc k"
proof (induction k arbitrary: r)
  case 0
  show ?case
    by (simp add: length_encode_remaining_length_loop_le_1)
next
  case (Suc k)
  have big: "unat r < 128 \<Longrightarrow> unat r < 128 ^ Suc (Suc k)"
    by (rule less_le_trans [of _ 128]) simp_all
  have "length (encode_remaining_length_loop r) \<le> Suc (Suc k) \<longleftrightarrow>
    unat r < 128 \<or> length (encode_remaining_length_loop (r div 0x80)) \<le> Suc k"
    by (subst encode_remaining_length_loop.simps)
      (simp add: Let_def word_less_nat_alt unat_div_128 div_greater_zero_iff linorder_not_less [symmetric])
  also have "\<dots> \<longleftrightarrow> unat r < 128 \<or> unat r div 128 < 128 ^ Suc k"
    by (simp only: Suc.IH unat_div_128)
  also have "\<dots> \<longleftrightarrow> unat r < 128 ^ Suc (Suc k)"
    using big by (auto simp: div_less_iff_less_mult)
  finally show ?case .
qed

lemma length_encode_remaining_length_loop_bounds:
  "length (encode_remaining_length_loop r) \<le> 1 \<longleftrightarrow> unat r \<le> 127"
  "length (encode_remaining_length_loop r) \<le> 2 \<longleftrightarrow> unat r \<le> 16383"
  "length (encode_remaining_length_loop r) \<le> 3 \<longleftrightarrow> unat r \<le> 2097151"
  "length (encode_remaining_length_loop r) \<le> 4 \<longleftrightarrow> unat r \<le> 268435455"
proof -
  have powers: "(128::nat) ^ Suc 0 = 128" "(128::nat) ^ Suc 1 = 16384"
    "(128::nat) ^ Suc 2 = 2097152" "(128::nat) ^ Suc 3 = 268435456"
    by simp_all
  note le = length_encode_remaining_length_loop [of r]
  show "length (encode_remaining_length_loop r) \<le> 1 \<longleftrightarrow> unat r \<le> 127"
    using le [of 0, unfolded powers] by linarith
  show "length (encode_remaining_length_loop r) \<le> 2 \<longleftrightarrow> unat r \<le> 16383"
    using le [of 1, unfolded powers] by linarith
  show "length (encode_remaining_length_loop r) \<le> 3 \<longleftrightarrow> unat r \<le> 2097151"
    using le [of 2, unfolded powers] by linarith
  show "length (encode_remaining_length_loop r) \<le> 4 \<longleftrightarrow> unat r \<le> 268435455"
    using le [of 3, unfolded powers] by linarith
qed

lemma encode_remaining_length_loop_nonempty [simp]: "encode_remaining_length_loop r \<noteq> []"
  by (subst encode_remaining_length_loop.simps) (simp add: Let_def)

lemma length_encode_remaining_length_eq:
  assumes "unat r \<le> 268435455"
  shows "length (encode_remaining_length_loop r) = length_bytes (unat r)"
proof -
  let ?n = "length (encode_remaining_length_loop r)"
  have "0 < ?n"
    by simp
  moreover note length_encode_remaining_length_loop_bounds [of r]
  moreover have "length_bytes (unat r) = 1 \<longleftrightarrow> unat r \<le> 127"
    "length_bytes (unat r) = 2 \<longleftrightarrow> \<not> unat r \<le> 127 \<and> unat r \<le> 16383"
    "length_bytes (unat r) = 3 \<longleftrightarrow> \<not> unat r \<le> 16383 \<and> unat r \<le> 2097151"
    "length_bytes (unat r) = 4 \<longleftrightarrow> \<not> unat r \<le> 2097151"
    by (simp_all add: length_bytes_def)
  moreover have "?n = 1 \<or> ?n = 2 \<or> ?n = 3 \<or> ?n = 4"
    using calculation assms by linarith
  ultimately show ?thesis
    using assms by (elim disjE) simp_all
qed

lemma encode_remaining_length_eq:
  "encode_remaining_length r =
     (if r \<le> MAX_ALLOWED_PACKET_LENGTH then Inr (encode_remaining_length_loop r)
      else Inl (Malformed Encoded_length_too_large))"
proof -
  have "r \<le> MAX_ALLOWED_PACKET_LENGTH \<longleftrightarrow> \<not> 4 < length (encode_remaining_length_loop r)"
    using length_encode_remaining_length_loop_bounds(4) [of r]
    by (simp add: MAX_ALLOWED_PACKET_LENGTH_def word_le_nat_alt not_less)
  then show ?thesis
    by (simp only: encode_remaining_length_def Let_def if_not_P if_P split: if_split) simp
qed

lemma length_encode_remaining_length:
  "r \<le> MAX_ALLOWED_PACKET_LENGTH \<Longrightarrow>
   length (encode_remaining_length_loop r) = length_bytes (unat r)"
  by (rule length_encode_remaining_length_eq)
    (simp add: MAX_ALLOWED_PACKET_LENGTH_def word_le_nat_alt)

lemma encode_utf8_string_eq:
  "encode_utf8_string v =
     (if length v \<le> 65535 then Inr (encode_uint16 (word_of_nat (length v)) @ map byte_of_char v)
      else Inl (Malformed Encoded_string_too_long))"
  by (simp add: encode_utf8_string_def MAX_STRING_LENGTH_def)

lemma encode_return_codes_eq:
  "SUBACK_RESERVED \<notin> set rcs \<Longrightarrow> encode_return_codes rcs = Inr (map suback_code_byte rcs)"
  by (induction rcs) auto

section \<open>Packets the server can send\<close>

text \<open>
  The packets the encoder accepts: a class only the server sends or relays, with type bits and
  remaining length that fit what the body encoder writes.
\<close>

fun sendable :: "mqtt_packet \<Rightarrow> bool" where
  "sendable (Connack p) \<longleftrightarrow> header_type p = CONNACK \<and> remaining_length p = 2"
| "sendable (Publish p) \<longleftrightarrow> publish_wf p \<and> length (topic p) \<le> 65535 \<and>
     remaining_length p \<le> MAX_ALLOWED_PACKET_LENGTH"
| "sendable (Puback p) \<longleftrightarrow> header_type p = PUBACK \<and> remaining_length p = 2"
| "sendable (Pubrec p) \<longleftrightarrow> header_type p = PUBREC \<and> remaining_length p = 2"
| "sendable (Pubrel p) \<longleftrightarrow> header_type p = PUBREL \<and> remaining_length p = 2"
| "sendable (Pubcomp p) \<longleftrightarrow> header_type p = PUBCOMP \<and> remaining_length p = 2"
| "sendable (Suback p) \<longleftrightarrow> header_type p = SUBACK \<and> SUBACK_RESERVED \<notin> set (return_codes p) \<and>
     unat (remaining_length p) = 2 + length (return_codes p) \<and>
     remaining_length p \<le> MAX_ALLOWED_PACKET_LENGTH"
| "sendable (Unsuback p) \<longleftrightarrow> header_type p = UNSUBACK \<and> remaining_length p = 2"
| "sendable (Pingresp p) \<longleftrightarrow> header_type p = PINGRESP \<and> remaining_length p = 0"
| "sendable _ \<longleftrightarrow> False"

lemmas encode_body_defs =
  encode_body_def encode_connack_body_def encode_pingresp_body_def encode_puback_body_def
  encode_pubrec_body_def encode_pubrel_body_def encode_pubcomp_body_def encode_publish_body_def
  encode_suback_body_def encode_unsuback_body_def packet_type_def

lemma sendable_body:
  assumes "sendable p"
  shows "\<exists>body. encode_body p = Inr body \<and> length body = unat (packet_remaining_length p)"
  using assms
  by (cases p) (auto simp: encode_body_defs packet_remaining_length_def encode_return_codes_eq
      encode_utf8_string_eq publish_wf_def publish_body_length_def)

lemma sendable_remaining_length:
  "sendable p \<Longrightarrow> packet_remaining_length p \<le> MAX_ALLOWED_PACKET_LENGTH"
  by (cases p) (auto simp: packet_remaining_length_def MAX_ALLOWED_PACKET_LENGTH_def)

lemma sendable_new [simp]:
  "sendable (Connack (new_connack sp rc))" "sendable (Puback (new_puback i))"
  "sendable (Pubrec (new_pubrec i))" "sendable (Pubrel (new_pubrel i))"
  "sendable (Pubcomp (new_pubcomp i))" "sendable (Unsuback (new_unsuback i))"
  "sendable (Pingresp new_pingresp)"
  by (simp_all add: new_packet_defs header_type_def mqtt_ack_def)

lemma suback_code_for_not_reserved [simp]:
  "suback_code_for q \<noteq> SUBACK_RESERVED" "SUBACK_RESERVED \<noteq> suback_code_for q"
  by (cases q; simp)+

lemma sendable_suback:
  assumes "length (subscriptions s) \<le> 268435453"
  shows "sendable (Suback (subscribe_succeed s))"
proof -
  have "unat (2 + word_of_nat (length (subscriptions s)) :: u32) = 2 + length (subscriptions s)"
    using assms by (simp add: unat_word_ariths unat_of_nat)
  then show ?thesis
    using assms by (auto simp: subscribe_succeed_def new_packet_defs header_type_def mqtt_ack_def
        word_le_nat_alt MAX_ALLOWED_PACKET_LENGTH_def)
qed

text \<open>
  The write buffer of a packet has its total length. A sendable packet is encoded into exactly
  that many bytes: no exception, no failed assertion, no write past the end.
\<close>

lemma encode_packet_exact:
  assumes "sendable p"
  shows "\<exists>body. encode_packet p (unat (packet_total_length p)) =
      Inr (packet_type_and_flags p # encode_remaining_length_loop (packet_remaining_length p) @ body) \<and>
    encode_body p = Inr body \<and> length body = unat (packet_remaining_length p) \<and>
    unat (packet_total_length p) =
      1 + length (encode_remaining_length_loop (packet_remaining_length p)) + length body"
proof -
  obtain body where body: "encode_body p = Inr body" "length body = unat (packet_remaining_length p)"
    using sendable_body [OF assms] by blast
  have le: "packet_remaining_length p \<le> MAX_ALLOWED_PACKET_LENGTH"
    using assms by (rule sendable_remaining_length)
  have total: "unat (packet_total_length p) =
      1 + length (encode_remaining_length_loop (packet_remaining_length p)) + length body"
    using unat_total_length [OF le] length_encode_remaining_length [OF le] body(2)
    by (simp add: packet_total_length_def header_total_length_def packet_remaining_length_def)
  show ?thesis
    using body total le
    by (auto simp: encode_packet_def encode_fixed_header_def encode_remaining_length_eq)
qed

section \<open>Publications the server can forward\<close>

text \<open>
  A PUBLISH packet that can be sent on with any quality of service: well formed, and small enough
  even with a packet identifier added. Every operation the dispatcher applies to a packet keeps this.
\<close>

definition forwardable :: "publish \<Rightarrow> bool" where
  "forwardable p \<longleftrightarrow> publish_wf p \<and> length (topic p) \<le> 65535 \<and>
     4 + length (topic p) + length (application_message p) \<le> 268435455"

named_theorems forwardable_simps \<open>operations on publications keep them forwardable\<close>

lemma forwardable_body_length: "forwardable p \<Longrightarrow> publish_body_length p \<le> 268435455"
  by (simp add: forwardable_def publish_body_length_def)

lemma forwardable_sendable: "forwardable p \<Longrightarrow> sendable (Publish p)"
  using forwardable_body_length [of p]
  by (simp add: forwardable_def publish_wf_def word_le_nat_alt MAX_ALLOWED_PACKET_LENGTH_def)

lemma forwardable_header: "forwardable p \<Longrightarrow> header_type p = PUBLISH \<and> publish_qos p \<noteq> QOS_RESERVED"
  by (simp add: forwardable_def publish_wf_def)

lemma forwardable_set_dup [forwardable_simps, simp]: "forwardable (publish_set_dup d p) = forwardable p"
  by (simp add: forwardable_def)

lemma forwardable_set_retain [forwardable_simps, simp]:
  "forwardable (publish_set_retain r p) = forwardable p"
  by (simp add: forwardable_def)

lemma forwardable_set_qos:
  assumes "publish_set_qos q p = Inr p'" "forwardable p" "q \<noteq> QOS_RESERVED"
  shows "forwardable p'"
proof -
  have "publish_body_length p + 2 < 2 ^ 32"
    using forwardable_body_length [OF assms(2)] by simp
  then show ?thesis
    using assms publish_wf_set_qos [OF assms(1) _ assms(3)]
    by (simp add: forwardable_def publish_set_qos_fields [OF assms(1)])
qed

lemma forwardable_new_identifier:
  "with_new_packet_identifier i p = Inr p' \<Longrightarrow> forwardable p' = forwardable p"
  by (simp add: forwardable_def publish_wf_new_identifier)

lemma set_qos_forwardable:
  assumes "forwardable p" "q \<noteq> QOS_RESERVED"
  obtains p' where "publish_set_qos q p = Inr p'" "forwardable p'" "publish_qos p' = q"
proof -
  obtain p' where p': "publish_set_qos q p = Inr p'"
    using publish_set_qos_ok forwardable_header [OF assms(1)] by blast
  show thesis
    by (rule that [OF p' forwardable_set_qos [OF p' assms] publish_set_qos_fields(1) [OF p']])
qed

text \<open>A small PUBLISH packet, used to instantiate hypotheses on packets.\<close>

definition sample_publish :: publish where
  "sample_publish =
     \<lparr>type_and_flags = 0x30, remaining_length = 4, topic = ''t'', packet_identifier = 0,
      application_message = [0x41]\<rparr>"

lemma forwardable_sample [simp]: "forwardable sample_publish"
  by (simp add: forwardable_def publish_wf_def publish_body_length_def sample_publish_def
      header_type_def type_of_def publish_qos_def qos_of_def has_packet_identifier_def)

end
