(* ===== verification/Tx_Publications.thy ===== *)
theory Tx_Publications
  imports In_Flight Encoder
begin

text \<open>
  Publications the server sends: \<^verbatim>\<open>dispatch/tx_publication.cpp\<close> (the state machines of a quality of
  service 1 and of a quality of service 2 publication) and \<^verbatim>\<open>dispatch/tx_in_flight_publications.cpp\<close>
  (their store, one per client session). The configured \<^verbatim>\<open>max_retries_\<close> is an argument;
  \<^verbatim>\<open>retry_count_\<close> is a \<^verbatim>\<open>uint16_t\<close>, the limit a \<^verbatim>\<open>size_t\<close>. That the timer of a publication expires is
  an event. \<^verbatim>\<open>sender_.lock( )\<close> is the argument \<open>alive\<close>: whether the connection still exists.
\<close>

section \<open>A publication of quality of service 1\<close>

datatype qos1_state = Q1_initial | Q1_waiting_for_ack | Q1_completed | Q1_terminally_failed

record qos1_tx =
  q1_publish :: publish
  q1_retry_count :: u16
  q1_state :: qos1_state

definition new_qos1_tx :: "publish \<Rightarrow> qos1_tx result" where
  "new_qos1_tx p =
     rbind (publish_set_qos AT_LEAST_ONCE p) (\<lambda>p'.
     Inr \<lparr>q1_publish = p', q1_retry_count = 0, q1_state = Q1_initial\<rparr>)"

definition q1_start_ack_timeout :: "qos1_tx \<Rightarrow> qos1_tx \<times> action list" where
  "q1_start_ack_timeout t =
     (t\<lparr>q1_state := Q1_waiting_for_ack\<rparr>, [Start_timer (packet_identifier (q1_publish t))])"

definition q1_start :: "qos1_tx \<Rightarrow> qos1_tx \<times> action list" where
  "q1_start t = (let (t', acts) = q1_start_ack_timeout t in (t', Send (Publish (q1_publish t)) # acts))"

definition q1_response_received :: "publish_ack \<Rightarrow> qos1_tx \<Rightarrow> qos1_tx outcome result" where
  "q1_response_received ack t =
     rbind (cpp_assert (q1_state t = Q1_waiting_for_ack)) (\<lambda>_.
     rbind (cpp_assert (header_type ack = PUBACK)) (\<lambda>_.
     rbind (cpp_assert (ack_packet_identifier ack = packet_identifier (q1_publish t))) (\<lambda>_.
     Inr (t\<lparr>q1_state := Q1_completed\<rparr>, [Cancel_timer (packet_identifier (q1_publish t))], True))))"

definition q1_ack_timeout_expired :: "nat \<Rightarrow> qos1_tx \<Rightarrow> qos1_tx outcome result" where
  "q1_ack_timeout_expired max_retries t =
     rbind (cpp_assert (q1_state t = Q1_waiting_for_ack)) (\<lambda>_.
     let t = t\<lparr>q1_retry_count := q1_retry_count t + 1\<rparr>
     in if unat (q1_retry_count t) \<le> max_retries
        then let (t', acts) = q1_start_ack_timeout t
             in Inr (t', Send (Publish (q1_publish t)) # acts, False)
        else Inr (t\<lparr>q1_state := Q1_terminally_failed\<rparr>, [], True))"

section \<open>A publication of quality of service 2\<close>

datatype qos2_state =
  Q2_initial | Q2_waiting_for_rec | Q2_waiting_for_comp | Q2_completed | Q2_terminally_failed

record qos2_tx =
  q2_publish :: publish
  q2_retry_count :: u16
  q2_state :: qos2_state

definition new_qos2_tx :: "publish \<Rightarrow> qos2_tx result" where
  "new_qos2_tx p =
     rbind (publish_set_qos EXACTLY_ONCE p) (\<lambda>p'.
     Inr \<lparr>q2_publish = p', q2_retry_count = 0, q2_state = Q2_initial\<rparr>)"

definition q2_start_ack_timeout :: "qos2_tx \<Rightarrow> qos2_tx \<times> action list" where
  "q2_start_ack_timeout t =
     (t\<lparr>q2_state := if q2_state t = Q2_initial then Q2_waiting_for_rec else Q2_waiting_for_comp\<rparr>,
      [Start_timer (packet_identifier (q2_publish t))])"

definition q2_start :: "qos2_tx \<Rightarrow> qos2_tx \<times> action list" where
  "q2_start t = (let (t', acts) = q2_start_ack_timeout t in (t', Send (Publish (q2_publish t)) # acts))"

definition q2_pubrel :: "qos2_tx \<Rightarrow> mqtt_packet" where
  "q2_pubrel t = Pubrel (new_pubrel (packet_identifier (q2_publish t)))"

definition q2_response_received :: "publish_ack \<Rightarrow> qos2_tx \<Rightarrow> qos2_tx outcome result" where
  "q2_response_received ack t =
     rbind (cpp_assert (q2_state t = Q2_waiting_for_rec \<or> q2_state t = Q2_waiting_for_comp)) (\<lambda>_.
     let cancel = Cancel_timer (packet_identifier (q2_publish t))
     in if q2_state t = Q2_waiting_for_rec then
          if header_type ack \<noteq> PUBREC then Inr (t, [cancel, Stop], False)
          else rbind (cpp_assert (ack_packet_identifier ack = packet_identifier (q2_publish t))) (\<lambda>_.
               let (t', acts) = q2_start_ack_timeout t
               in Inr (t', cancel # Send (q2_pubrel t) # acts, False))
        else if header_type ack = PUBREC then
          let (t', acts) = q2_start_ack_timeout t
          in Inr (t', cancel # Send (q2_pubrel t) # acts, False)
        else rbind (cpp_assert (header_type ack = PUBCOMP)) (\<lambda>_.
             Inr (t\<lparr>q2_state := Q2_completed\<rparr>, [cancel], True)))"

definition q2_ack_timeout_expired :: "nat \<Rightarrow> qos2_tx \<Rightarrow> qos2_tx outcome result" where
  "q2_ack_timeout_expired max_retries t =
     rbind (cpp_assert (q2_state t = Q2_waiting_for_rec \<or> q2_state t = Q2_waiting_for_comp)) (\<lambda>_.
     let t = t\<lparr>q2_retry_count := q2_retry_count t + 1\<rparr>
     in if unat (q2_retry_count t) \<le> max_retries
        then let t' = (if q2_state t = Q2_waiting_for_rec
                       then t\<lparr>q2_publish := publish_set_dup True (q2_publish t)\<rparr> else t);
                 packet = (if q2_state t = Q2_waiting_for_rec then Publish (q2_publish t')
                           else q2_pubrel t');
                 (t'', acts) = q2_start_ack_timeout t'
             in Inr (t'', Send packet # acts, False)
        else Inr (t\<lparr>q2_state := Q2_terminally_failed\<rparr>, [], True))"

section \<open>A publication of either class\<close>

datatype tx_publication = Qos1_tx qos1_tx | Qos2_tx qos2_tx

fun tx_packet_identifier :: "tx_publication \<Rightarrow> u16" where
  "tx_packet_identifier (Qos1_tx t) = packet_identifier (q1_publish t)"
| "tx_packet_identifier (Qos2_tx t) = packet_identifier (q2_publish t)"

fun tx_start :: "tx_publication \<Rightarrow> tx_publication \<times> action list" where
  "tx_start (Qos1_tx t) = (case q1_start t of (t', acts) \<Rightarrow> (Qos1_tx t', acts))"
| "tx_start (Qos2_tx t) = (case q2_start t of (t', acts) \<Rightarrow> (Qos2_tx t', acts))"

definition map_outcome :: "('a \<Rightarrow> 'b) \<Rightarrow> 'a outcome result \<Rightarrow> 'b outcome result" where
  "map_outcome f r = rbind r (\<lambda>(t', acts, released). Inr (f t', acts, released))"

fun tx_response_received :: "publish_ack \<Rightarrow> tx_publication \<Rightarrow> tx_publication outcome result" where
  "tx_response_received ack (Qos1_tx t) = map_outcome Qos1_tx (q1_response_received ack t)"
| "tx_response_received ack (Qos2_tx t) = map_outcome Qos2_tx (q2_response_received ack t)"

fun tx_ack_timeout_expired :: "nat \<Rightarrow> tx_publication \<Rightarrow> tx_publication outcome result" where
  "tx_ack_timeout_expired max_retries (Qos1_tx t) =
     map_outcome Qos1_tx (q1_ack_timeout_expired max_retries t)"
| "tx_ack_timeout_expired max_retries (Qos2_tx t) =
     map_outcome Qos2_tx (q2_ack_timeout_expired max_retries t)"

section \<open>The store\<close>

record tx_in_flight =
  tx_publications :: "u16 \<rightharpoonup> tx_publication"
  tx_next_packet_identifier :: u16

definition new_tx_in_flight :: tx_in_flight where
  "new_tx_in_flight = \<lparr>tx_publications = Map.empty, tx_next_packet_identifier = 0\<rparr>"

definition next_packet_identifier :: "tx_in_flight \<Rightarrow> u16 \<times> tx_in_flight" where
  "next_packet_identifier s =
     (let nxt = (if tx_next_packet_identifier s = 0xFFFF then 0 else tx_next_packet_identifier s + 1)
      in (nxt, s\<lparr>tx_next_packet_identifier := nxt\<rparr>))"

text \<open>
  Sending with quality of service 0 writes the quality of service into the shared incoming packet;
  the other two work on a copy. The result of each is the store, the incoming packet, the effects.
\<close>

definition publish_using_qos0 ::
  "publish \<Rightarrow> tx_in_flight \<Rightarrow> (tx_in_flight \<times> publish \<times> action list) result" where
  "publish_using_qos0 incoming s =
     rbind (publish_set_qos AT_MOST_ONCE incoming) (\<lambda>incoming'.
     Inr (s, incoming', [Send (Publish incoming')]))"

definition start_publication ::
  "u16 \<Rightarrow> tx_publication \<Rightarrow> tx_in_flight \<Rightarrow> (tx_in_flight \<times> action list) result" where
  "start_publication pktid pub s =
     rbind (emplace_publication pktid pub (tx_publications s)) (\<lambda>_.
     let (pub', acts) = tx_start pub
     in Inr (s\<lparr>tx_publications := (tx_publications s)(pktid \<mapsto> pub')\<rparr>, acts))"

definition publish_using_qos1 ::
  "publish \<Rightarrow> tx_in_flight \<Rightarrow> (tx_in_flight \<times> publish \<times> action list) result" where
  "publish_using_qos1 incoming s =
     (let (pktid, s) = next_packet_identifier s
      in rbind (with_new_packet_identifier pktid incoming) (\<lambda>outgoing.
         rbind (new_qos1_tx outgoing) (\<lambda>t.
         rbind (start_publication (packet_identifier outgoing) (Qos1_tx t) s) (\<lambda>(s', acts).
         Inr (s', incoming, acts)))))"

definition publish_using_qos2 ::
  "publish \<Rightarrow> tx_in_flight \<Rightarrow> (tx_in_flight \<times> publish \<times> action list) result" where
  "publish_using_qos2 incoming s =
     (let (pktid, s) = next_packet_identifier s
      in rbind (with_new_packet_identifier pktid incoming) (\<lambda>outgoing.
         rbind (new_qos2_tx outgoing) (\<lambda>t.
         rbind (start_publication (packet_identifier outgoing) (Qos2_tx t) s) (\<lambda>(s', acts).
         Inr (s', incoming, acts)))))"

definition tx_publish ::
  "bool \<Rightarrow> publish \<Rightarrow> QoS \<Rightarrow> tx_in_flight \<Rightarrow> (tx_in_flight \<times> publish \<times> action list) result" where
  "tx_publish alive incoming max_qos s =
     (if \<not> alive then Inr (s, incoming, [])
      else if max_qos = AT_MOST_ONCE then publish_using_qos0 incoming s
      else if max_qos = AT_LEAST_ONCE then publish_using_qos1 incoming s
      else if max_qos = EXACTLY_ONCE then publish_using_qos2 incoming s
      else Inr (s, incoming, []))"

definition tx_ack_received ::
  "bool \<Rightarrow> publish_ack \<Rightarrow> tx_in_flight \<Rightarrow> (tx_in_flight \<times> action list) result" where
  "tx_ack_received alive ack s =
     rbind (cpp_assert (header_type ack = PUBACK \<or> header_type ack = PUBREC \<or>
                        header_type ack = PUBCOMP)) (\<lambda>_.
     if \<not> alive then Inr (s, [])
     else case tx_publications s (ack_packet_identifier ack) of
            Some pub \<Rightarrow>
              rbind (on_publication tx_packet_identifier (tx_response_received ack) (ack_packet_identifier ack) pub
                       (tx_publications s)) (\<lambda>(pubs', acts).
              Inr (s\<lparr>tx_publications := pubs'\<rparr>, acts))
          | None \<Rightarrow> Inr (s, [Stop]))"

text \<open>
  The timer of the publication with an identifier expires. Its callback holds a \<^verbatim>\<open>weak_ptr\<close>: once the
  publication is released it does nothing.
\<close>

definition tx_timeout :: "nat \<Rightarrow> u16 \<Rightarrow> tx_in_flight \<Rightarrow> (tx_in_flight \<times> action list) result" where
  "tx_timeout max_retries pktid s =
     (case tx_publications s pktid of
        None \<Rightarrow> Inr (s, [])
      | Some pub \<Rightarrow>
          rbind (on_publication tx_packet_identifier (tx_ack_timeout_expired max_retries) pktid pub (tx_publications s))
            (\<lambda>(pubs', acts). Inr (s\<lparr>tx_publications := pubs'\<rparr>, acts)))"

section \<open>The state machines keep the contract\<close>

datatype tx_event = Ack publish_ack | Timeout

fun tx_handle :: "nat \<Rightarrow> tx_event \<Rightarrow> tx_publication \<Rightarrow> tx_publication outcome result" where
  "tx_handle max_retries (Ack ack) = tx_response_received ack"
| "tx_handle max_retries Timeout = tx_ack_timeout_expired max_retries"

text \<open>
  A publication in the store waits for an answer, and its packet can be encoded and has the quality
  of service of its class.
\<close>

fun tx_waiting :: "tx_publication \<Rightarrow> bool" where
  "tx_waiting (Qos1_tx t) \<longleftrightarrow> q1_state t = Q1_waiting_for_ack \<and> forwardable (q1_publish t) \<and>
     publish_qos (q1_publish t) = AT_LEAST_ONCE"
| "tx_waiting (Qos2_tx t) \<longleftrightarrow> (q2_state t = Q2_waiting_for_rec \<or> q2_state t = Q2_waiting_for_comp) \<and>
     forwardable (q2_publish t) \<and> publish_qos (q2_publish t) = EXACTLY_ONCE"

lemmas tx_event_defs =
  map_outcome_def q1_response_received_def q1_ack_timeout_expired_def q1_start_ack_timeout_def
  q2_response_received_def q2_ack_timeout_expired_def q2_start_ack_timeout_def Let_def

interpretation tx: in_flight_protocol tx_packet_identifier tx_waiting "tx_handle max_retries"
  for max_retries
proof unfold_locales
  fix ev p p' acts released
  assume "tx_handle max_retries ev p = Inr (p', acts, released)" "tx_waiting p"
  then show "tx_packet_identifier p' = tx_packet_identifier p"
    by (cases ev; cases p) (auto simp: tx_event_defs result_simps split: if_splits)
next
  fix ev p p' acts
  assume "tx_handle max_retries ev p = Inr (p', acts, False)" "tx_waiting p"
  then show "tx_waiting p'"
    by (cases ev; cases p) (auto simp: tx_event_defs result_simps split: if_splits)
qed

text \<open>The store's two event operations in terms of the generic one.\<close>

lemma tx_timeout_eq:
  "tx_timeout max_retries pktid s =
     (case tx_publications s pktid of
        None \<Rightarrow> Inr (s, [])
      | Some pub \<Rightarrow>
          rbind (on_publication tx_packet_identifier (tx_handle max_retries Timeout) pktid pub
                   (tx_publications s))
            (\<lambda>(pubs', acts). Inr (s\<lparr>tx_publications := pubs'\<rparr>, acts)))"
  by (simp add: tx_timeout_def split: option.splits)

lemma tx_ack_received_eq:
  "tx_ack_received alive ack s =
     rbind (cpp_assert (header_type ack = PUBACK \<or> header_type ack = PUBREC \<or>
                        header_type ack = PUBCOMP)) (\<lambda>_.
     if \<not> alive then Inr (s, [])
     else case tx_publications s (ack_packet_identifier ack) of
            Some pub \<Rightarrow>
              rbind (on_publication tx_packet_identifier (tx_handle 0 (Ack ack))
                       (ack_packet_identifier ack) pub (tx_publications s)) (\<lambda>(pubs', acts).
              Inr (s\<lparr>tx_publications := pubs'\<rparr>, acts))
          | None \<Rightarrow> Inr (s, [Stop]))"
  by (simp add: tx_ack_received_def split: option.splits)

section \<open>Invariant of the store\<close>

definition tx_ok :: "tx_in_flight \<Rightarrow> bool" where
  "tx_ok s \<longleftrightarrow> tx.store_ok (tx_publications s)"

lemma tx_ok_new: "tx_ok new_tx_in_flight"
  by (simp add: tx_ok_def new_tx_in_flight_def tx.store_ok_empty)

lemma tx_ok_timeout:
  assumes "tx_timeout max_retries pktid s = Inr (s', acts)" "tx_ok s"
  shows "tx_ok s'"
  using assms tx.store_ok_event [of max_retries Timeout pktid]
  by (auto simp: tx_timeout_eq tx_ok_def result_simps simp del: tx_handle.simps split: option.splits)

lemma tx_ok_ack_received:
  assumes "tx_ack_received alive ack s = Inr (s', acts)" "tx_ok s"
  shows "tx_ok s'"
  using assms tx.store_ok_event [of 0 "Ack ack" "ack_packet_identifier ack"]
  by (auto simp: tx_ack_received_eq tx_ok_def result_simps simp del: tx_handle.simps
      split: option.splits if_splits)

text \<open>What starting a publication yields.\<close>

lemma next_packet_identifier_eq:
  "next_packet_identifier s =
     (tx_next_packet_identifier s + 1,
      s\<lparr>tx_next_packet_identifier := tx_next_packet_identifier s + 1\<rparr>)"
  by (auto simp: next_packet_identifier_def Let_def)

lemma new_identifier_forwardable:
  assumes "forwardable p"
  obtains p' where "with_new_packet_identifier i p = Inr p'" "forwardable p'" "packet_identifier p' = i"
proof -
  obtain p' where p': "with_new_packet_identifier i p = Inr p'"
    using with_new_packet_identifier_ok forwardable_header [OF assms] by blast
  show thesis
    by (rule that [OF p']) (use assms p' in \<open>simp_all add: forwardable_new_identifier publish_wf_new_identifier\<close>)
qed

definition outgoing :: "QoS \<Rightarrow> u16 \<Rightarrow> publish \<Rightarrow> publish \<Rightarrow> bool" where
  "outgoing q i p p' \<longleftrightarrow> forwardable p' \<and> publish_qos p' = q \<and> packet_identifier p' = i \<and>
     topic p' = topic p \<and> application_message p' = application_message p \<and>
     publish_retain p' = publish_retain p \<and> publish_dup p' = publish_dup p"

lemma outgoing_exists:
  assumes "forwardable p" "q \<noteq> QOS_RESERVED"
  obtains o1 o2 where "with_new_packet_identifier i p = Inr o1" "packet_identifier o1 = i"
    "publish_set_qos q o1 = Inr o2" "outgoing q i p o2"
proof -
  obtain o1 where o1: "with_new_packet_identifier i p = Inr o1" "forwardable o1" "packet_identifier o1 = i"
    using new_identifier_forwardable [OF assms(1)] .
  obtain o2 where o2: "publish_set_qos q o1 = Inr o2" "forwardable o2" "publish_qos o2 = q"
    using set_qos_forwardable [OF o1(2) assms(2)] .
  have "outgoing q i p o2"
    using o1 o2 by (simp add: outgoing_def publish_set_qos_fields [OF o2(1)] publish_wf_new_identifier [OF o1(1)])
  with o1 o2 show thesis
    using that by blast
qed

lemma publish_using_qos1_cases:
  assumes "forwardable p"
  obtains p' where "outgoing AT_LEAST_ONCE (tx_next_packet_identifier s + 1) p p'"
    "publish_using_qos1 p s =
      (if tx_publications s (tx_next_packet_identifier s + 1) = None
       then Inr (\<lparr>tx_publications = (tx_publications s)(tx_next_packet_identifier s + 1 \<mapsto>
                    Qos1_tx \<lparr>q1_publish = p', q1_retry_count = 0, q1_state = Q1_waiting_for_ack\<rparr>),
                  tx_next_packet_identifier = tx_next_packet_identifier s + 1\<rparr>, p,
                 [Send (Publish p'), Start_timer (tx_next_packet_identifier s + 1)])
       else Inl Assertion_failed)"
proof -
  obtain o1 o2 where o: "with_new_packet_identifier (tx_next_packet_identifier s + 1) p = Inr o1"
      "packet_identifier o1 = tx_next_packet_identifier s + 1" "publish_set_qos AT_LEAST_ONCE o1 = Inr o2"
      "outgoing AT_LEAST_ONCE (tx_next_packet_identifier s + 1) p o2"
    using outgoing_exists [OF assms, of AT_LEAST_ONCE] by auto
  show thesis
    using o by (intro that [of o2])
      (auto simp: publish_using_qos1_def next_packet_identifier_eq new_qos1_tx_def start_publication_def
        emplace_publication_def q1_start_def q1_start_ack_timeout_def outgoing_def)
qed

lemma publish_using_qos2_cases:
  assumes "forwardable p"
  obtains p' where "outgoing EXACTLY_ONCE (tx_next_packet_identifier s + 1) p p'"
    "publish_using_qos2 p s =
      (if tx_publications s (tx_next_packet_identifier s + 1) = None
       then Inr (\<lparr>tx_publications = (tx_publications s)(tx_next_packet_identifier s + 1 \<mapsto>
                    Qos2_tx \<lparr>q2_publish = p', q2_retry_count = 0, q2_state = Q2_waiting_for_rec\<rparr>),
                  tx_next_packet_identifier = tx_next_packet_identifier s + 1\<rparr>, p,
                 [Send (Publish p'), Start_timer (tx_next_packet_identifier s + 1)])
       else Inl Assertion_failed)"
proof -
  obtain o1 o2 where o: "with_new_packet_identifier (tx_next_packet_identifier s + 1) p = Inr o1"
      "packet_identifier o1 = tx_next_packet_identifier s + 1" "publish_set_qos EXACTLY_ONCE o1 = Inr o2"
      "outgoing EXACTLY_ONCE (tx_next_packet_identifier s + 1) p o2"
    using outgoing_exists [OF assms, of EXACTLY_ONCE] by auto
  show thesis
    using o by (intro that [of o2])
      (auto simp: publish_using_qos2_def next_packet_identifier_eq new_qos2_tx_def start_publication_def
        emplace_publication_def q2_start_def q2_start_ack_timeout_def outgoing_def)
qed

lemma publish_using_qos0_ok:
  assumes "forwardable p"
  obtains p' where "publish_using_qos0 p s = Inr (s, p', [Send (Publish p')])"
    "forwardable p'" "publish_qos p' = AT_MOST_ONCE" "topic p' = topic p"
    "application_message p' = application_message p" "publish_retain p' = publish_retain p"
    "publish_dup p' = publish_dup p"
proof -
  obtain p' where p': "publish_set_qos AT_MOST_ONCE p = Inr p'" "forwardable p'" "publish_qos p' = AT_MOST_ONCE"
    using set_qos_forwardable [OF assms, of AT_MOST_ONCE] by auto
  then show thesis
    using that by (simp add: publish_using_qos0_def publish_set_qos_fields)
qed

text \<open>
  A publication is sent, or nothing happens, or the assertion on the identifier fails; the incoming
  packet stays forwardable and keeps all it has but its quality of service.
\<close>

definition same_publication :: "publish \<Rightarrow> publish \<Rightarrow> bool" where
  "same_publication p p' \<longleftrightarrow> topic p' = topic p \<and> application_message p' = application_message p \<and>
     publish_retain p' = publish_retain p \<and> publish_dup p' = publish_dup p"

lemma same_publication_refl [simp]: "same_publication p p"
  by (simp add: same_publication_def)

lemma same_publication_trans:
  "same_publication p q \<Longrightarrow> same_publication q r \<Longrightarrow> same_publication p r"
  by (simp add: same_publication_def)

lemma tx_publish_ok:
  assumes "tx_publish alive p q s = Inr (s', p', acts)" "tx_ok s" "forwardable p"
  shows "tx_ok s' \<and> forwardable p' \<and> same_publication p p' \<and> (\<forall>x \<in> set (sent acts). sendable x)"
proof -
  consider "\<not> alive \<or> q = QOS_RESERVED" | "alive" "q = AT_MOST_ONCE" | "alive" "q = AT_LEAST_ONCE"
    | "alive" "q = EXACTLY_ONCE"
    by (cases q) auto
  then show ?thesis
  proof cases
    case 1
    then show ?thesis
      using assms by (auto simp: tx_publish_def split: if_splits)
  next
    case 2
    obtain p'' where "publish_using_qos0 p s = Inr (s, p'', [Send (Publish p'')])" "forwardable p''"
      "topic p'' = topic p" "application_message p'' = application_message p"
      "publish_retain p'' = publish_retain p" "publish_dup p'' = publish_dup p"
      using publish_using_qos0_ok [OF assms(3)] .
    then show ?thesis
      using assms 2 by (auto simp: tx_publish_def same_publication_def dest: forwardable_sendable)
  next
    case 3
    show ?thesis
      by (rule publish_using_qos1_cases [OF assms(3), of s])
        (use assms 3 in \<open>auto simp: tx_publish_def tx_ok_def outgoing_def tx.store_ok_update
          dest: forwardable_sendable split: if_splits\<close>)
  next
    case 4
    show ?thesis
      by (rule publish_using_qos2_cases [OF assms(3), of s])
        (use assms 4 in \<open>auto simp: tx_publish_def tx_ok_def outgoing_def tx.store_ok_update
          dest: forwardable_sendable split: if_splits\<close>)
  qed
qed

lemma tx_publish_fails_iff:
  assumes "forwardable p"
  shows "tx_publish alive p q s = Inl e \<longleftrightarrow>
    alive \<and> (q = AT_LEAST_ONCE \<or> q = EXACTLY_ONCE) \<and>
    tx_publications s (tx_next_packet_identifier s + 1) \<noteq> None \<and> e = Assertion_failed"
proof -
  obtain p0 where "publish_using_qos0 p s = Inr (s, p0, [Send (Publish p0)])"
    using publish_using_qos0_ok [OF assms] .
  moreover obtain o1 s1 p1 a1 where "publish_using_qos1 p s =
      (if tx_publications s (tx_next_packet_identifier s + 1) = None then Inr (s1, p1, a1)
       else Inl Assertion_failed)"
    using publish_using_qos1_cases [OF assms] by metis
  moreover obtain o2 s2 p2 a2 where "publish_using_qos2 p s =
      (if tx_publications s (tx_next_packet_identifier s + 1) = None then Inr (s2, p2, a2)
       else Inl Assertion_failed)"
    using publish_using_qos2_cases [OF assms] by metis
  ultimately show ?thesis
    by (cases q) (auto simp: tx_publish_def split: if_splits)
qed

section \<open>Which events a publication cannot handle\<close>

fun tx_rejects :: "tx_event \<Rightarrow> tx_publication \<Rightarrow> bool" where
  "tx_rejects Timeout p = False"
| "tx_rejects (Ack ack) (Qos1_tx t) = (header_type ack \<noteq> PUBACK)"
| "tx_rejects (Ack ack) (Qos2_tx t) =
     (q2_state t = Q2_waiting_for_comp \<and> header_type ack \<noteq> PUBREC \<and> header_type ack \<noteq> PUBCOMP)"

lemma tx_handle_fails_iff:
  assumes "tx_waiting p" "case ev of Ack ack \<Rightarrow> ack_packet_identifier ack = tx_packet_identifier p | Timeout \<Rightarrow> True"
  shows "tx_handle max_retries ev p = Inl e \<longleftrightarrow> tx_rejects ev p \<and> e = Assertion_failed"
  using assms by (cases ev; cases p) (auto simp: tx_event_defs result_simps split: if_splits)

lemma tx_handle_sends:
  assumes "tx_handle max_retries ev p = Inr (p', acts, released)" "tx_waiting p"
  shows "\<forall>x \<in> set (sent acts). sendable x"
  using assms by (cases ev; cases p)
    (auto simp: tx_event_defs result_simps q2_pubrel_def intro!: forwardable_sendable
      simp del: sendable.simps split: if_splits)

lemma tx_event_sends:
  assumes "on_publication tx_packet_identifier (tx_handle max_retries ev) k p pubs = Inr (pubs', acts)"
    "tx.store_ok pubs" "pubs k = Some p"
  shows "\<forall>x \<in> set (sent acts). sendable x"
  using assms tx.store_okD [OF assms(2,3)] tx_handle_sends [of max_retries ev p]
  unfolding tx.event_cases [OF assms(2,3)] by (auto simp: result_simps)

lemma tx_timeout_sends:
  assumes "tx_timeout max_retries pktid s = Inr (s', acts)" "tx_ok s"
  shows "\<forall>x \<in> set (sent acts). sendable x"
  using assms tx_event_sends [of max_retries Timeout pktid]
  by (auto simp: tx_timeout_eq tx_ok_def result_simps simp del: tx_handle.simps split: option.splits)

lemma tx_ack_received_sends:
  assumes "tx_ack_received alive ack s = Inr (s', acts)" "tx_ok s"
  shows "\<forall>x \<in> set (sent acts). sendable x"
  using assms tx_event_sends [of 0 "Ack ack" "ack_packet_identifier ack"]
  by (auto simp: tx_ack_received_eq tx_ok_def result_simps simp del: tx_handle.simps
      split: option.splits if_splits)

lemma tx_timeout_never_fails: "tx_ok s \<Longrightarrow> \<exists>r. tx_timeout max_retries pktid s = Inr r"
proof (cases "tx_publications s pktid")
  case (Some p)
  assume "tx_ok s"
  then have ok: "tx.store_ok (tx_publications s)" "tx_waiting p"
    using tx.store_okD Some by (auto simp: tx_ok_def)
  then have "tx_handle max_retries Timeout p \<noteq> Inl e" for e
    using tx_handle_fails_iff [of p Timeout max_retries e] by simp
  then show ?thesis
    using Some unfolding tx_timeout_eq
    by (cases "tx_handle max_retries Timeout p")
      (auto simp: tx.event_cases [OF ok(1) Some] simp del: tx_handle.simps)
qed (simp add: tx_timeout_def)

lemma tx_ack_received_fails_iff:
  assumes "tx_ok s" "header_type ack = PUBACK \<or> header_type ack = PUBREC \<or> header_type ack = PUBCOMP"
  shows "tx_ack_received alive ack s = Inl e \<longleftrightarrow>
    alive \<and> e = Assertion_failed \<and>
    (\<exists>p. tx_publications s (ack_packet_identifier ack) = Some p \<and> tx_rejects (Ack ack) p)"
proof (cases "tx_publications s (ack_packet_identifier ack)")
  case None
  then show ?thesis
    using assms(2) by (auto simp: tx_ack_received_def)
next
  case (Some p)
  have ok: "tx.store_ok (tx_publications s)" and p: "tx_packet_identifier p = ack_packet_identifier ack" "tx_waiting p"
    using assms(1) tx.store_okD Some by (auto simp: tx_ok_def)
  have "tx_handle 0 (Ack ack) p = Inl e \<longleftrightarrow> tx_rejects (Ack ack) p \<and> e = Assertion_failed"
    using p by (intro tx_handle_fails_iff) simp_all
  then show ?thesis
    using assms(2) Some unfolding tx_ack_received_eq
    by (auto simp: tx.event_cases [OF ok Some] result_simps simp del: tx_handle.simps tx_rejects.simps)
qed

section \<open>A client that never answers\<close>

definition set_tx :: "u16 \<Rightarrow> tx_publication \<Rightarrow> tx_in_flight \<Rightarrow> tx_in_flight" where
  "set_tx k p s = s\<lparr>tx_publications := (tx_publications s)(k \<mapsto> p)\<rparr>"

definition unset_tx :: "u16 \<Rightarrow> tx_in_flight \<Rightarrow> tx_in_flight" where
  "unset_tx k s = s\<lparr>tx_publications := (tx_publications s)(k := None)\<rparr>"

lemma set_tx_simps [simp]:
  "tx_publications (set_tx k p s) j = (if j = k then Some p else tx_publications s j)"
  "tx_publications (unset_tx k s) j = (if j = k then None else tx_publications s j)"
  "tx_next_packet_identifier (set_tx k p s) = tx_next_packet_identifier s"
  "tx_next_packet_identifier (unset_tx k s) = tx_next_packet_identifier s"
  "set_tx k q (set_tx k p s) = set_tx k q s"
  "unset_tx k (set_tx k p s) = unset_tx k s"
  by (simp_all add: set_tx_def unset_tx_def)

lemma set_tx_idem: "tx_publications s k = Some p \<Longrightarrow> set_tx k p s = s"
  by (simp add: set_tx_def fun_upd_idem)

text \<open>The timer of one publication expires \<open>n\<close> times in a row.\<close>

primrec tx_timeouts :: "nat \<Rightarrow> u16 \<Rightarrow> nat \<Rightarrow> tx_in_flight \<Rightarrow> (tx_in_flight \<times> action list) result" where
  "tx_timeouts max_retries pktid 0 s = Inr (s, [])"
| "tx_timeouts max_retries pktid (Suc n) s =
     rbind (tx_timeouts max_retries pktid n s) (\<lambda>(s1, acts1).
     rbind (tx_timeout max_retries pktid s1) (\<lambda>(s2, acts2). Inr (s2, acts1 @ acts2)))"

lemma retry_count_Suc:
  "n \<le> 65535 \<Longrightarrow> unat (word_of_nat n + 1 :: u16) = (if n = 65535 then 0 else Suc n)"
proof (cases "n = 65535")
  case False
  assume "n \<le> 65535"
  then have "Suc n < 2 ^ LENGTH(16)"
    using False by simp
  then have "unat (word_of_nat (Suc n) :: u16) = Suc n"
    by (simp only: unat_of_nat mod_less)
  then show ?thesis
    using False by (simp add: add.commute)
qed simp

definition q1_retried :: "publish \<Rightarrow> nat \<Rightarrow> tx_publication" where
  "q1_retried p n =
     Qos1_tx \<lparr>q1_publish = p, q1_retry_count = word_of_nat n, q1_state = Q1_waiting_for_ack\<rparr>"

lemma tx_timeout_q1:
  assumes "tx_publications s k = Some (q1_retried p n)" "packet_identifier p = k" "n < 65535"
  shows "tx_timeout max_retries k s =
    (if Suc n \<le> max_retries
     then Inr (set_tx k (q1_retried p (Suc n)) s,
               [Send (Publish p), Start_timer k])
     else Inr (unset_tx k s, []))"
  using assms retry_count_Suc [of n]
  by (simp add: tx_timeout_def q1_retried_def on_publication_def release_publication_def tx_event_defs set_tx_def
      unset_tx_def
      add.commute)

lemma tx_timeouts_q1:
  assumes "tx_publications s k = Some (q1_retried p 0)" "packet_identifier p = k"
    and "max_retries < 65535" "n \<le> max_retries"
  shows "\<exists>acts. tx_timeouts max_retries k n s =
      Inr (set_tx k (q1_retried p n) s, acts) \<and>
    sent acts = replicate n (Publish p)"
  using assms(4)
proof (induction n)
  case 0
  then show ?case
    using assms(1) by (simp add: set_tx_idem)
next
  case (Suc n)
  let ?s = "set_tx k (q1_retried p n) s"
  obtain acts where acts: "tx_timeouts max_retries k n s = Inr (?s, acts)" "sent acts = replicate n (Publish p)"
    using Suc by auto
  have "tx_timeout max_retries k ?s =
      Inr (set_tx k (q1_retried p (Suc n)) s,
           [Send (Publish p), Start_timer k])"
    using Suc.prems assms(2,3) tx_timeout_q1 [of ?s k p n max_retries] by simp
  then show ?case
    using acts by (simp add: replicate_append_same)
qed

lemma tx_timeouts_q1_exhausted:
  assumes "tx_publications s k = Some (q1_retried p 0)" "packet_identifier p = k"
    and "max_retries < 65535"
  shows "\<exists>acts. tx_timeouts max_retries k (Suc max_retries) s =
      Inr (unset_tx k s, acts) \<and>
    sent acts = replicate max_retries (Publish p)"
proof -
  let ?s = "set_tx k (q1_retried p max_retries) s"
  obtain acts where acts: "tx_timeouts max_retries k max_retries s = Inr (?s, acts)"
      "sent acts = replicate max_retries (Publish p)"
    using tx_timeouts_q1 [OF assms order.refl] by auto
  moreover have "tx_timeout max_retries k ?s =
      Inr (unset_tx k s, [])"
    using assms(2,3) tx_timeout_q1 [of ?s k p max_retries max_retries] by simp
  ultimately show ?thesis
    by simp
qed

definition q2_retried :: "publish \<Rightarrow> nat \<Rightarrow> tx_publication" where
  "q2_retried p n =
     Qos2_tx \<lparr>q2_publish = (if n = 0 then p else publish_set_dup True p),
              q2_retry_count = word_of_nat n,
              q2_state = (if n = 0 then Q2_waiting_for_rec else Q2_waiting_for_comp)\<rparr>"

definition q2_resent :: "publish \<Rightarrow> nat \<Rightarrow> mqtt_packet list" where
  "q2_resent p n =
     (if n = 0 then []
      else Publish (publish_set_dup True p) #
           replicate (n - 1) (Pubrel (new_pubrel (packet_identifier p))))"

lemma tx_timeout_q2:
  assumes "tx_publications s k = Some (q2_retried p n)" "packet_identifier p = k" "n < 65535"
  shows "tx_timeout max_retries k s =
    (if Suc n \<le> max_retries
     then Inr (set_tx k (q2_retried p (Suc n)) s,
               [Send (if n = 0 then Publish (publish_set_dup True p) else Pubrel (new_pubrel k)),
                Start_timer k])
     else Inr (unset_tx k s, []))"
  using assms retry_count_Suc [of n]
  by (simp add: tx_timeout_def q2_retried_def on_publication_def release_publication_def tx_event_defs set_tx_def
      unset_tx_def
      q2_pubrel_def add.commute)

lemma tx_timeouts_q2:
  assumes "tx_publications s k = Some (q2_retried p 0)" "packet_identifier p = k"
    and "max_retries < 65535" "n \<le> max_retries"
  shows "\<exists>acts. tx_timeouts max_retries k n s =
      Inr (set_tx k (q2_retried p n) s, acts) \<and>
    sent acts = q2_resent p n"
  using assms(4)
proof (induction n)
  case 0
  then show ?case
    using assms(1) by (simp add: set_tx_idem q2_resent_def)
next
  case (Suc n)
  let ?s = "set_tx k (q2_retried p n) s"
  obtain acts where acts: "tx_timeouts max_retries k n s = Inr (?s, acts)" "sent acts = q2_resent p n"
    using Suc by auto
  have step: "tx_timeout max_retries k ?s =
      Inr (set_tx k (q2_retried p (Suc n)) s,
           [Send (if n = 0 then Publish (publish_set_dup True p) else Pubrel (new_pubrel k)),
            Start_timer k])"
    using Suc.prems assms(2,3) tx_timeout_q2 [of ?s k p n max_retries] by simp
  have "q2_resent p (Suc n) = q2_resent p n @
      [if n = 0 then Publish (publish_set_dup True p) else Pubrel (new_pubrel k)]"
    using assms(2) by (cases n) (simp_all add: q2_resent_def replicate_append_same)
  then show ?case
    using acts step by simp
qed

lemma tx_timeouts_q2_exhausted:
  assumes "tx_publications s k = Some (q2_retried p 0)" "packet_identifier p = k"
    and "max_retries < 65535"
  shows "\<exists>acts. tx_timeouts max_retries k (Suc max_retries) s =
      Inr (unset_tx k s, acts) \<and>
    sent acts = q2_resent p max_retries"
proof -
  let ?s = "set_tx k (q2_retried p max_retries) s"
  obtain acts where acts: "tx_timeouts max_retries k max_retries s = Inr (?s, acts)"
      "sent acts = q2_resent p max_retries"
    using tx_timeouts_q2 [OF assms order.refl] by auto
  moreover have "tx_timeout max_retries k ?s =
      Inr (unset_tx k s, [])"
    using assms(2,3) tx_timeout_q2 [of ?s k p max_retries max_retries] by simp
  ultimately show ?thesis
    by simp
qed

text \<open>
  With a limit of 65535 or more the 16 bit counter wraps around before it can exceed the limit.
\<close>

lemma tx_timeout_keeps:
  assumes "tx_publications s k = Some p" "tx_waiting p" "65535 \<le> max_retries"
  shows "\<exists>p' acts. tx_timeout max_retries k s =
      Inr (set_tx k (p') s, acts) \<and> tx_waiting p' \<and> sent acts \<noteq> []"
proof -
  have le: "unat (c :: u16) \<le> max_retries" for c
    using unat_u16_less [of c] assms(3) by linarith
  show ?thesis
    using assms(1,2) le by (cases p) (auto simp: tx_timeout_def on_publication_def tx_event_defs set_tx_def
      unset_tx_def)
qed

lemma tx_timeouts_keep:
  assumes "tx_publications s k = Some p" "tx_waiting p" "65535 \<le> max_retries"
  shows "\<exists>p' acts. tx_timeouts max_retries k n s =
      Inr (set_tx k (p') s, acts) \<and> tx_waiting p' \<and>
      n \<le> length (sent acts)"
proof (induction n)
  case 0
  then show ?case
    using assms(1,2) by (intro exI [of _ p]) (simp add: set_tx_idem)
next
  case (Suc n)
  then obtain p1 acts1 where one: "tx_timeouts max_retries k n s =
      Inr (set_tx k (p1) s, acts1)" "tx_waiting p1" "n \<le> length (sent acts1)"
    by blast
  let ?s = "set_tx k (p1) s"
  obtain p2 acts2 where two: "tx_timeout max_retries k ?s =
      Inr (set_tx k (p2) ?s, acts2)" "tx_waiting p2" "sent acts2 \<noteq> []"
    using tx_timeout_keeps [of ?s k p1 max_retries] one assms(3) by auto
  have "Suc n \<le> length (sent (acts1 @ acts2))"
    using one(3) two(3) by (cases "sent acts2") simp_all
  then show ?case
    using one two by (intro exI [of _ p2] exI [of _ "acts1 @ acts2"]) simp
qed

section \<open>The store as a state machine\<close>

inductive tx_step :: "nat \<Rightarrow> tx_in_flight \<Rightarrow> action list \<Rightarrow> tx_in_flight \<Rightarrow> bool"
  for max_retries :: nat where
  tx_publishes: "\<lbrakk>forwardable p; tx_publish alive p q s = Inr (s', p', acts)\<rbrakk>
     \<Longrightarrow> tx_step max_retries s acts s'"
| tx_acked: "tx_ack_received alive ack s = Inr (s', acts) \<Longrightarrow> tx_step max_retries s acts s'"
| tx_times_out: "tx_timeout max_retries k s = Inr (s', acts) \<Longrightarrow> tx_step max_retries s acts s'"

inductive_cases tx_stepE: "tx_step max_retries s acts s'"

inductive tx_run :: "nat \<Rightarrow> action list \<Rightarrow> tx_in_flight \<Rightarrow> bool" for max_retries :: nat where
  tx_run_new: "tx_run max_retries [] new_tx_in_flight"
| tx_run_step: "\<lbrakk>tx_run max_retries acts s; tx_step max_retries s acts' s'\<rbrakk>
     \<Longrightarrow> tx_run max_retries (acts @ acts') s'"

lemma tx_step_ok:
  assumes "tx_step max_retries s acts s'" "tx_ok s"
  shows "tx_ok s' \<and> (\<forall>x \<in> set (sent acts). sendable x)"
  using assms(1)
proof (rule tx_stepE)
  fix p alive q p'
  assume "forwardable p" "tx_publish alive p q s = Inr (s', p', acts)"
  then show ?thesis
    using tx_publish_ok assms(2) by blast
next
  fix alive ack
  assume "tx_ack_received alive ack s = Inr (s', acts)"
  then show ?thesis
    using tx_ok_ack_received tx_ack_received_sends assms(2) by blast
next
  fix k
  assume "tx_timeout max_retries k s = Inr (s', acts)"
  then show ?thesis
    using tx_ok_timeout tx_timeout_sends assms(2) by blast
qed

lemma tx_run_ok: "tx_run max_retries acts s \<Longrightarrow> tx_ok s \<and> (\<forall>x \<in> set (sent acts). sendable x)"
  by (induction rule: tx_run.induct) (auto simp: tx_ok_new dest: tx_step_ok)

lemma tx_publish_sample_qos1:
  "\<exists>s1 p' acts t. tx_publish True sample_publish AT_LEAST_ONCE new_tx_in_flight = Inr (s1, p', acts) \<and>
    tx_publications s1 1 = Some (Qos1_tx t)"
  by (rule publish_using_qos1_cases [OF forwardable_sample, of new_tx_in_flight])
    (simp add: tx_publish_def new_tx_in_flight_def)

lemma tx_publish_sample_qos2:
  "\<exists>s1 p' acts t. tx_publish True sample_publish EXACTLY_ONCE new_tx_in_flight = Inr (s1, p', acts) \<and>
    tx_publications s1 1 = Some (Qos2_tx t) \<and> q2_state t = Q2_waiting_for_rec"
  by (rule publish_using_qos2_cases [OF forwardable_sample, of new_tx_in_flight])
    (simp add: tx_publish_def new_tx_in_flight_def)

lemma tx_publish_sample:
  "\<exists>s1 p' acts. tx_publish True sample_publish AT_LEAST_ONCE new_tx_in_flight = Inr (s1, p', acts) \<and>
    tx_publications s1 1 \<noteq> None"
  by (rule publish_using_qos1_cases [OF forwardable_sample, of new_tx_in_flight])
    (simp add: tx_publish_def new_tx_in_flight_def)

section \<open>Properties\<close>

text \<open>
  C9. In every state the store of outgoing publications can reach, whatever order of publications,
  acknowledgements and timeouts led there: each publication is filed under its own identifier, waits
  for an acknowledgement and carries a packet of its class; and every packet sent on the way can be
  encoded without an exception or a failed assertion.
\<close>

theorem outgoing_store_invariant:
  assumes "tx_run max_retries acts s"
  shows "(\<forall>k p. tx_publications s k = Some p \<longrightarrow> tx_packet_identifier p = k \<and> tx_waiting p) \<and>
    (\<forall>x \<in> set (sent acts). \<exists>bytes. encode_packet x (unat (packet_total_length x)) = Inr bytes)"
  using tx_run_ok [OF assms] encode_packet_exact
  by (auto simp: tx_ok_def dest: tx.store_okD) blast

theorem outgoing_store_invariant_witness:
  "\<exists>s acts. sent acts \<noteq> [] \<and> tx_run 3 acts s \<and>
     (\<forall>x \<in> set (sent acts). \<exists>bytes. encode_packet x (unat (packet_total_length x)) = Inr bytes)"
proof -
  obtain p' where "publish_using_qos0 sample_publish new_tx_in_flight
      = Inr (new_tx_in_flight, p', [Send (Publish p')])"
    using publish_using_qos0_ok [OF forwardable_sample] by blast
  then have "tx_publish True sample_publish AT_MOST_ONCE new_tx_in_flight
      = Inr (new_tx_in_flight, p', [Send (Publish p')])"
    by (simp add: tx_publish_def)
  then have "tx_run 3 ([] @ [Send (Publish p')]) new_tx_in_flight"
    by (intro tx_run_step [OF tx_run_new] tx_publishes [OF forwardable_sample])
  from this outgoing_store_invariant [OF this] show ?thesis
    by (intro exI [of _ new_tx_in_flight] exI [of _ "[Send (Publish p')]"]) simp
qed

text \<open>
  C27. A quality of service 1 publication to a client that never answers is sent exactly
  \<open>1 + max_retries\<close> times (for limits below 65535), always as the same packet, so without the DUP flag
  that MQTT requires on the repetitions unless the incoming packet had it; then its identifier is
  free again and the rest of the store is unchanged.
\<close>

theorem qos1_publication_retries_then_gives_up:
  assumes "forwardable p" "max_retries < 65535"
    and "tx_publications s (tx_next_packet_identifier s + 1) = None"
  shows "\<exists>p' s1 acts1 s2 acts2.
    tx_publish True p AT_LEAST_ONCE s = Inr (s1, p, acts1) \<and>
    tx_timeouts max_retries (tx_next_packet_identifier s + 1) (Suc max_retries) s1 = Inr (s2, acts2) \<and>
    outgoing AT_LEAST_ONCE (tx_next_packet_identifier s + 1) p p' \<and>
    sent (acts1 @ acts2) = replicate (1 + max_retries) (Publish p') \<and>
    tx_publications s2 = tx_publications s"
proof -
  let ?k = "tx_next_packet_identifier s + 1"
  obtain p' where p': "outgoing AT_LEAST_ONCE ?k p p'" and pub: "publish_using_qos1 p s =
      (if tx_publications s ?k = None
       then Inr (\<lparr>tx_publications = (tx_publications s)(?k \<mapsto>
                    Qos1_tx \<lparr>q1_publish = p', q1_retry_count = 0, q1_state = Q1_waiting_for_ack\<rparr>),
                  tx_next_packet_identifier = ?k\<rparr>, p, [Send (Publish p'), Start_timer ?k])
       else Inl Assertion_failed)"
    using publish_using_qos1_cases [OF assms(1)] .
  define s1 where "s1 = \<lparr>tx_publications = (tx_publications s)(?k \<mapsto>
                    Qos1_tx \<lparr>q1_publish = p', q1_retry_count = 0, q1_state = Q1_waiting_for_ack\<rparr>),
                  tx_next_packet_identifier = ?k\<rparr>"
  have "tx_publish True p AT_LEAST_ONCE s = Inr (s1, p, [Send (Publish p'), Start_timer ?k])"
    using pub assms(3) by (simp add: tx_publish_def s1_def)
  moreover have "tx_publications s1 ?k = Some (q1_retried p' 0)" "packet_identifier p' = ?k"
    using p' by (simp_all add: s1_def q1_retried_def outgoing_def)
  moreover have "tx_publications (unset_tx ?k s1) = tx_publications s"
    using assms(3) by (auto simp: unset_tx_def s1_def)
  ultimately show ?thesis
    using tx_timeouts_q1_exhausted [of s1 ?k p' max_retries] assms(2) p' by fastforce
qed

theorem qos1_publication_retries_then_gives_up_witness:
  "\<exists>p' s1 acts1 s2 acts2.
    tx_publish True sample_publish AT_LEAST_ONCE new_tx_in_flight = Inr (s1, sample_publish, acts1) \<and>
    tx_timeouts 3 1 4 s1 = Inr (s2, acts2) \<and> sent (acts1 @ acts2) = replicate 4 (Publish p')"
  using qos1_publication_retries_then_gives_up [OF forwardable_sample, of 3 new_tx_in_flight]
  by (force simp: new_tx_in_flight_def)

text \<open>
  C28. A quality of service 2 publication to a client that never answers: the packet is repeated once
  with the DUP flag, and every later timeout sends a PUBREL although no PUBREC was received, because
  restarting the timer moves the state on. After \<open>max_retries\<close> repetitions the identifier is free.
\<close>

theorem qos2_publication_retries_with_pubrel:
  assumes "forwardable p" "max_retries < 65535"
    and "tx_publications s (tx_next_packet_identifier s + 1) = None"
  shows "\<exists>p' s1 acts1 s2 acts2.
    tx_publish True p EXACTLY_ONCE s = Inr (s1, p, acts1) \<and>
    tx_timeouts max_retries (tx_next_packet_identifier s + 1) (Suc max_retries) s1 = Inr (s2, acts2) \<and>
    outgoing EXACTLY_ONCE (tx_next_packet_identifier s + 1) p p' \<and>
    sent (acts1 @ acts2) = Publish p' # q2_resent p' max_retries \<and>
    tx_publications s2 = tx_publications s"
proof -
  let ?k = "tx_next_packet_identifier s + 1"
  obtain p' where p': "outgoing EXACTLY_ONCE ?k p p'" and pub: "publish_using_qos2 p s =
      (if tx_publications s ?k = None
       then Inr (\<lparr>tx_publications = (tx_publications s)(?k \<mapsto>
                    Qos2_tx \<lparr>q2_publish = p', q2_retry_count = 0, q2_state = Q2_waiting_for_rec\<rparr>),
                  tx_next_packet_identifier = ?k\<rparr>, p, [Send (Publish p'), Start_timer ?k])
       else Inl Assertion_failed)"
    using publish_using_qos2_cases [OF assms(1)] .
  define s1 where "s1 = \<lparr>tx_publications = (tx_publications s)(?k \<mapsto>
                    Qos2_tx \<lparr>q2_publish = p', q2_retry_count = 0, q2_state = Q2_waiting_for_rec\<rparr>),
                  tx_next_packet_identifier = ?k\<rparr>"
  have "tx_publish True p EXACTLY_ONCE s = Inr (s1, p, [Send (Publish p'), Start_timer ?k])"
    using pub assms(3) by (simp add: tx_publish_def s1_def)
  moreover have "tx_publications s1 ?k = Some (q2_retried p' 0)" "packet_identifier p' = ?k"
    using p' by (simp_all add: s1_def q2_retried_def outgoing_def)
  moreover have "tx_publications (unset_tx ?k s1) = tx_publications s"
    using assms(3) by (auto simp: unset_tx_def s1_def)
  ultimately show ?thesis
    using tx_timeouts_q2_exhausted [of s1 ?k p' max_retries] assms(2) p' by fastforce
qed

theorem qos2_publication_retries_with_pubrel_witness:
  "\<exists>p' s1 acts1 s2 acts2.
    tx_publish True sample_publish EXACTLY_ONCE new_tx_in_flight = Inr (s1, sample_publish, acts1) \<and>
    tx_timeouts 2 1 3 s1 = Inr (s2, acts2) \<and>
    sent (acts1 @ acts2) = [Publish p', Publish (publish_set_dup True p'), Pubrel (new_pubrel (packet_identifier p'))]"
proof -
  have "tx_publications new_tx_in_flight (tx_next_packet_identifier new_tx_in_flight + 1) = None"
    "(2::nat) < 65535" "tx_next_packet_identifier new_tx_in_flight + 1 = 1" "Suc 2 = 3"
    by (simp_all add: new_tx_in_flight_def)
  note at = qos2_publication_retries_with_pubrel [OF forwardable_sample this(2,1), unfolded this(3,4)]
  obtain p' s1 acts1 s2 acts2 where
    "tx_publish True sample_publish EXACTLY_ONCE new_tx_in_flight = Inr (s1, sample_publish, acts1)"
    "tx_timeouts 2 1 3 s1 = Inr (s2, acts2)" "sent (acts1 @ acts2) = Publish p' # q2_resent p' 2"
    using at by (elim exE conjE) (rule that)
  moreover have "q2_resent p' 2 = [Publish (publish_set_dup True p'), Pubrel (new_pubrel (packet_identifier p'))]"
    by (simp add: q2_resent_def)
  ultimately show ?thesis
    by (intro exI [of _ p'] exI [of _ s1] exI [of _ acts1] exI [of _ s2] exI [of _ acts2]) simp
qed

text \<open>
  C29. If the configured number of retries is 65535 or more, the 16 bit retry counter never exceeds it:
  a publication the client does not acknowledge is repeated forever, and its identifier stays taken.
\<close>

theorem large_retry_limit_never_gives_up:
  assumes "tx_ok s" "tx_publications s k \<noteq> None" "65535 \<le> max_retries"
  shows "\<exists>s' acts. tx_timeouts max_retries k n s = Inr (s', acts) \<and>
    tx_publications s' k \<noteq> None \<and> n \<le> length (sent acts)"
proof -
  obtain p where p: "tx_publications s k = Some p" "tx_waiting p"
    using assms(1,2) tx.store_okD by (auto simp: tx_ok_def)
  show ?thesis
    using tx_timeouts_keep [OF p assms(3), of n] by fastforce
qed

theorem large_retry_limit_never_gives_up_witness:
  "\<exists>s s' acts. tx_timeouts 70000 1 100000 s = Inr (s', acts) \<and> tx_publications s' 1 \<noteq> None"
proof -
  obtain s1 p' acts where s1: "tx_publish True sample_publish AT_LEAST_ONCE new_tx_in_flight = Inr (s1, p', acts)"
    "tx_publications s1 1 \<noteq> None"
    using tx_publish_sample by blast
  then have "tx_ok s1"
    using tx_publish_ok [OF s1(1) tx_ok_new forwardable_sample] by blast
  moreover have "(65535::nat) \<le> 70000"
    by simp
  ultimately show ?thesis
    using large_retry_limit_never_gives_up [OF _ s1(2), of 70000 100000] by blast
qed

text \<open>
  C30. The quality of service 2 handshake with a client that answers: the PUBREC is answered with
  exactly one PUBREL of the same identifier, a repeated PUBREC with a repeated PUBREL, and the PUBCOMP
  ends the publication and frees its identifier, leaving all other publications alone.
\<close>

theorem qos2_handshake_completes:
  assumes "tx_ok s" "tx_publications s k = Some (Qos2_tx t)" "q2_state t = Q2_waiting_for_rec"
  shows "\<exists>s1 s2 s3.
    tx_ack_received True (new_pubrec k) s =
      Inr (s1, [Cancel_timer k, Send (Pubrel (new_pubrel k)), Start_timer k]) \<and>
    tx_ack_received True (new_pubrec k) s1 =
      Inr (s2, [Cancel_timer k, Send (Pubrel (new_pubrel k)), Start_timer k]) \<and>
    tx_ack_received True (new_pubcomp k) s2 = Inr (s3, [Cancel_timer k]) \<and>
    tx_publications s3 = (tx_publications s)(k := None)"
proof -
  have k: "packet_identifier (q2_publish t) = k"
    using tx.store_okD assms(1,2) by (fastforce simp: tx_ok_def)
  have types: "header_type (new_pubrec k) = PUBREC" "header_type (new_pubcomp k) = PUBCOMP"
    by (simp_all add: new_packet_defs header_type_def mqtt_ack_def)
  let ?t = "Qos2_tx (t\<lparr>q2_state := Q2_waiting_for_comp\<rparr>)"
  have 1: "tx_ack_received True (new_pubrec k) s =
      Inr (set_tx k ?t s, [Cancel_timer k, Send (Pubrel (new_pubrel k)), Start_timer k])"
    using assms(2,3) k by (simp add: tx_ack_received_def types on_publication_def tx_event_defs
        q2_pubrel_def set_tx_def)
  have 2: "tx_ack_received True (new_pubrec k) (set_tx k ?t s) =
      Inr (set_tx k ?t s, [Cancel_timer k, Send (Pubrel (new_pubrel k)), Start_timer k])"
    using k by (simp add: tx_ack_received_def types on_publication_def tx_event_defs
        q2_pubrel_def set_tx_def)
  have 3: "tx_ack_received True (new_pubcomp k) (set_tx k ?t s) = Inr (unset_tx k s, [Cancel_timer k])"
    using k by (simp add: tx_ack_received_def types on_publication_def release_publication_def
        tx_event_defs set_tx_def unset_tx_def)
  show ?thesis
    using 1 2 3 by (intro exI [of _ "set_tx k ?t s"] exI [of _ "unset_tx k s"] conjI)
      (simp_all add: unset_tx_def)
qed

theorem qos2_handshake_completes_witness:
  "\<exists>s s1 s2 s3. tx_publications s 1 \<noteq> None \<and>
    tx_ack_received True (new_pubrec 1) s =
      Inr (s1, [Cancel_timer 1, Send (Pubrel (new_pubrel 1)), Start_timer 1]) \<and>
    tx_ack_received True (new_pubcomp 1) s2 = Inr (s3, [Cancel_timer 1])"
proof -
  obtain s p' acts t where s: "tx_publish True sample_publish EXACTLY_ONCE new_tx_in_flight = Inr (s, p', acts)"
    "tx_publications s 1 = Some (Qos2_tx t)" "q2_state t = Q2_waiting_for_rec"
    using tx_publish_sample_qos2 by blast
  have "tx_ok s"
    using tx_publish_ok [OF s(1) tx_ok_new forwardable_sample] by blast
  from qos2_handshake_completes [OF this s(2,3)] s(2) show ?thesis
    by (metis option.distinct(1))
qed

text \<open>
  C31. Which acknowledgements of a client fail an assertion and so abort the whole server: in any
  reachable state exactly those for a publication in flight that is of quality of service 1 and not
  acknowledged by PUBACK, or of quality of service 2, past its PUBREC, and acknowledged by PUBACK.
  Any other acknowledgement, expected or not, is handled.
\<close>

theorem acknowledgements_that_abort_the_server:
  assumes "tx_run max_retries acts s"
    and "header_type ack = PUBACK \<or> header_type ack = PUBREC \<or> header_type ack = PUBCOMP"
  shows "tx_ack_received True ack s = Inl e \<longleftrightarrow>
    e = Assertion_failed \<and>
    (case tx_publications s (ack_packet_identifier ack) of
       None \<Rightarrow> False
     | Some (Qos1_tx t) \<Rightarrow> header_type ack \<noteq> PUBACK
     | Some (Qos2_tx t) \<Rightarrow> q2_state t = Q2_waiting_for_comp \<and> header_type ack = PUBACK)"
proof -
  have "tx_ok s"
    using tx_run_ok [OF assms(1)] by simp
  then show ?thesis
    using tx_ack_received_fails_iff [of s ack True e] assms(2)
    by (auto split: option.splits tx_publication.splits)
qed

theorem acknowledgements_that_abort_the_server_witness:
  "\<exists>s. tx_ack_received True (new_pubrec 1) s = Inl Assertion_failed"
proof -
  obtain s p' acts t where s: "tx_publish True sample_publish AT_LEAST_ONCE new_tx_in_flight = Inr (s, p', acts)"
    "tx_publications s 1 = Some (Qos1_tx t)"
    using tx_publish_sample_qos1 by blast
  have run: "tx_run 3 ([] @ acts) s"
    using s(1) by (intro tx_run_step [OF tx_run_new] tx_publishes [OF forwardable_sample])
  have ack: "header_type (new_pubrec 1) = PUBREC" "ack_packet_identifier (new_pubrec 1) = 1"
    by (simp_all add: new_packet_defs header_type_def mqtt_ack_def)
  have "tx_ack_received True (new_pubrec 1) s = Inl Assertion_failed"
    using acknowledgements_that_abort_the_server [OF run, of "new_pubrec 1" Assertion_failed] s(2) ack
    by simp
  then show ?thesis ..
qed

text \<open>
  C32. Publishing with quality of service 1 or 2 takes the successor of the last identifier modulo
  \<open>2 ^ 16\<close>, so also the identifier 0 that MQTT forbids, and it fails exactly if that identifier is still
  in flight: one publication that stays unanswered while 65535 others come and go is enough, it
  does not take 65535 in flight at once.
\<close>

theorem publishing_fails_iff_next_identifier_in_flight:
  assumes "forwardable p" "q = AT_LEAST_ONCE \<or> q = EXACTLY_ONCE"
  shows "(tx_publish True p q s = Inl e \<longleftrightarrow>
      e = Assertion_failed \<and> tx_publications s (tx_next_packet_identifier s + 1) \<noteq> None) \<and>
    (\<forall>s' p' acts. tx_publish True p q s = Inr (s', p', acts) \<longrightarrow>
      tx_next_packet_identifier s' = tx_next_packet_identifier s + 1 \<and>
      (\<exists>o1. hd (sent acts) = Publish o1 \<and> packet_identifier o1 = tx_next_packet_identifier s + 1))"
proof -
  obtain o1 where o1: "outgoing AT_LEAST_ONCE (tx_next_packet_identifier s + 1) p o1"
    "publish_using_qos1 p s =
      (if tx_publications s (tx_next_packet_identifier s + 1) = None
       then Inr (\<lparr>tx_publications = (tx_publications s)(tx_next_packet_identifier s + 1 \<mapsto>
                    Qos1_tx \<lparr>q1_publish = o1, q1_retry_count = 0, q1_state = Q1_waiting_for_ack\<rparr>),
                  tx_next_packet_identifier = tx_next_packet_identifier s + 1\<rparr>, p,
                 [Send (Publish o1), Start_timer (tx_next_packet_identifier s + 1)])
       else Inl Assertion_failed)"
    using publish_using_qos1_cases [OF assms(1)] .
  obtain o2 where o2: "outgoing EXACTLY_ONCE (tx_next_packet_identifier s + 1) p o2"
    "publish_using_qos2 p s =
      (if tx_publications s (tx_next_packet_identifier s + 1) = None
       then Inr (\<lparr>tx_publications = (tx_publications s)(tx_next_packet_identifier s + 1 \<mapsto>
                    Qos2_tx \<lparr>q2_publish = o2, q2_retry_count = 0, q2_state = Q2_waiting_for_rec\<rparr>),
                  tx_next_packet_identifier = tx_next_packet_identifier s + 1\<rparr>, p,
                 [Send (Publish o2), Start_timer (tx_next_packet_identifier s + 1)])
       else Inl Assertion_failed)"
    using publish_using_qos2_cases [OF assms(1)] .
  show ?thesis
    using assms(2) o1 o2 by (auto simp: tx_publish_def outgoing_def split: if_splits)
qed

theorem publishing_fails_iff_next_identifier_in_flight_witness:
  "\<exists>s' p' acts o1. tx_publish True sample_publish AT_LEAST_ONCE
      \<lparr>tx_publications = Map.empty, tx_next_packet_identifier = 0xFFFF\<rparr> = Inr (s', p', acts) \<and>
    hd (sent acts) = Publish o1 \<and> packet_identifier o1 = 0"
proof -
  let ?s = "\<lparr>tx_publications = Map.empty, tx_next_packet_identifier = 0xFFFF\<rparr>"
  have wrap: "(65536 :: u16) = 0"
    by (simp add: word_unat_eq_iff)
  note at = publishing_fails_iff_next_identifier_in_flight [OF forwardable_sample, of AT_LEAST_ONCE ?s]
  have "tx_publish True sample_publish AT_LEAST_ONCE ?s \<noteq> Inl e" for e
    using at by simp
  then obtain s' p' acts where s': "tx_publish True sample_publish AT_LEAST_ONCE ?s = Inr (s', p', acts)"
    by (cases "tx_publish True sample_publish AT_LEAST_ONCE ?s") auto
  moreover have "\<exists>o1. hd (sent acts) = Publish o1 \<and> packet_identifier o1 = 0"
    using at s' wrap by simp
  ultimately show ?thesis
    by blast
qed

end
