(* ===== verification/Rx_Publications.thy ===== *)
theory Rx_Publications
  imports In_Flight Encoder
begin

text \<open>
  Publications the server receives with quality of service 2: \<^verbatim>\<open>dispatch/rx_publication.cpp\<close> (the
  state machine of one) and \<^verbatim>\<open>dispatch/rx_in_flight_publications.cpp\<close> (their store, which also
  answers the other qualities of service and recognises repeated packets). \<open>alive\<close> is
  \<^verbatim>\<open>sender_.lock( )\<close>, \<open>max_retries\<close> the configured limit.
\<close>

section \<open>A publication being received\<close>

datatype rx_state = Rx_initial | Rx_waiting_for_rel | Rx_completed | Rx_terminally_failed

record rx_publication =
  rx_publish_id :: u16
  rx_retry_count :: u16
  rx_state :: rx_state

definition new_rx_publication :: "publish \<Rightarrow> rx_publication" where
  "new_rx_publication p =
     \<lparr>rx_publish_id = packet_identifier p, rx_retry_count = 0, rx_state = Rx_initial\<rparr>"

definition rx_start_pubrel_timeout :: "rx_publication \<Rightarrow> rx_publication \<times> action list" where
  "rx_start_pubrel_timeout r = (r\<lparr>rx_state := Rx_waiting_for_rel\<rparr>, [Start_timer (rx_publish_id r)])"

definition rx_start :: "rx_publication \<Rightarrow> rx_publication \<times> action list" where
  "rx_start r =
     (let (r', acts) = rx_start_pubrel_timeout r
      in (r', Send (Pubrec (new_pubrec (rx_publish_id r))) # acts))"

definition rx_client_sent_pubrel :: "publish_ack \<Rightarrow> rx_publication \<Rightarrow> rx_publication outcome result" where
  "rx_client_sent_pubrel pubrel r =
     rbind (cpp_assert (rx_state r = Rx_waiting_for_rel)) (\<lambda>_.
     rbind (cpp_assert (ack_packet_identifier pubrel = rx_publish_id r)) (\<lambda>_.
     Inr (r\<lparr>rx_state := Rx_completed\<rparr>,
          [Send (Pubcomp (new_pubcomp (rx_publish_id r))), Cancel_timer (rx_publish_id r)], True)))"

definition rx_pubrel_timeout_expired :: "nat \<Rightarrow> rx_publication \<Rightarrow> rx_publication outcome result" where
  "rx_pubrel_timeout_expired max_retries r =
     rbind (cpp_assert (rx_state r = Rx_waiting_for_rel)) (\<lambda>_.
     let r = r\<lparr>rx_retry_count := rx_retry_count r + 1\<rparr>
     in if unat (rx_retry_count r) \<le> max_retries
        then let (r', acts) = rx_start_pubrel_timeout r
             in Inr (r', Send (Pubrec (new_pubrec (rx_publish_id r))) # acts, False)
        else Inr (r\<lparr>rx_state := Rx_terminally_failed\<rparr>, [], True))"

section \<open>The store\<close>

type_synonym rx_in_flight = "u16 \<rightharpoonup> rx_publication"

text \<open>The result of \<^verbatim>\<open>client_sent_publish\<close> says whether the packet is to be dispatched.\<close>

definition rx_client_sent_publish ::
  "bool \<Rightarrow> publish \<Rightarrow> rx_in_flight \<Rightarrow> (rx_in_flight \<times> action list \<times> bool) result" where
  "rx_client_sent_publish alive p pubs =
     (if pubs (packet_identifier p) \<noteq> None then Inr (pubs, [], False)
      else if publish_qos p = AT_LEAST_ONCE then
        Inr (pubs, if alive then [Send (Puback (new_puback (packet_identifier p)))] else [], True)
      else if publish_qos p = EXACTLY_ONCE then
        if alive then
          rbind (emplace_publication (packet_identifier p) (new_rx_publication p) pubs) (\<lambda>_.
          let (r, acts) = rx_start (new_rx_publication p)
          in Inr (pubs(packet_identifier p \<mapsto> r), acts, True))
        else Inr (pubs, [], True)
      else Inr (pubs, [], True))"

definition rx_pubrel_received ::
  "bool \<Rightarrow> publish_ack \<Rightarrow> rx_in_flight \<Rightarrow> (rx_in_flight \<times> action list) result" where
  "rx_pubrel_received alive pubrel pubs =
     (if \<not> alive then Inr (pubs, [])
      else case pubs (ack_packet_identifier pubrel) of
             Some r \<Rightarrow> on_publication rx_publish_id (rx_client_sent_pubrel pubrel)
                         (ack_packet_identifier pubrel) r pubs
           | None \<Rightarrow> Inr (pubs, [Stop]))"

definition rx_timeout :: "nat \<Rightarrow> u16 \<Rightarrow> rx_in_flight \<Rightarrow> (rx_in_flight \<times> action list) result" where
  "rx_timeout max_retries pktid pubs =
     (case pubs pktid of
        None \<Rightarrow> Inr (pubs, [])
      | Some r \<Rightarrow> on_publication rx_publish_id (rx_pubrel_timeout_expired max_retries) pktid r pubs)"

section \<open>The state machine keeps the contract\<close>

datatype rx_event = Pubrel_received publish_ack | Rx_timeout

fun rx_handle :: "nat \<Rightarrow> rx_event \<Rightarrow> rx_publication \<Rightarrow> rx_publication outcome result" where
  "rx_handle max_retries (Pubrel_received ack) = rx_client_sent_pubrel ack"
| "rx_handle max_retries Rx_timeout = rx_pubrel_timeout_expired max_retries"

definition rx_waiting :: "rx_publication \<Rightarrow> bool" where
  "rx_waiting r \<longleftrightarrow> rx_state r = Rx_waiting_for_rel"

lemmas rx_event_defs =
  rx_client_sent_pubrel_def rx_pubrel_timeout_expired_def rx_start_pubrel_timeout_def Let_def

interpretation rx: in_flight_protocol rx_publish_id rx_waiting "rx_handle max_retries"
  for max_retries
proof unfold_locales
  fix ev p p' acts released
  assume "rx_handle max_retries ev p = Inr (p', acts, released)" "rx_waiting p"
  then show "rx_publish_id p' = rx_publish_id p"
    by (cases ev) (auto simp: rx_event_defs result_simps split: if_splits)
next
  fix ev p p' acts
  assume "rx_handle max_retries ev p = Inr (p', acts, False)" "rx_waiting p"
  then show "rx_waiting p'"
    by (cases ev) (auto simp: rx_event_defs rx_waiting_def result_simps split: if_splits)
qed

lemma rx_handle_ok:
  assumes "rx_waiting r" "case ev of Pubrel_received ack \<Rightarrow> ack_packet_identifier ack = rx_publish_id r | Rx_timeout \<Rightarrow> True"
  shows "\<exists>r' acts released. rx_handle max_retries ev r = Inr (r', acts, released) \<and>
    (\<forall>x \<in> set (sent acts). sendable x)"
  using assms by (cases ev) (auto simp: rx_event_defs rx_waiting_def simp del: sendable.simps)

abbreviation rx_ok :: "rx_in_flight \<Rightarrow> bool" where
  "rx_ok \<equiv> rx.store_ok"

lemma rx_pubrel_received_eq:
  "rx_pubrel_received alive ack pubs =
     (if \<not> alive then Inr (pubs, [])
      else case pubs (ack_packet_identifier ack) of
             Some r \<Rightarrow> on_publication rx_publish_id (rx_handle 0 (Pubrel_received ack))
                         (ack_packet_identifier ack) r pubs
           | None \<Rightarrow> Inr (pubs, [Stop]))"
  by (simp add: rx_pubrel_received_def split: option.splits)

lemma rx_timeout_eq:
  "rx_timeout max_retries k pubs =
     (case pubs k of
        None \<Rightarrow> Inr (pubs, [])
      | Some r \<Rightarrow> on_publication rx_publish_id (rx_handle max_retries Rx_timeout) k r pubs)"
  by (simp add: rx_timeout_def split: option.splits)

text \<open>No operation of the store fails in a reachable state, and all that is sent can be encoded.\<close>

lemma rx_event_ok:
  assumes "rx_ok pubs" "pubs k = Some r"
    "case ev of Pubrel_received ack \<Rightarrow> ack_packet_identifier ack = k | Rx_timeout \<Rightarrow> True"
  shows "\<exists>pubs' acts. on_publication rx_publish_id (rx_handle max_retries ev) k r pubs = Inr (pubs', acts) \<and>
    rx_ok pubs' \<and> (\<forall>x \<in> set (sent acts). sendable x) \<and> (\<forall>j. j \<noteq> k \<longrightarrow> pubs' j = pubs j)"
proof -
  have r: "rx_publish_id r = k" "rx_waiting r"
    using rx.store_okD [OF assms(1,2)] by auto
  obtain r' acts released where h: "rx_handle max_retries ev r = Inr (r', acts, released)"
      "\<forall>x \<in> set (sent acts). sendable x"
    using rx_handle_ok [OF r(2), of ev max_retries] assms(3) r(1) by auto
  then have "on_publication rx_publish_id (rx_handle max_retries ev) k r pubs =
      Inr (if released then pubs(k := None) else pubs(k \<mapsto> r'), acts)"
    using rx.event_cases [OF assms(1,2)] by simp
  with rx.store_ok_event [OF this assms(1,2)] h(2) show ?thesis
    by auto
qed

lemma rx_pubrel_received_ok:
  assumes "rx_ok pubs"
  shows "\<exists>pubs' acts. rx_pubrel_received alive ack pubs = Inr (pubs', acts) \<and> rx_ok pubs' \<and>
    (\<forall>x \<in> set (sent acts). sendable x) \<and> (\<forall>j. j \<noteq> ack_packet_identifier ack \<longrightarrow> pubs' j = pubs j)"
  using assms rx_event_ok [OF assms, of "ack_packet_identifier ack" _ "Pubrel_received ack" 0]
  by (cases "pubs (ack_packet_identifier ack)") (auto simp: rx_pubrel_received_eq simp del: rx_handle.simps)

lemma rx_timeout_ok:
  assumes "rx_ok pubs"
  shows "\<exists>pubs' acts. rx_timeout max_retries k pubs = Inr (pubs', acts) \<and> rx_ok pubs' \<and>
    (\<forall>x \<in> set (sent acts). sendable x) \<and> (\<forall>j. j \<noteq> k \<longrightarrow> pubs' j = pubs j)"
  using assms rx_event_ok [OF assms, of k _ Rx_timeout max_retries]
  by (cases "pubs k") (auto simp: rx_timeout_eq simp del: rx_handle.simps)

lemma rx_client_sent_publish_eq:
  "rx_client_sent_publish alive p pubs =
     (let k = packet_identifier p
      in if pubs k \<noteq> None then Inr (pubs, [], False)
         else if publish_qos p = AT_LEAST_ONCE then
           Inr (pubs, if alive then [Send (Puback (new_puback k))] else [], True)
         else if publish_qos p = EXACTLY_ONCE \<and> alive then
           Inr (pubs(k \<mapsto> \<lparr>rx_publish_id = k, rx_retry_count = 0, rx_state = Rx_waiting_for_rel\<rparr>),
                [Send (Pubrec (new_pubrec k)), Start_timer k], True)
         else Inr (pubs, [], True))"
  by (auto simp: rx_client_sent_publish_def emplace_publication_def new_rx_publication_def rx_start_def
      rx_start_pubrel_timeout_def Let_def)

lemma rx_client_sent_publish_ok:
  assumes "rx_ok pubs"
  shows "\<exists>pubs' acts b. rx_client_sent_publish alive p pubs = Inr (pubs', acts, b) \<and> rx_ok pubs' \<and>
    (\<forall>x \<in> set (sent acts). sendable x)"
  using assms by (auto simp: rx_client_sent_publish_eq Let_def rx_waiting_def
      intro!: rx.store_ok_update simp del: sendable.simps)

section \<open>The store as a state machine\<close>

text \<open>
  The observable events of one session: a PUBLISH that is dispatched, one that is recognised as a
  repetition, a PUBREL, the expiry of a timer.
\<close>

datatype rx_label =
    Dispatched u16 QoS     \<comment> \<open>\<^verbatim>\<open>client_sent_publish\<close> returned true\<close>
  | Ignored u16            \<comment> \<open>\<^verbatim>\<open>client_sent_publish\<close> returned false\<close>
  | Released u16           \<comment> \<open>a PUBREL\<close>
  | Timed_out u16

text \<open>The connection is alive throughout, as it is while its packets are being handled.\<close>

inductive rx_step :: "nat \<Rightarrow> rx_in_flight \<Rightarrow> rx_label \<Rightarrow> rx_in_flight \<Rightarrow> bool"
  for max_retries :: nat where
  rx_publish: "rx_client_sent_publish True p pubs = Inr (pubs', acts, b) \<Longrightarrow>
     rx_step max_retries pubs
       (if b then Dispatched (packet_identifier p) (publish_qos p) else Ignored (packet_identifier p)) pubs'"
| rx_release: "rx_pubrel_received True ack pubs = Inr (pubs', acts) \<Longrightarrow>
     rx_step max_retries pubs (Released (ack_packet_identifier ack)) pubs'"
| rx_expire: "rx_timeout max_retries k pubs = Inr (pubs', acts) \<Longrightarrow>
     rx_step max_retries pubs (Timed_out k) pubs'"

inductive rx_steps :: "nat \<Rightarrow> rx_in_flight \<Rightarrow> rx_label list \<Rightarrow> rx_in_flight \<Rightarrow> bool"
  for max_retries :: nat where
  rx_steps_Nil: "rx_steps max_retries pubs [] pubs"
| rx_steps_Cons: "\<lbrakk>rx_step max_retries pubs l pubs1; rx_steps max_retries pubs1 ls pubs2\<rbrakk>
     \<Longrightarrow> rx_steps max_retries pubs (l # ls) pubs2"

inductive_cases rx_stepE: "rx_step max_retries pubs l pubs'"
inductive_simps rx_steps_simps [simp]:
  "rx_steps max_retries pubs [] pubs'"
  "rx_steps max_retries pubs (l # ls) pubs'"

fun frees :: "u16 \<Rightarrow> rx_label \<Rightarrow> bool" where
  "frees k (Released j) = (j = k)"
| "frees k (Timed_out j) = (j = k)"
| "frees k _ = False"

fun dispatches :: "u16 \<Rightarrow> rx_label \<Rightarrow> bool" where
  "dispatches k (Dispatched j q) = (j = k)"
| "dispatches k _ = False"

lemma rx_step_ok:
  assumes "rx_step max_retries pubs l pubs'" "rx_ok pubs"
  shows "rx_ok pubs'"
  using assms(1)
proof (rule rx_stepE)
  fix p acts b
  assume "rx_client_sent_publish True p pubs = Inr (pubs', acts, b)"
  then show ?thesis
    using rx_client_sent_publish_ok [OF assms(2), of True p] by auto
next
  fix ack acts
  assume "rx_pubrel_received True ack pubs = Inr (pubs', acts)"
  then show ?thesis
    using rx_pubrel_received_ok [OF assms(2), of True ack] by auto
next
  fix k acts
  assume "rx_timeout max_retries k pubs = Inr (pubs', acts)"
  then show ?thesis
    using rx_timeout_ok [OF assms(2), of max_retries k] by auto
qed

text \<open>While an identifier is taken, nothing with it is dispatched, and only two events can free it.\<close>

lemma rx_step_taken:
  assumes "rx_step max_retries pubs l pubs'" "rx_ok pubs" "pubs k \<noteq> None" "\<not> frees k l"
  shows "\<not> dispatches k l \<and> pubs' k = pubs k"
  using assms(1)
proof (rule rx_stepE)
  fix p acts b
  assume "l = (if b then Dispatched (packet_identifier p) (publish_qos p) else Ignored (packet_identifier p))"
    "rx_client_sent_publish True p pubs = Inr (pubs', acts, b)"
  then show ?thesis
    using assms(3) by (auto simp: rx_client_sent_publish_eq Let_def split: if_splits)
next
  fix ack acts
  assume "l = Released (ack_packet_identifier ack)" "rx_pubrel_received True ack pubs = Inr (pubs', acts)"
  then show ?thesis
    using rx_pubrel_received_ok [OF assms(2), of True ack] assms(4) by auto
next
  fix j acts
  assume "l = Timed_out j" "rx_timeout max_retries j pubs = Inr (pubs', acts)"
  then show ?thesis
    using rx_timeout_ok [OF assms(2), of max_retries j] assms(4) by auto
qed

lemma rx_steps_taken:
  assumes "rx_steps max_retries pubs ls pubs'" "rx_ok pubs" "pubs k \<noteq> None" "\<forall>l \<in> set ls. \<not> frees k l"
  shows "\<forall>l \<in> set ls. \<not> dispatches k l"
  using assms
proof (induction rule: rx_steps.induct)
  case (rx_steps_Cons pubs l pubs1 ls pubs2)
  have "\<not> dispatches k l" "pubs1 k = pubs k"
    using rx_step_taken [OF rx_steps_Cons.hyps(1)] rx_steps_Cons.prems by auto
  moreover have "rx_ok pubs1"
    using rx_step_ok rx_steps_Cons.hyps(1) rx_steps_Cons.prems(1) by blast
  ultimately show ?case
    using rx_steps_Cons.IH rx_steps_Cons.prems by simp
qed simp

lemma rx_step_dispatched:
  assumes "rx_step max_retries pubs (Dispatched k EXACTLY_ONCE) pubs'"
  shows "pubs' k \<noteq> None"
  using assms by (rule rx_stepE) (auto simp: rx_client_sent_publish_eq Let_def split: if_splits)

lemma rx_steps_append:
  "rx_steps max_retries pubs (xs @ ys) pubs' \<longleftrightarrow>
     (\<exists>m. rx_steps max_retries pubs xs m \<and> rx_steps max_retries m ys pubs')"
  by (induction xs arbitrary: pubs) auto

lemma rx_steps_ok: "rx_steps max_retries pubs ls pubs' \<Longrightarrow> rx_ok pubs \<Longrightarrow> rx_ok pubs'"
  by (induction rule: rx_steps.induct) (auto dest: rx_step_ok)

section \<open>Properties\<close>

text \<open>
  C8. Exactly once: in any run of a session's store, between a quality of service 2 publication that
  is dispatched and the next dispatch of any packet with the same identifier there is a PUBREL for that
  identifier, or its timer expired. A client that repeats its PUBLISH in between reaches nobody twice.
\<close>

theorem no_second_dispatch_before_release:
  assumes "rx_steps max_retries Map.empty (before @ Dispatched k EXACTLY_ONCE # between @ Dispatched k q # after) pubs"
  shows "\<exists>l \<in> set between. l = Released k \<or> l = Timed_out k"
proof (rule ccontr)
  assume none: "\<not> ?thesis"
  obtain s1 s2 s3 where run: "rx_steps max_retries Map.empty before s1"
    "rx_step max_retries s1 (Dispatched k EXACTLY_ONCE) s2"
    "rx_steps max_retries s2 (between @ [Dispatched k q]) s3"
    using assms by (auto simp: rx_steps_append)
  have "rx_ok s2"
    using rx_steps_ok [OF run(1)] rx_step_ok [OF run(2)] rx.store_ok_empty by blast
  moreover have "\<not> frees k l" if "l \<in> set (between @ [Dispatched k q])" for l
    using none that by (cases l) auto
  ultimately show False
    using rx_steps_taken [OF run(3), of k] rx_step_dispatched [OF run(2)] by auto
qed

theorem no_second_dispatch_before_release_witness:
  "\<exists>pubs. rx_steps 3 Map.empty
       ([] @ Dispatched 7 EXACTLY_ONCE # [Released 7] @ Dispatched 7 EXACTLY_ONCE # []) pubs \<and>
     (\<exists>l \<in> set [Released 7]. l = Released 7 \<or> l = Timed_out (7 :: u16))"
proof -
  define p where "p = sample_publish\<lparr>type_and_flags := 0x34, packet_identifier := 7\<rparr>"
  define r where "r = \<lparr>rx_publish_id = 7, rx_retry_count = 0, rx_state = Rx_waiting_for_rel\<rparr>"
  have p: "publish_qos p = EXACTLY_ONCE" "packet_identifier p = 7"
    by (simp_all add: p_def publish_qos_def qos_of_def)
  have "rx_client_sent_publish True p Map.empty = Inr ([7 \<mapsto> r], [Send (Pubrec (new_pubrec 7)), Start_timer 7], True)"
    by (simp add: rx_client_sent_publish_eq p r_def)
  from rx_publish [OF this] have pub: "rx_step 3 Map.empty (Dispatched 7 EXACTLY_ONCE) [7 \<mapsto> r]"
    by (simp add: p)
  have id: "ack_packet_identifier (new_pubrel 7) = 7"
    by simp
  have "rx_pubrel_received True (new_pubrel 7) [7 \<mapsto> r]
      = Inr (Map.empty, [Send (Pubcomp (new_pubcomp 7)), Cancel_timer 7])"
    by (simp add: rx_pubrel_received_def on_publication_def release_publication_def rx_event_defs r_def)
  from rx_release [OF this] have rel: "rx_step 3 [7 \<mapsto> r] (Released 7) Map.empty"
    by (simp only: id)
  have "rx_steps 3 Map.empty ([] @ Dispatched 7 EXACTLY_ONCE # [Released 7] @ Dispatched 7 EXACTLY_ONCE # []) [7 \<mapsto> r]"
    using pub rel by auto
  from no_second_dispatch_before_release [OF this] this show ?thesis
    by blast
qed

text \<open>
  C33. The server answers a PUBLISH by its quality of service (nothing, PUBACK, PUBREC) and dispatches
  it, unless a quality of service 2 publication with the same identifier is still incomplete: then it
  is silently dropped whatever its own quality of service is. So a fresh quality of service 1 packet,
  or one of quality of service 0 (whose identifier is 0), can be lost, unacknowledged. The store of
  incoming publications never fails an assertion.
\<close>

theorem incoming_publish_answers:
  assumes "rx_ok pubs"
  shows "\<exists>pubs' acts dispatch. rx_client_sent_publish True p pubs = Inr (pubs', acts, dispatch) \<and> rx_ok pubs' \<and>
    dispatch = (pubs (packet_identifier p) = None) \<and>
    sent acts = (if \<not> dispatch then []
                 else case publish_qos p of
                        AT_LEAST_ONCE \<Rightarrow> [Puback (new_puback (packet_identifier p))]
                      | EXACTLY_ONCE \<Rightarrow> [Pubrec (new_pubrec (packet_identifier p))]
                      | _ \<Rightarrow> [])"
  using rx_client_sent_publish_ok [OF assms, of True p]
  by (cases "publish_qos p") (auto simp: rx_client_sent_publish_eq Let_def split: if_splits)

theorem incoming_publish_answers_witness:
  "\<exists>pubs' acts. rx_client_sent_publish True sample_publish Map.empty = Inr (pubs', acts, True)"
  using incoming_publish_answers [OF rx.store_ok_empty, of sample_publish] by auto

text \<open>
  C34. The receiving side of the quality of service 2 handshake: PUBREL for a publication in flight is
  answered with PUBCOMP and frees the identifier, nothing else changes; PUBREL for an unknown
  identifier closes the connection. Neither fails.
\<close>

theorem pubrel_completes_incoming_publication:
  assumes "rx_ok pubs"
  shows "rx_pubrel_received True (new_pubrel k) pubs =
    (if pubs k = None then Inr (pubs, [Stop])
     else Inr (pubs(k := None), [Send (Pubcomp (new_pubcomp k)), Cancel_timer k]))"
proof (cases "pubs k")
  case (Some r)
  then have "rx_publish_id r = k" "rx_state r = Rx_waiting_for_rel"
    using rx.store_okD [OF assms Some] by (auto simp: rx_waiting_def)
  then show ?thesis
    using Some by (simp add: rx_pubrel_received_def on_publication_def release_publication_def rx_event_defs)
qed (simp add: rx_pubrel_received_def)

theorem pubrel_completes_incoming_publication_witness:
  "rx_pubrel_received True (new_pubrel 7)
     [7 \<mapsto> \<lparr>rx_publish_id = 7, rx_retry_count = 0, rx_state = Rx_waiting_for_rel\<rparr>] =
   Inr (Map.empty, [Send (Pubcomp (new_pubcomp 7)), Cancel_timer 7])"
proof -
  have "rx_ok [7 \<mapsto> \<lparr>rx_publish_id = 7, rx_retry_count = 0, rx_state = Rx_waiting_for_rel\<rparr>]"
    by (intro rx.store_ok_update rx.store_ok_empty) (simp_all add: rx_waiting_def)
  from pubrel_completes_incoming_publication [OF this, of 7] show ?thesis
    by simp
qed

end
