(* ===== verification/Topic_Filter.thy ===== *)
theory Topic_Filter
  imports Packets "HOL-Library.Sublist"
begin

text \<open>
  Topic filters: the validation in the constructor of \<^verbatim>\<open>protocol::subscription\<close>
  (\<^verbatim>\<open>protocol/subscription.hpp\<close>) and the matcher \<^verbatim>\<open>topic_filter_matches_topic\<close>
  (\<^verbatim>\<open>dispatch/common.cpp\<close>), each against a declarative reading of the MQTT rules that splits a
  filter or topic into its levels.
\<close>

section \<open>Validation: the code\<close>

text \<open>
  The scan of \<^verbatim>\<open>assert_well_formed_topic_filter\<close>: the character before the current one (NUL before
  the first) and the rest of the filter; the result is the violated rule (\<^verbatim>\<open>mqtt_ref\<close>), if any.
\<close>

fun scan_topic_filter :: "char \<Rightarrow> string \<Rightarrow> string option" where
  "scan_topic_filter previous_char [] = None"
| "scan_topic_filter previous_char (cur_char # rest) =
     (if cur_char = NUL then Some ''4.7.3-2''
      else if previous_char = CHR ''#'' then Some ''4.7.1-2''
      else if cur_char = CHR ''+'' \<and> previous_char \<noteq> NUL \<and> previous_char \<noteq> CHR ''/''
        then Some ''4.7.1-1''
      else if cur_char = CHR ''#'' \<and> previous_char \<noteq> NUL \<and> previous_char \<noteq> CHR ''/''
        then Some ''4.7.1-2''
      else if cur_char \<noteq> CHR ''/'' \<and> cur_char \<noteq> CHR ''+'' \<and> cur_char \<noteq> CHR ''#'' \<and>
              (previous_char = CHR ''+'' \<or> previous_char = CHR ''#'')
        then Some ''4.7.1-3''
      else scan_topic_filter cur_char rest)"

definition topic_filter_violation :: "string \<Rightarrow> string option" where
  "topic_filter_violation tfilter =
     (if length tfilter < 1 then Some ''4.7.3-1''
      else if length tfilter > 65535 then Some ''4.7.3-3''
      else scan_topic_filter NUL tfilter)"

definition new_subscription :: "string \<Rightarrow> QoS \<Rightarrow> subscription result" where
  "new_subscription tfilter qos =
     (case topic_filter_violation tfilter of
        None \<Rightarrow> Inr \<lparr>topic_filter = tfilter, maximum_qos = qos\<rparr>
      | Some _ \<Rightarrow> Inl (Malformed Topic_filter_malformed))"

section \<open>Matching: the code\<close>

text \<open>
  The two nested loops of the matcher. The indices \<^verbatim>\<open>t_idx\<close> and \<^verbatim>\<open>tf_idx\<close> are represented by what
  is left of the topic and of the filter behind them; \<^verbatim>\<open>skip_level\<close> is the inner loop. The outer
  loop either returns or leaves with the unread rests.
\<close>

datatype match_exit = Returned bool | Exhausted string string

fun skip_level :: "string \<Rightarrow> string" where
  "skip_level [] = []"
| "skip_level (t_char # rest) = (if t_char \<noteq> CHR ''/'' then skip_level rest else t_char # rest)"

fun match_loop :: "string \<Rightarrow> string \<Rightarrow> match_exit" where
  "match_loop filter_rest [] = Exhausted filter_rest []"
| "match_loop [] topic_rest = Exhausted [] topic_rest"
| "match_loop (tf_char # filter_rest) (t_char # topic_rest) =
     (if tf_char = CHR ''+'' then
        match_loop filter_rest
          (if t_char \<noteq> CHR ''/'' then skip_level (t_char # topic_rest) else t_char # topic_rest)
      else if tf_char = CHR ''#'' then Returned True
      else if t_char \<noteq> tf_char then Returned False
      else match_loop filter_rest topic_rest)"

text \<open>\<^verbatim>\<open>std::string::compare( pos, len, literal ) == 0\<close> throws for a position beyond the end.\<close>

definition compare_equal :: "string \<Rightarrow> nat \<Rightarrow> nat \<Rightarrow> string \<Rightarrow> bool result" where
  "compare_equal s pos len literal =
     (if pos > length s then Inl Out_of_range else Inr (take len (drop pos s) = literal))"

definition topic_filter_matches_topic :: "string \<Rightarrow> string \<Rightarrow> bool result" where
  "topic_filter_matches_topic tfilter tpc =
     (case match_loop tfilter tpc of
        Returned b \<Rightarrow> Inr b
      | Exhausted filter_rest topic_rest \<Rightarrow>
          if topic_rest = [] \<and> filter_rest = [] then Inr True
          else if length tfilter - length filter_rest < size_minus (length tfilter) 1
          then compare_equal tfilter (size_minus (length tfilter) 2) 2 ''/#''
          else Inr False)"

section \<open>Levels\<close>

fun levels :: "string \<Rightarrow> string list" where
  "levels [] = [[]]"
| "levels (c # cs) =
     (if c = CHR ''/'' then [] # levels cs else (c # hd (levels cs)) # tl (levels cs))"

definition plain_level :: "string \<Rightarrow> bool" where
  "plain_level l \<longleftrightarrow> CHR ''+'' \<notin> set l \<and> CHR ''#'' \<notin> set l"

text \<open>MQTT 4.7.1: a wildcard fills its level, and \<open>#\<close> occurs in the last level only.\<close>

fun wildcards_ok :: "string list \<Rightarrow> bool" where
  "wildcards_ok [] = True"
| "wildcards_ok [l] = (plain_level l \<or> l = ''+'' \<or> l = ''#'')"
| "wildcards_ok (l # m # ls) = ((plain_level l \<or> l = ''+'') \<and> wildcards_ok (m # ls))"

definition well_formed_filter :: "string \<Rightarrow> bool" where
  "well_formed_filter f \<longleftrightarrow> f \<noteq> [] \<and> length f \<le> 65535 \<and> NUL \<notin> set f \<and> wildcards_ok (levels f)"

text \<open>MQTT 4.7.1: matching level by level; \<open>#\<close> stands for the parent and all levels below it.\<close>

fun levels_match :: "string list \<Rightarrow> string list \<Rightarrow> bool" where
  "levels_match [] [] = True"
| "levels_match [] (t # ts) = False"
| "levels_match (f # fs) [] = (f = ''#'' \<and> fs = [])"
| "levels_match (f # fs) (t # ts) =
     (if f = ''#'' \<and> fs = [] then True
      else (f = ''+'' \<or> f = t) \<and> levels_match fs ts)"

lemma levels_nonempty [simp]: "levels s \<noteq> []"
  by (induction s) auto

lemma levels_split: "levels s = hd (levels s) # tl (levels s)"
  by simp

lemma levels_append: "levels (xs @ CHR ''/'' # ys) = levels xs @ levels ys"
proof (induction xs)
  case (Cons c xs)
  then show ?case
    by (cases "levels xs") auto
qed simp

lemma plain_level_Nil [simp]: "plain_level []"
  by (simp add: plain_level_def)

lemma plain_level_Cons [simp]:
  "plain_level (c # l) \<longleftrightarrow> c \<noteq> CHR ''+'' \<and> c \<noteq> CHR ''#'' \<and> plain_level l"
  by (auto simp: plain_level_def)

lemma hd_levels_regular: "c \<noteq> CHR ''/'' \<Longrightarrow> hd (levels (c # s)) \<noteq> []"
  by simp

lemma hd_levels_empty_iff: "hd (levels s) = [] \<longleftrightarrow> s = [] \<or> (\<exists>r. s = CHR ''/'' # r)"
  by (cases s) auto

lemma wildcards_ok_Nil_level [simp]: "wildcards_ok ([] # ls) = wildcards_ok ls"
  by (cases ls) auto

lemma wildcards_ok_plus [simp]: "wildcards_ok ((CHR ''+'' # l) # ls) \<longleftrightarrow> l = [] \<and> wildcards_ok ls"
  by (cases ls) auto

lemma wildcards_ok_hash [simp]: "wildcards_ok ((CHR ''#'' # l) # ls) \<longleftrightarrow> l = [] \<and> ls = []"
  by (cases ls) auto

lemma wildcards_ok_regular:
  "c \<noteq> CHR ''+'' \<Longrightarrow> c \<noteq> CHR ''#'' \<Longrightarrow>
   wildcards_ok ((c # l) # ls) \<longleftrightarrow> plain_level l \<and> wildcards_ok ls"
  by (cases ls) auto

lemma wildcards_ok_plain: "plain_level l \<Longrightarrow> wildcards_ok (l # ls) = wildcards_ok ls"
  by (cases ls) auto

lemma wildcards_ok_tail: "wildcards_ok ((c # l) # ls) \<Longrightarrow> c \<noteq> CHR ''#'' \<Longrightarrow> wildcards_ok (l # ls)"
  by (cases "c = CHR ''+''") (auto simp: wildcards_ok_regular wildcards_ok_plain)

lemma levels_single_empty_iff: "hd (levels s) = [] \<and> tl (levels s) = [] \<longleftrightarrow> s = []"
  by (cases s) auto

lemma wildcards_ok_snoc: "wildcards_ok (ls @ [l]) \<Longrightarrow> wildcards_ok ls"
  by (induction ls rule: wildcards_ok.induct) auto

lemma set_levels: "l \<in> set (levels s) \<Longrightarrow> set l \<subseteq> set s"
proof (induction s arbitrary: l)
  case (Cons c s)
  obtain h t where "levels s = h # t"
    by (cases "levels s") auto
  with Cons show ?case
    by (fastforce split: if_splits)
qed simp

section \<open>Validation is exact\<close>

text \<open>
  The four situations of the scan: at the start of a level, inside a regular one, and behind each
  of the wildcards.
\<close>

lemma scan_topic_filter_iff:
  "(p = NUL \<or> p = CHR ''/'' \<longrightarrow>
      (scan_topic_filter p s = None \<longleftrightarrow> NUL \<notin> set s \<and> wildcards_ok (levels s))) \<and>
   (p = CHR ''#'' \<longrightarrow> (scan_topic_filter p s = None \<longleftrightarrow> s = [])) \<and>
   (p = CHR ''+'' \<longrightarrow>
      (scan_topic_filter p s = None \<longleftrightarrow>
         NUL \<notin> set s \<and> hd (levels s) = [] \<and> wildcards_ok (tl (levels s)))) \<and>
   (p \<noteq> NUL \<and> p \<noteq> CHR ''/'' \<and> p \<noteq> CHR ''#'' \<and> p \<noteq> CHR ''+'' \<longrightarrow>
      (scan_topic_filter p s = None \<longleftrightarrow>
         NUL \<notin> set s \<and> plain_level (hd (levels s)) \<and> wildcards_ok (tl (levels s))))"
proof (induction s arbitrary: p)
  case (Cons c s)
  consider "c = NUL" | "c = CHR ''/''" | "c = CHR ''+''" | "c = CHR ''#''"
    | "c \<noteq> NUL" "c \<noteq> CHR ''/''" "c \<noteq> CHR ''+''" "c \<noteq> CHR ''#''"
    by blast
  then show ?case
    by cases
      (use Cons.IH [of c] levels_single_empty_iff [of s] in \<open>auto simp: wildcards_ok_regular\<close>)
qed simp

lemma topic_filter_violation_None_iff:
  "topic_filter_violation f = None \<longleftrightarrow> well_formed_filter f"
  using scan_topic_filter_iff [of NUL f]
  by (auto simp: topic_filter_violation_def well_formed_filter_def)

lemma new_subscription_Inr_iff:
  "new_subscription f q = Inr s \<longleftrightarrow> well_formed_filter f \<and> s = \<lparr>topic_filter = f, maximum_qos = q\<rparr>"
  by (auto simp: new_subscription_def topic_filter_violation_None_iff [symmetric] split: option.splits)

section \<open>The matcher's two exits\<close>

lemma levels_skip_level: "levels (skip_level t) = [] # tl (levels t)"
  by (induction t) auto

lemma skip_level_at_separator [simp]: "skip_level (CHR ''/'' # t) = CHR ''/'' # t"
  by simp

lemma match_loop_plus [simp]:
  "match_loop (CHR ''+'' # f) (c # t) = match_loop f (skip_level (c # t))"
  by simp

lemma match_loop_Exhausted:
  "match_loop f t = Exhausted fr tr \<Longrightarrow> suffix fr f \<and> (fr = [] \<or> tr = [])"
proof (induction f arbitrary: t)
  case (Cons c f)
  then show ?case
    by (cases t) (auto split: if_splits intro: suffix_ConsI)
qed (auto elim: match_loop.elims)

lemma match_loop_hash_free: "CHR ''#'' \<notin> set f \<Longrightarrow> match_loop f t \<noteq> Returned True"
proof (induction f arbitrary: t)
  case (Cons c f)
  then show ?case
    by (cases t) auto
qed (auto elim: match_loop.elims)

lemma match_loop_append:
  "match_loop (g @ h) t =
     (case match_loop g t of
        Returned b \<Rightarrow> Returned b
      | Exhausted gr tr \<Rightarrow> if gr = [] then match_loop h tr else Exhausted (gr @ h) [])"
proof (induction g arbitrary: t)
  case Nil
  then show ?case
    by (cases t) simp_all
next
  case (Cons c g)
  then show ?case
    by (cases t) auto
qed

lemma take_2_drop_suffix:
  "2 \<le> length f \<Longrightarrow> take 2 (drop (length f - 2) f) = [a, b] \<longleftrightarrow> suffix [a, b] f"
proof
  assume "2 \<le> length f" "take 2 (drop (length f - 2) f) = [a, b]"
  then show "suffix [a, b] f"
    by (metis append_take_drop_id diff_diff_cancel length_drop suffixI take_all_iff order_refl)
next
  assume "suffix [a, b] f"
  then show "take 2 (drop (length f - 2) f) = [a, b]"
    by (auto simp: suffix_def)
qed

text \<open>On a nonempty filter the matcher never reads outside the filter and never throws.\<close>

lemma topic_filter_matches_topic_eq:
  assumes "f \<noteq> []"
  shows "topic_filter_matches_topic f t = Inr
     (case match_loop f t of
        Returned b \<Rightarrow> b
      | Exhausted fr tr \<Rightarrow> fr = [] \<and> tr = [] \<or> 2 \<le> length fr \<and> suffix ''/#'' f)"
proof (cases "match_loop f t")
  case (Exhausted fr tr)
  then have le: "length fr \<le> length f"
    using match_loop_Exhausted suffix_length_le by blast
  have pos: "1 \<le> length f"
    using assms by (simp add: Suc_le_eq)
  show ?thesis
    using Exhausted le pos take_2_drop_suffix [of f "CHR ''/''" "CHR ''#''"]
    by (auto simp: topic_filter_matches_topic_def size_minus_def compare_equal_def)
qed (simp add: topic_filter_matches_topic_def)

section \<open>Filters without the multi-level wildcard\<close>

text \<open>
  What the code computes on such filters, level by level: as the MQTT rule, but a \<open>+\<close> in the last
  level does not match an empty last level, because the loop has then read the whole topic.
\<close>

fun strict_match :: "string list \<Rightarrow> string list \<Rightarrow> bool" where
  "strict_match [f] [t] = (f = t \<or> f = ''+'' \<and> t \<noteq> [])"
| "strict_match (f # g # fs) (t # u # ts) = ((f = ''+'' \<or> f = t) \<and> strict_match (g # fs) (u # ts))"
| "strict_match _ _ = False"

lemma levels_match_Nil [simp]: "levels_match [] ts \<longleftrightarrow> ts = []"
  by (cases ts) auto

lemma strict_match_iff:
  "''#'' \<notin> set fs \<Longrightarrow> fs \<noteq> [] \<Longrightarrow> ts \<noteq> [] \<Longrightarrow>
   strict_match fs ts \<longleftrightarrow> levels_match fs ts \<and> \<not> (last fs = ''+'' \<and> last ts = [])"
  by (induction fs ts rule: strict_match.induct) auto

lemma strict_match_Nil_level: "strict_match ([] # fs) ([] # ts) \<longleftrightarrow> fs = [] \<and> ts = [] \<or> strict_match fs ts"
  by (cases fs; cases ts) auto

lemma strict_match_plain:
  "f \<noteq> ''+'' \<Longrightarrow> strict_match (f # fs) (t # ts) \<longleftrightarrow> f = t \<and> (fs = [] \<and> ts = [] \<or> strict_match fs ts)"
  by (cases fs; cases ts) auto

lemma strict_match_plus:
  "strict_match (''+'' # fs) (t # ts) \<longleftrightarrow> fs = [] \<and> ts = [] \<and> t \<noteq> [] \<or> strict_match fs ts"
  by (cases fs; cases ts) auto

lemma strict_match_char_empty [simp]:
  "strict_match ((c # l) # fs) ([] # ts) \<longleftrightarrow> c = CHR ''+'' \<and> l = [] \<and> strict_match fs ts"
  by (cases fs; cases ts) auto

lemma strict_match_empty [simp]: "\<not> strict_match [] ts" "\<not> strict_match fs []"
  by (cases fs rule: remdups_adj.cases; simp)+

text \<open>The wildcard takes a level, if there is one.\<close>

lemma match_loop_plus_exact:
  assumes IH: "\<And>t. match_loop f t = Exhausted [] [] \<longleftrightarrow> strict_match ([] # fs) (levels t)"
    and f: "levels f = [] # fs" and t: "t = d # t'"
  shows "match_loop (CHR ''+'' # f) t = Exhausted [] [] \<longleftrightarrow> strict_match (levels (CHR ''+'' # f)) (levels t)"
proof -
  obtain tl ts where lt: "levels t = tl # ts"
    by (cases "levels t") auto
  have nonempty: "\<not> (tl = [] \<and> ts = [])"
    using levels_single_empty_iff [of t] by (simp add: lt) (simp add: t)
  have "match_loop (CHR ''+'' # f) t = match_loop f (skip_level t)"
    by (simp only: t match_loop_plus)
  then have "match_loop (CHR ''+'' # f) t = Exhausted [] [] \<longleftrightarrow> strict_match ([] # fs) ([] # ts)"
    using IH [of "skip_level t"] by (simp add: levels_skip_level lt)
  also have "\<dots> \<longleftrightarrow> strict_match (levels (CHR ''+'' # f)) (levels t)"
    using nonempty by (auto simp: lt f strict_match_plus strict_match_Nil_level)
  finally show ?thesis .
qed

lemma match_loop_exact:
  assumes "CHR ''#'' \<notin> set f" "wildcards_ok (levels f)"
  shows "match_loop f t = Exhausted [] [] \<longleftrightarrow> strict_match (levels f) (levels t)"
  using assms
proof (induction f arbitrary: t)
  case Nil
  show ?case
    by (cases t) (auto simp: strict_match_plain)
next
  case (Cons c f)
  obtain fl fs where lf: "levels f = fl # fs"
    by (cases "levels f") auto
  have ok: "wildcards_ok (fl # fs)"
    using Cons.prems(2) wildcards_ok_tail [of c fl fs] Cons.prems(1) by (auto simp: lf split: if_splits)
  have IH: "match_loop f t = Exhausted [] [] \<longleftrightarrow> strict_match (fl # fs) (levels t)" for t
    using Cons.IH [of t] Cons.prems(1) ok by (simp add: lf)
  show ?case
  proof (cases t)
    case t: Nil
    show ?thesis
      using Cons.prems by (auto simp: t lf strict_match_plain strict_match_plus)
  next
    case t: (Cons d t')
    obtain tl ts where lt: "levels t = tl # ts"
      by (cases "levels t") auto
    consider "c = CHR ''+''" | "c = CHR ''/''" | "c \<noteq> CHR ''+''" "c \<noteq> CHR ''/''"
      by blast
    then show ?thesis
    proof cases
      case 1
      then have "fl = []"
        using Cons.prems(2) by (simp add: lf)
      then show ?thesis
        using match_loop_plus_exact [of f fs t d t'] IH lf t 1 by simp
    next
      case 2
      then show ?thesis
        using IH by (auto simp: t lf strict_match_plain)
    next
      case 3
      obtain ul us where "levels t' = ul # us"
        by (cases "levels t'") auto
      moreover have "fl \<noteq> ''+''"
        using Cons.prems 3 by (auto simp: lf wildcards_ok_regular)
      ultimately show ?thesis
        using 3 IH [of t'] Cons.prems by (auto simp: t lf strict_match_plain)
    qed
  qed
qed

section \<open>Filters that end in the multi-level wildcard\<close>

text \<open>
  The loop reads such a filter \<open>g/#\<close> up to \<open>#\<close>, if the topic is long enough. A topic that ends
  before is accepted whatever part of \<open>g\<close> is left.
\<close>

lemma match_loop_hash_complete:
  assumes "CHR ''#'' \<notin> set g" "wildcards_ok (levels g)"
    and "levels_match (levels g @ [''#'']) (levels t)"
  shows "(\<exists>gr. match_loop g t = Exhausted gr []) \<or>
     (\<exists>v. match_loop g t = Exhausted [] (CHR ''/'' # v) \<and>
        length (levels t) = length (levels g) + length (levels v) \<and>
        last (levels t) = last (levels v))"
  using assms
proof (induction g arbitrary: t)
  case Nil
  then show ?case
    by (cases t) (auto split: if_splits)
next
  case (Cons c g)
  obtain gl gs where lg: "levels g = gl # gs"
    by (cases "levels g") auto
  have ok: "wildcards_ok (gl # gs)"
    using Cons.prems wildcards_ok_tail [of c gl gs] by (auto simp: lg split: if_splits)
  note IH = Cons.IH [unfolded lg, OF _ ok]
  show ?case
  proof (cases t)
    case t: (Cons d t')
    obtain tl ts where lt: "levels t = tl # ts"
      by (cases "levels t") auto
    consider "c = CHR ''+''" | "c = CHR ''/''" | "c \<noteq> CHR ''+''" "c \<noteq> CHR ''/''"
      by blast
    then show ?thesis
    proof cases
      case 1
      have "gl = []"
        using Cons.prems(2) 1 by (simp add: lg)
      have step: "match_loop (c # g) t = match_loop g (skip_level t)"
        by (simp only: 1 t match_loop_plus)
      have "levels_match (gl # gs @ [''#'']) (levels (skip_level t))"
        using Cons.prems(3) 1 by (simp add: lg lt \<open>gl = []\<close> levels_skip_level)
      with IH [of "skip_level t"] Cons.prems(1) show ?thesis
        unfolding step using 1 by (auto simp: lg lt levels_skip_level \<open>gl = []\<close>)
    next
      case 2
      then show ?thesis
        using IH [of t'] Cons.prems by (auto simp: t lg split: if_splits)
    next
      case 3
      obtain ul us where "levels t' = ul # us"
        by (cases "levels t'") auto
      then show ?thesis
        using 3 IH [of t'] Cons.prems by (auto simp: t lg split: if_splits)
    qed
  qed auto
qed

lemma match_loop_plain:
  assumes "plain_level g"
  shows "match_loop g t =
    (if prefix t g then Exhausted (drop (length t) g) []
     else if prefix g t then Exhausted [] (drop (length g) t) else Returned False)"
  using assms
proof (induction g arbitrary: t)
  case Nil
  show ?case
    by (cases t) simp_all
next
  case (Cons c g)
  then show ?case
    by (cases t) auto
qed

lemma match_loop_hash_tail:
  "match_loop ''/#'' t =
    (case t of [] \<Rightarrow> Exhausted ''/#'' []
     | c # v \<Rightarrow> if c = CHR ''/'' then if v = [] then Exhausted ''#'' [] else Returned True
                else Returned False)"
  by (cases t; cases "tl t") auto

section \<open>Properties\<close>

text \<open>
  C18. The constructor of a subscription accepts exactly the filters MQTT 4.7 calls well formed (not
  empty, at most 65535 bytes, no NUL, wildcards fill their level, \<open>#\<close> only in the last level), keeps
  them unchanged, and rejects every other string with \<^verbatim>\<open>malformed_mqtt_packet\<close>.
\<close>

theorem subscription_accepts_exactly_well_formed_filters:
  "new_subscription f q =
     (if well_formed_filter f then Inr \<lparr>topic_filter = f, maximum_qos = q\<rparr>
      else Inl (Malformed Topic_filter_malformed))"
  by (simp add: new_subscription_def topic_filter_violation_None_iff [symmetric] split: option.splits)

text \<open>
  The matcher always returns, and the only input it throws on is an empty filter with a nonempty
  topic, where the position \<^verbatim>\<open>size( ) - 2\<close> wraps around and \<^verbatim>\<open>std::string::compare\<close> throws
  \<^verbatim>\<open>std::out_of_range\<close>.
\<close>

lemma matcher_throws_only_on_empty_filter:
  "topic_filter_matches_topic f t = Inl e \<longleftrightarrow> f = [] \<and> t \<noteq> [] \<and> e = Out_of_range"
proof (cases "f = []")
  case True
  then show ?thesis
    by (cases t) (auto simp: topic_filter_matches_topic_def size_minus_def compare_equal_def)
qed (simp add: topic_filter_matches_topic_eq)

text \<open>
  C19. On well formed filters without \<open>#\<close> the index-based matcher computes the level-by-level relation
  of MQTT 4.7.1, with one deviation: a \<open>+\<close> in the last level does not match an empty last level.
\<close>

theorem matcher_without_hash_is_levelwise:
  assumes "well_formed_filter f" "CHR ''#'' \<notin> set f"
  shows "topic_filter_matches_topic f t =
    Inr (levels_match (levels f) (levels t) \<and>
         \<not> (last (levels f) = ''+'' \<and> last (levels t) = []))"
proof -
  have f: "f \<noteq> []" "wildcards_ok (levels f)"
    using assms(1) by (auto simp: well_formed_filter_def)
  have "''#'' \<notin> set (levels f)"
    using assms(2) set_levels by fastforce
  then have "strict_match (levels f) (levels t) \<longleftrightarrow>
      levels_match (levels f) (levels t) \<and> \<not> (last (levels f) = ''+'' \<and> last (levels t) = [])"
    by (rule strict_match_iff) simp_all
  moreover have "\<not> suffix ''/#'' f"
    using assms(2) by (auto simp: suffix_def)
  ultimately show ?thesis
    using match_loop_exact [OF assms(2) f(2), of t] match_loop_hash_free [OF assms(2), of t]
    by (auto simp: topic_filter_matches_topic_eq [OF f(1)] split: match_exit.splits)
qed

theorem matcher_without_hash_is_levelwise_witness:
  "topic_filter_matches_topic ''a/+/c'' ''a/b/c'' = Inr True \<and>
   topic_filter_matches_topic ''a/+'' ''a/'' = Inr False"
  using matcher_without_hash_is_levelwise [of "''a/+/c''" "''a/b/c''"]
    matcher_without_hash_is_levelwise [of "''a/+''" "''a/''"]
  by (simp add: well_formed_filter_def plain_level_def)

text \<open>
  A filter \<open>g/#\<close> matches every topic it should by MQTT 4.7.1.2 (the parent and all levels
  below), except one: the topic \<open>g/\<close> whose only level below \<open>g\<close> is empty.
\<close>

lemma hash_filter_matches_parent_and_children:
  assumes "well_formed_filter (g @ ''/#'')" "CHR ''#'' \<notin> set g"
    and "levels_match (levels (g @ ''/#'')) (levels t)"
    and "\<not> (last (levels t) = [] \<and> length (levels t) = length (levels g) + 1)"
  shows "topic_filter_matches_topic (g @ ''/#'') t = Inr True"
proof -
  have lv: "levels (g @ ''/#'') = levels g @ [''#'']"
    using levels_append [of g "''#''"] by simp
  have "wildcards_ok (levels g)"
    using assms(1) unfolding well_formed_filter_def lv by (auto intro: wildcards_ok_snoc)
  from match_loop_hash_complete [OF assms(2) this, of t] assms(3) lv
  consider gr where "match_loop g t = Exhausted gr []"
    | v where "match_loop g t = Exhausted [] (CHR ''/'' # v)"
      "length (levels t) = length (levels g) + length (levels v)" "last (levels t) = last (levels v)"
    by auto
  then have "\<exists>fr. match_loop (g @ ''/#'') t = Returned True \<or>
      match_loop (g @ ''/#'') t = Exhausted fr [] \<and> 2 \<le> length fr"
  proof cases
    case (1 gr)
    then show ?thesis
      by (cases "gr = []") (simp_all add: match_loop_append match_loop_hash_tail)
  next
    case (2 v)
    have "v \<noteq> []"
      using 2(2,3) assms(4) by auto
    then show ?thesis
      using 2(1) by (simp add: match_loop_append match_loop_hash_tail)
  qed
  moreover have "suffix ''/#'' (g @ ''/#'')"
    by (simp add: suffix_def)
  ultimately show ?thesis
    by (subst topic_filter_matches_topic_eq) auto
qed

text \<open>
  C20. What a filter \<open>g/#\<close> with no other wildcard accepts, exactly: topics strictly below \<open>g\<close>, and
  every textual prefix of \<open>g\<close>. The prefixes are too many: MQTT admits only \<open>g\<close> itself, so
  \<open>sport/tennis/#\<close> also receives what is published to \<open>sp\<close>.
\<close>

theorem hash_filter_exact_language:
  assumes "plain_level g"
  shows "topic_filter_matches_topic (g @ ''/#'') t =
    Inr (prefix t g \<or> (\<exists>v. v \<noteq> [] \<and> t = g @ CHR ''/'' # v))"
proof -
  have suf: "suffix ''/#'' (g @ ''/#'')"
    by (simp add: suffix_def)
  consider "prefix t g" | "\<not> prefix t g" "\<not> prefix g t" | c v where "t = g @ c # v"
    by (metis prefixE append.right_neutral neq_Nil_conv prefix_order.refl)
  then show ?thesis
  proof cases
    case 1
    then show ?thesis
      using suf by (subst topic_filter_matches_topic_eq)
        (auto simp: match_loop_append match_loop_plain [OF assms] match_loop_hash_tail)
  next
    case 2
    then show ?thesis
      by (subst topic_filter_matches_topic_eq)
        (auto simp: match_loop_append match_loop_plain [OF assms])
  next
    case (3 c v)
    then show ?thesis
      by (subst topic_filter_matches_topic_eq)
        (auto simp: match_loop_append match_loop_plain [OF assms] match_loop_hash_tail)
  qed
qed

theorem hash_filter_exact_language_witness:
  "topic_filter_matches_topic ''sport/tennis/#'' ''sp'' = Inr True"
  using hash_filter_exact_language [of "''sport/tennis''" "''sp''"]
  by (simp add: plain_level_def)

end
