(* ===== verification/Topic_Subscriptions.thy ===== *)
theory Topic_Subscriptions
  imports Topic_Filter "HOL-Library.AList"
begin

text \<open>
  The two indices of the dispatcher: \<^verbatim>\<open>topic_subscriptions\<close> (\<^verbatim>\<open>dispatch/topic_subscriptions.cpp\<close>),
  a set of subscriptions, and \<^verbatim>\<open>retained_messages\<close> (\<^verbatim>\<open>dispatch/retained_messages.cpp\<close>), a map from
  topics to retained publications. The code keeps an \<^verbatim>\<open>unordered_set\<close> and an \<^verbatim>\<open>unordered_map\<close>; here
  they are lists without duplicates, in the order of one iteration, and the results are shown not to
  depend on that order. Both indices resolve a lookup with the same loop, the contract of the locale
  \<open>max_qos_resolver\<close>.
\<close>

section \<open>Resolving with the maximum quality of service\<close>

text \<open>
  The body of both lookup loops: find the entry of a key, raise its quality of service if the new one
  is higher, append a new entry if there is none.
\<close>

fun note_qos :: "'k \<Rightarrow> QoS \<Rightarrow> ('k \<times> QoS) list \<Rightarrow> ('k \<times> QoS) list" where
  "note_qos k qos [] = [(k, qos)]"
| "note_qos k qos ((seen, seen_qos) # rest) =
     (if seen = k then (seen, if qos > seen_qos then qos else seen_qos) # rest
      else (seen, seen_qos) # note_qos k qos rest)"

lemma keys_note_qos: "fst ` set (note_qos k q rs) = insert k (fst ` set rs)"
  by (induction k q rs rule: note_qos.induct) auto

lemma distinct_note_qos: "distinct (map fst rs) \<Longrightarrow> distinct (map fst (note_qos k q rs))"
proof (induction k q rs rule: note_qos.induct)
  case (2 k q seen seen_qos rest)
  have "set (map fst (note_qos k q rest)) = insert k (fst ` set rest)"
    by (simp add: keys_note_qos)
  with 2 show ?case
    by auto
qed simp

lemma map_of_note_qos:
  "map_of (note_qos k q rs) j =
     (if j = k then Some (case map_of rs k of None \<Rightarrow> q | Some q' \<Rightarrow> max q' q) else map_of rs j)"
  by (induction k q rs rule: note_qos.induct) (auto simp: max_def)

text \<open>
  The specification: a key is resolved exactly if some selected item has it, with the highest
  quality of service of those items.
\<close>

definition resolves_to :: "('k \<times> QoS) set \<Rightarrow> ('k \<times> QoS) list \<Rightarrow> bool" where
  "resolves_to hits rs \<longleftrightarrow> distinct (map fst rs) \<and>
     (\<forall>k q. (k, q) \<in> set rs \<longleftrightarrow> (k, q) \<in> hits \<and> (\<forall>q'. (k, q') \<in> hits \<longrightarrow> q' \<le> q))"

lemma resolves_toD:
  "resolves_to hits rs \<Longrightarrow>
   (k, q) \<in> set rs \<longleftrightarrow> (k, q) \<in> hits \<and> (\<forall>q'. (k, q') \<in> hits \<longrightarrow> q' \<le> q)"
  unfolding resolves_to_def by blast

lemma resolves_to_Nil [simp]: "resolves_to {} []"
  by (simp add: resolves_to_def)

lemma resolves_to_keys:
  assumes "resolves_to hits rs" "finite hits"
  shows "fst ` set rs = fst ` hits"
proof
  show "fst ` set rs \<subseteq> fst ` hits"
    using assms(1) by (force simp: resolves_to_def)
  show "fst ` hits \<subseteq> fst ` set rs"
  proof
    fix k assume "k \<in> fst ` hits"
    then have ne: "{q. (k, q) \<in> hits} \<noteq> {}"
      by auto
    have fin: "finite {q. (k, q) \<in> hits}"
      by (rule finite_subset [of _ "snd ` hits"]) (force simp: assms(2))+
    have "(k, Max {q. (k, q) \<in> hits}) \<in> set rs"
      using assms(1) Max_in [OF fin ne] Max_ge [OF fin] by (simp add: resolves_to_def)
    then show "k \<in> fst ` set rs"
      by force
  qed
qed

lemma resolves_to_note_qos:
  assumes "resolves_to hits rs" "finite hits"
  shows "resolves_to (insert (k, q) hits) (note_qos k q rs)"
  unfolding resolves_to_def
proof (intro conjI allI)
  have dist: "distinct (map fst rs)" and rs: "\<And>k q. (k, q) \<in> set rs \<longleftrightarrow> (k, q) \<in> hits \<and> (\<forall>q'. (k, q') \<in> hits \<longrightarrow> q' \<le> q)"
    using assms(1) by (auto simp: resolves_to_def)
  show dist': "distinct (map fst (note_qos k q rs))"
    using dist by (rule distinct_note_qos)
  fix k' q'
  have "(k', q') \<in> set (note_qos k q rs) \<longleftrightarrow> map_of (note_qos k q rs) k' = Some q'"
    using dist' by simp
  also have "\<dots> \<longleftrightarrow> (k', q') \<in> insert (k, q) hits \<and> (\<forall>q''. (k', q'') \<in> insert (k, q) hits \<longrightarrow> q'' \<le> q')"
  proof (cases "k' = k")
    case False
    then show ?thesis
      using dist rs by (auto simp: map_of_note_qos)
  next
    case True
    show ?thesis
    proof (cases "map_of rs k")
      case None
      then have "(k, r) \<notin> hits" for r
        using resolves_to_keys [OF assms] by (force simp: map_of_eq_None_iff)
      then show ?thesis
        using True None by (auto simp: map_of_note_qos)
    next
      case (Some m)
      then have "(k, m) \<in> hits" "\<And>r. (k, r) \<in> hits \<Longrightarrow> r \<le> m"
        using dist rs by (auto simp: map_of_eq_Some_iff)
      then show ?thesis
        using True Some by (auto simp: map_of_note_qos max_def intro: order.trans antisym)
    qed
  qed
  finally show "(k', q') \<in> set (note_qos k q rs) \<longleftrightarrow>
      (k', q') \<in> insert (k, q) hits \<and> (\<forall>q''. (k', q'') \<in> insert (k, q) hits \<longrightarrow> q'' \<le> q')" .
qed

lemma resolves_to_unique:
  "resolves_to hits rs \<Longrightarrow> resolves_to hits rs' \<Longrightarrow> set rs = set rs'"
  by (auto simp: resolves_to_def)

locale max_qos_resolver =
  fixes key :: "'item \<Rightarrow> 'k"
    and qos :: "'item \<Rightarrow> QoS"
    and selected :: "'item \<Rightarrow> bool result"
    and visit :: "('k \<times> QoS) list \<Rightarrow> 'item \<Rightarrow> ('k \<times> QoS) list result"
  assumes visit: "visit acc x =
     rbind (selected x) (\<lambda>m. Inr (if m then note_qos (key x) (qos x) acc else acc))"
begin

definition hits :: "'item set \<Rightarrow> ('k \<times> QoS) set" where
  "hits xs = (\<lambda>x. (key x, qos x)) ` {x \<in> xs. selected x = Inr True}"

lemma visit_all:
  assumes "\<And>x. x \<in> set xs \<Longrightarrow> \<exists>m. selected x = Inr m" "resolves_to h acc" "finite h"
  shows "\<exists>rs. fold_result visit acc xs = Inr rs \<and> resolves_to (h \<union> hits (set xs)) rs"
  using assms
proof (induction xs arbitrary: acc h)
  case Nil
  then show ?case
    by (simp add: hits_def)
next
  case (Cons x xs)
  obtain m where m: "selected x = Inr m"
    using Cons.prems(1) by auto
  let ?h = "if m then insert (key x, qos x) h else h"
  let ?acc = "if m then note_qos (key x) (qos x) acc else acc"
  have "resolves_to ?h ?acc" "finite ?h"
    using Cons.prems by (auto simp: resolves_to_note_qos)
  then obtain rs where rs: "fold_result visit ?acc xs = Inr rs" "resolves_to (?h \<union> hits (set xs)) rs"
    using Cons.IH [of ?h ?acc] Cons.prems(1) by auto
  have "?h \<union> hits (set xs) = h \<union> hits (set (x # xs))"
    using m by (auto simp: hits_def)
  moreover have "fold_result visit acc (x # xs) = fold_result visit ?acc xs"
    by (simp add: visit [of acc x] m)
  ultimately show ?case
    using rs by auto
qed

lemma resolve_correct:
  assumes "\<And>x. x \<in> set xs \<Longrightarrow> \<exists>m. selected x = Inr m"
  shows "\<exists>rs. fold_result visit [] xs = Inr rs \<and> resolves_to (hits (set xs)) rs"
  using visit_all [of xs "{}" "[]"] assms by simp

lemma resolve_order_irrelevant:
  assumes "\<And>x. x \<in> set xs \<Longrightarrow> \<exists>m. selected x = Inr m" "set ys = set xs"
    and "fold_result visit [] xs = Inr rs"
  shows "\<exists>rs'. fold_result visit [] ys = Inr rs' \<and> set rs' = set rs \<and> distinct (map fst rs')"
proof -
  have "resolves_to (hits (set xs)) rs"
    using resolve_correct [of xs] assms(1,3) by auto
  moreover obtain rs' where rs': "fold_result visit [] ys = Inr rs'" "resolves_to (hits (set xs)) rs'"
    using resolve_correct [of ys] assms(1,2) by auto
  ultimately show ?thesis
    using resolves_to_unique by (auto simp: resolves_to_def)
qed

end

section \<open>Subscriptions: the code\<close>

record subscription_container =
  sc_topic_filter :: string
  sc_maximum_qos :: QoS
  sc_client_id :: string

definition sc_matches :: "subscription_container \<Rightarrow> string \<Rightarrow> bool result" where
  "sc_matches s tpc = topic_filter_matches_topic (sc_topic_filter s) tpc"

definition topic_filter_matches_one_of :: "subscription_container \<Rightarrow> string list \<Rightarrow> bool" where
  "topic_filter_matches_one_of s filters \<longleftrightarrow> sc_topic_filter s \<in> set filters"

text \<open>\<^verbatim>\<open>emplace\<close> into the set adds the element unless an equal one is there.\<close>

definition emplace :: "'a \<Rightarrow> 'a list \<Rightarrow> 'a list" where
  "emplace x xs = (if x \<in> set xs then xs else xs @ [x])"

definition subscribe_client ::
  "subscription_container list \<Rightarrow> string \<Rightarrow> subscribe \<Rightarrow> subscription_container list \<times> suback" where
  "subscribe_client subs cid s =
     (foldl (\<lambda>subs subscr.
         emplace \<lparr>sc_topic_filter = topic_filter subscr, sc_maximum_qos = maximum_qos subscr,
                  sc_client_id = cid\<rparr> subs)
       subs (subscriptions s),
      subscribe_succeed s)"

definition unsubscribe_client ::
  "subscription_container list \<Rightarrow> string \<Rightarrow> unsubscribe \<Rightarrow> subscription_container list \<times> unsuback" where
  "unsubscribe_client subs cid u =
     (List.filter (\<lambda>s. \<not> topic_filter_matches_one_of s (topic_filters u)) subs, unsubscribe_ack u)"

type_synonym resolved_subscriber = "string \<times> QoS"

definition resolve_visit ::
  "string \<Rightarrow> resolved_subscriber list \<Rightarrow> subscription_container \<Rightarrow> resolved_subscriber list result" where
  "resolve_visit tpc resolved s =
     rbind (sc_matches s tpc) (\<lambda>m.
     if \<not> m then Inr resolved else Inr (note_qos (sc_client_id s) (sc_maximum_qos s) resolved))"

definition resolve_subscribers ::
  "subscription_container list \<Rightarrow> publish \<Rightarrow> resolved_subscriber list result" where
  "resolve_subscribers subs p = fold_result (resolve_visit (topic p)) [] subs"

section \<open>Subscriptions: properties\<close>

text \<open>The invariant: a set of subscriptions with filters that passed validation.\<close>

definition subscriptions_ok :: "subscription_container list \<Rightarrow> bool" where
  "subscriptions_ok subs \<longleftrightarrow> distinct subs \<and> (\<forall>s \<in> set subs. well_formed_filter (sc_topic_filter s))"

lemma set_emplace [simp]: "set (emplace x xs) = insert x (set xs)"
  by (auto simp: emplace_def)

lemma distinct_emplace [simp]: "distinct (emplace x xs) = distinct xs"
  by (auto simp: emplace_def)

lemma foldl_emplace:
  "set (foldl (\<lambda>xs y. emplace (f y) xs) xs ys) = set xs \<union> f ` set ys"
  "distinct (foldl (\<lambda>xs y. emplace (f y) xs) xs ys) = distinct xs"
  by (induction ys arbitrary: xs) auto

lemma set_subscribe_client:
  "set (fst (subscribe_client subs cid s)) = set subs \<union>
     (\<lambda>subscr. \<lparr>sc_topic_filter = topic_filter subscr, sc_maximum_qos = maximum_qos subscr,
                sc_client_id = cid\<rparr>) ` set (subscriptions s)"
  by (simp add: subscribe_client_def foldl_emplace)

lemma subscriptions_ok_subscribe:
  assumes "subscriptions_ok subs" "\<forall>x \<in> set (subscriptions s). well_formed_filter (topic_filter x)"
  shows "subscriptions_ok (fst (subscribe_client subs cid s))"
  using assms unfolding subscriptions_ok_def set_subscribe_client
  by (auto simp: subscribe_client_def foldl_emplace)

lemma subscriptions_ok_unsubscribe:
  "subscriptions_ok subs \<Longrightarrow> subscriptions_ok (fst (unsubscribe_client subs cid u))"
  by (auto simp: subscriptions_ok_def unsubscribe_client_def)

lemma topic_filter_matches_topic_total:
  "f \<noteq> [] \<Longrightarrow> \<exists>m. topic_filter_matches_topic f t = Inr m"
  by (simp add: topic_filter_matches_topic_eq)

lemma sc_matches_total:
  "subscriptions_ok subs \<Longrightarrow> s \<in> set subs \<Longrightarrow> \<exists>m. sc_matches s t = Inr m"
  by (simp add: sc_matches_def subscriptions_ok_def well_formed_filter_def
      topic_filter_matches_topic_total)

interpretation subscribers: max_qos_resolver sc_client_id sc_maximum_qos "\<lambda>s. sc_matches s tpc"
    "resolve_visit tpc" for tpc
  by unfold_locales (auto simp: resolve_visit_def intro!: rbind_cong)

section \<open>Retained messages: the code\<close>

type_synonym retained_messages = "(string \<times> publish) list"

definition retain :: "publish \<Rightarrow> retained_messages \<Rightarrow> retained_messages result" where
  "retain p messages =
     rbind (cpp_assert (publish_retain p)) (\<lambda>_.
     Inr (if length (application_message p) > 0 then AList.update (topic p) p messages
          else AList.delete (topic p) messages))"

text \<open>
  The code compares \<^verbatim>\<open>shared_ptr\<close>s to recognise a publication already resolved; each entry of the map
  is a pointer of its own, so the entry stands for it.
\<close>

definition messages_for_visit ::
  "((string \<times> publish) \<times> QoS) list \<Rightarrow> (string \<times> publish) \<times> subscription
   \<Rightarrow> ((string \<times> publish) \<times> QoS) list result" where
  "messages_for_visit resolved = (\<lambda>(topic_publish, subscr).
     rbind (topic_filter_matches_topic (topic_filter subscr) (fst topic_publish)) (\<lambda>m.
     if \<not> m then Inr resolved else Inr (note_qos topic_publish (maximum_qos subscr) resolved)))"

definition messages_for :: "retained_messages \<Rightarrow> subscribe \<Rightarrow> (publish \<times> QoS) list result" where
  "messages_for messages s =
     rbind (fold_result (\<lambda>resolved topic_publish.
              fold_result (\<lambda>resolved subscr. messages_for_visit resolved (topic_publish, subscr))
                resolved (subscriptions s)) [] messages) (\<lambda>resolved.
     Inr (map (\<lambda>(topic_publish, qos). (snd topic_publish, qos)) resolved))"

definition retained_size :: "retained_messages \<Rightarrow> nat" where
  "retained_size messages = length messages"

section \<open>Retained messages: properties\<close>

text \<open>The invariant: one retained publication per topic, filed under its own topic, not empty.\<close>

definition retained_ok :: "retained_messages \<Rightarrow> bool" where
  "retained_ok messages \<longleftrightarrow> distinct (map fst messages) \<and>
     (\<forall>(t, p) \<in> set messages. topic p = t \<and> application_message p \<noteq> [] \<and> publish_retain p)"

interpretation retained: max_qos_resolver fst "\<lambda>x. maximum_qos (snd x)"
    "\<lambda>x. topic_filter_matches_topic (topic_filter (snd x)) (fst (fst x))" messages_for_visit
  by unfold_locales (auto simp: messages_for_visit_def case_prod_unfold intro!: rbind_cong)

lemma retained_ok_distinct: "retained_ok messages \<Longrightarrow> distinct (map fst messages)"
  by (simp add: retained_ok_def)

lemma map_of_retain:
  assumes "retain p messages = Inr messages'" "retained_ok messages"
  shows "map_of messages' t =
    (if t = topic p then (if application_message p = [] then None else Some p) else map_of messages t)"
  using assms
  by (auto simp: retain_def result_simps update_conv' delete_conv')

lemma retained_ok_retain:
  assumes "retain p messages = Inr messages'" "retained_ok messages"
  shows "retained_ok messages'"
proof -
  have dist: "distinct (map fst messages')"
    using assms by (auto simp: retain_def result_simps retained_ok_def distinct_update distinct_delete)
  have "topic p' = t \<and> application_message p' \<noteq> [] \<and> publish_retain p'" if "(t, p') \<in> set messages'" for t p'
  proof -
    have "map_of messages' t = Some p'"
      using that dist by simp
    then show ?thesis
      using assms map_of_retain [OF assms, of t]
      by (auto simp: retain_def result_simps retained_ok_def split: if_splits dest!: map_of_SomeD)
  qed
  with dist show ?thesis
    by (auto simp: retained_ok_def)
qed

lemma max_of_iff:
  "finite A \<Longrightarrow> q \<in> A \<and> (\<forall>q' \<in> A. q' \<le> q) \<longleftrightarrow> A \<noteq> {} \<and> q = Max (A :: QoS set)"
  by (auto intro: Max_in Max_eqI [symmetric])

section \<open>Properties\<close>

text \<open>
  C21. The order in which the hash set is iterated does not matter: resolving the subscribers of a
  publication never fails, names every client once, and yields the same clients with the same
  qualities of service for any other order of the subscriptions.
\<close>

theorem resolution_is_independent_of_hash_order:
  assumes "subscriptions_ok subs" "distinct subs'" "set subs' = set subs"
  shows "\<exists>rs rs'. resolve_subscribers subs p = Inr rs \<and> resolve_subscribers subs' p = Inr rs' \<and>
    distinct (map fst rs) \<and> distinct (map fst rs') \<and> set rs' = set rs"
proof -
  obtain rs where rs: "fold_result (resolve_visit (topic p)) [] subs = Inr rs" "distinct (map fst rs)"
    using subscribers.resolve_correct [of subs "topic p"] sc_matches_total [OF assms(1)]
    by (auto simp: resolves_to_def)
  then show ?thesis
    using subscribers.resolve_order_irrelevant [of subs "topic p" subs' rs]
      sc_matches_total [OF assms(1)] assms(3) by (auto simp: resolve_subscribers_def)
qed

theorem resolution_is_independent_of_hash_order_witness:
  "\<exists>rs. resolve_subscribers
     [\<lparr>sc_topic_filter = ''a'', sc_maximum_qos = AT_MOST_ONCE, sc_client_id = ''x''\<rparr>,
      \<lparr>sc_topic_filter = ''+'', sc_maximum_qos = EXACTLY_ONCE, sc_client_id = ''x''\<rparr>]
     \<lparr>type_and_flags = 0x30, remaining_length = 3, topic = ''a'', packet_identifier = 0,
      application_message = []\<rparr> = Inr rs \<and> distinct (map fst rs)"
  using resolution_is_independent_of_hash_order
    [of "[\<lparr>sc_topic_filter = ''a'', sc_maximum_qos = AT_MOST_ONCE, sc_client_id = ''x''\<rparr>,
          \<lparr>sc_topic_filter = ''+'', sc_maximum_qos = EXACTLY_ONCE, sc_client_id = ''x''\<rparr>]"
        "[\<lparr>sc_topic_filter = ''+'', sc_maximum_qos = EXACTLY_ONCE, sc_client_id = ''x''\<rparr>,
          \<lparr>sc_topic_filter = ''a'', sc_maximum_qos = AT_MOST_ONCE, sc_client_id = ''x''\<rparr>]"
        "\<lparr>type_and_flags = 0x30, remaining_length = 3, topic = ''a'', packet_identifier = 0,
          application_message = []\<rparr>"]
  by (auto simp: subscriptions_ok_def well_formed_filter_def plain_level_def)

text \<open>
  C22. What SUBSCRIBE and UNSUBSCRIBE do to the set of subscriptions. SUBSCRIBE adds one entry per
  filter and quality of service, next to an entry of the same client for the same filter with another
  quality of service, which MQTT-3.8.4-3 wants replaced. UNSUBSCRIBE removes the entries for its
  filters of every client, not only those of the client that sent it.
\<close>

theorem subscribing_and_unsubscribing:
  "set (fst (subscribe_client subs cid s)) = set subs \<union>
     (\<lambda>x. \<lparr>sc_topic_filter = topic_filter x, sc_maximum_qos = maximum_qos x, sc_client_id = cid\<rparr>) `
       set (subscriptions s) \<and>
   return_codes (snd (subscribe_client subs cid s)) = map (suback_code_for \<circ> maximum_qos) (subscriptions s) \<and>
   set (fst (unsubscribe_client subs cid u)) =
     {x \<in> set subs. sc_topic_filter x \<notin> set (topic_filters u)}"
  by (simp add: set_subscribe_client)
    (simp add: subscribe_client_def subscribe_succeed_def unsubscribe_client_def
      topic_filter_matches_one_of_def new_packet_defs comp_def)

definition matching_qos :: "subscribe \<Rightarrow> publish \<Rightarrow> QoS set" where
  "matching_qos s m = {maximum_qos x |x. x \<in> set (subscriptions s) \<and>
     topic_filter_matches_topic (topic_filter x) (topic m) = Inr True}"

lemma finite_matching_qos: "finite (matching_qos s m)"
  by (simp add: matching_qos_def)

lemma retained_ok_topic: "retained_ok messages \<Longrightarrow> (t, m) \<in> set messages \<Longrightarrow> t = topic m"
  by (auto simp: retained_ok_def)

lemma retained_matches:
  assumes "retained_ok messages" "\<forall>x \<in> set (subscriptions s). well_formed_filter (topic_filter x)"
  shows "\<exists>rs. fold_result messages_for_visit [] (List.product messages (subscriptions s)) = Inr rs \<and>
    distinct (map fst rs) \<and>
    (\<forall>t m q. ((t, m), q) \<in> set rs \<longleftrightarrow>
       (t, m) \<in> set messages \<and> matching_qos s m \<noteq> {} \<and> q = Max (matching_qos s m))"
proof -
  let ?items = "List.product messages (subscriptions s)"
  have total: "\<exists>m. topic_filter_matches_topic (topic_filter (snd x)) (fst (fst x)) = Inr m"
    if "x \<in> set ?items" for x
    using assms(2) that by (intro topic_filter_matches_topic_total) (auto simp: well_formed_filter_def)
  obtain rs where rs: "fold_result messages_for_visit [] ?items = Inr rs"
    "resolves_to (retained.hits (set ?items)) rs"
    using retained.resolve_correct [of ?items, OF total] by blast
  have hits: "((t, m), q) \<in> retained.hits (set ?items) \<longleftrightarrow> (t, m) \<in> set messages \<and> q \<in> matching_qos s m" for t m q
    unfolding retained.hits_def matching_qos_def using retained_ok_topic [OF assms(1)] by force
  have r: "\<And>k q. (k, q) \<in> set rs \<longleftrightarrow> (k, q) \<in> retained.hits (set ?items) \<and>
      (\<forall>q'. (k, q') \<in> retained.hits (set ?items) \<longrightarrow> q' \<le> q)"
    by (rule resolves_toD [OF rs(2)])
  have "((t, m), q) \<in> set rs \<longleftrightarrow> (t, m) \<in> set messages \<and> matching_qos s m \<noteq> {} \<and> q = Max (matching_qos s m)" for t m q
  proof -
    have "((t, m), q) \<in> set rs \<longleftrightarrow>
        (t, m) \<in> set messages \<and> q \<in> matching_qos s m \<and> (\<forall>q' \<in> matching_qos s m. q' \<le> q)"
      unfolding r hits by (simp only: Ball_def) (iprover)
    then show ?thesis
      using max_of_iff [OF finite_matching_qos [of s m]] by simp
  qed
  then show ?thesis
    using rs by (auto simp: resolves_to_def)
qed

lemma distinct_second:
  assumes "distinct (map fst rs)" "\<And>t m q. ((t, m), q) \<in> set rs \<Longrightarrow> t = g m"
  shows "distinct (map fst (map (\<lambda>((t, m), q). (m, q)) rs))"
  using assms
proof (induction rs)
  case (Cons r rs)
  obtain t m q where r: "r = ((t, m), q)"
    by (cases r) auto
  have "m \<noteq> m'" if "((t', m'), q') \<in> set rs" for t' m' q'
  proof
    assume "m = m'"
    moreover have "t = g m" "t' = g m'"
      using Cons.prems(2) [of t m q] Cons.prems(2) [of t' m' q'] that r by simp_all
    ultimately have "(t, m) \<in> fst ` set rs"
      using that by force
    then show False
      using Cons.prems(1) r by simp
  qed
  moreover have "distinct (map fst (map (\<lambda>((t, m), q). (m, q)) rs))"
  proof (rule Cons.IH)
    show "distinct (map fst rs)"
      using Cons.prems(1) by simp
    show "t = g m" if "((t, m), q) \<in> set rs" for t m q
      using Cons.prems(2) [of t m q] that by simp
  qed
  ultimately show ?case
    using r by force
qed simp

text \<open>
  C23. Retained messages: storing one replaces the message of its topic and no other, an empty payload
  deletes it; and a new subscription gets every retained message whose topic one of its filters
  matches, each once, with the highest quality of service of the matching filters.
\<close>

theorem retained_messages_are_found:
  assumes "retained_ok messages" "retain p messages = Inr messages'"
    and "\<forall>x \<in> set (subscriptions s). well_formed_filter (topic_filter x)"
  shows "retained_ok messages' \<and>
    (\<forall>t. map_of messages' t =
       (if t = topic p then if application_message p = [] then None else Some p else map_of messages t)) \<and>
    (\<exists>ps. messages_for messages' s = Inr ps \<and> distinct (map fst ps) \<and>
       (\<forall>m q. (m, q) \<in> set ps \<longleftrightarrow>
          (let qs = {maximum_qos x |x. x \<in> set (subscriptions s) \<and>
                      topic_filter_matches_topic (topic_filter x) (topic m) = Inr True}
           in map_of messages' (topic m) = Some m \<and> qs \<noteq> {} \<and> q = Max qs)))"
proof -
  have ok: "retained_ok messages'"
    using retained_ok_retain [OF assms(2,1)] .
  obtain rs where rs: "fold_result messages_for_visit [] (List.product messages' (subscriptions s)) = Inr rs"
    "distinct (map fst rs)"
    and mem: "\<And>t m q. ((t, m), q) \<in> set rs \<longleftrightarrow>
      (t, m) \<in> set messages' \<and> matching_qos s m \<noteq> {} \<and> q = Max (matching_qos s m)"
    using retained_matches [OF ok assms(3)] by blast
  define ps where "ps = map (\<lambda>((t, m), q). (m, q)) rs"
  have lookup: "(topic m, m) \<in> set messages' \<longleftrightarrow> map_of messages' (topic m) = Some m" for m
    using ok by (simp add: retained_ok_def)
  have ps: "(m, q) \<in> set ps \<longleftrightarrow> map_of messages' (topic m) = Some m \<and> matching_qos s m \<noteq> {} \<and> q = Max (matching_qos s m)"
    for m q
  proof -
    have "(m, q) \<in> set ps \<longleftrightarrow> (\<exists>t. ((t, m), q) \<in> set rs)"
      by (force simp: ps_def)
    then show ?thesis
      unfolding mem lookup [symmetric] using retained_ok_topic [OF ok] by blast
  qed
  have "distinct (map fst ps)"
    unfolding ps_def using mem retained_ok_topic [OF ok] by (intro distinct_second [OF rs(2)]) blast
  moreover have "messages_for messages' s = Inr ps"
    using rs(1) by (simp add: messages_for_def fold_result_nested ps_def case_prod_unfold)
  ultimately show ?thesis
    using ok map_of_retain [OF assms(2,1)] ps by (auto simp: Let_def matching_qos_def)
qed

theorem retained_messages_are_found_witness:
  "\<exists>messages'. retain \<lparr>type_and_flags = 0x31, remaining_length = 4, topic = ''a'', packet_identifier = 0,
      application_message = [7]\<rparr> [] = Inr messages' \<and> retained_ok messages' \<and>
    (\<exists>ps. messages_for messages' (new_subscribe 6 1 [\<lparr>topic_filter = ''+'', maximum_qos = AT_LEAST_ONCE\<rparr>]) = Inr ps)"
proof -
  let ?p = "\<lparr>type_and_flags = 0x31, remaining_length = 4, topic = ''a'', packet_identifier = 0,
      application_message = [7]\<rparr> :: publish"
  let ?s = "new_subscribe 6 1 [\<lparr>topic_filter = ''+'', maximum_qos = AT_LEAST_ONCE\<rparr>]"
  have "retain ?p [] = Inr [(''a'', ?p)]"
    by (simp add: retain_def publish_retain_def retain_of_def)
  moreover have "retained_ok []"
    by (simp add: retained_ok_def)
  moreover have "\<forall>x \<in> set (subscriptions ?s). well_formed_filter (topic_filter x)"
    by (simp add: new_subscribe_def well_formed_filter_def)
  ultimately show ?thesis
    using retained_messages_are_found [of "[]" ?p "[(''a'', ?p)]" ?s] by blast
qed

end
