(* ===== verification/Client_Sessions.thy ===== *)
theory Client_Sessions
  imports Tx_Publications Rx_Publications Topic_Subscriptions
begin

text \<open>
  Client sessions and their manager: \<^verbatim>\<open>dispatch/mqtt_client_session.cpp\<close>,
  \<^verbatim>\<open>dispatch/mqtt_client_session_manager.cpp\<close>, and the packet dispatcher \<^verbatim>\<open>dispatch/dispatcher.cpp\<close>.
  Every operation gets the state of the manager and returns it updated, with the effects on the
  connections in order. A connection is a number; \<open>alive\<close> says which connections a
  \<^verbatim>\<open>weak_ptr::lock( )\<close> still finds during the operation. The one network thread of the server
  (\<^verbatim>\<open>network_service_pool_\<close> has the default size 1) runs one operation at a time.

  A PUBLISH packet is shared: sending it with quality of service 0 writes into it. Operations that
  may do so return the packet as they leave it, and a retained packet is written back to its entry.
\<close>

section \<open>Sessions\<close>

type_synonym conn = nat
type_synonym effects = "(conn \<times> action) list"

definition to_conn :: "conn \<Rightarrow> action list \<Rightarrow> effects" where
  "to_conn c acts = map (Pair c) acts"

record client_session =
  session_client_id :: string
  session_connection :: conn
  session_lwt :: "connect option"
  session_tx :: tx_in_flight
  session_rx :: rx_in_flight

definition new_client_session :: "connect \<Rightarrow> conn \<Rightarrow> client_session" where
  "new_client_session con c =
     \<lparr>session_client_id = client_id con, session_connection = c,
      session_lwt = (if connect_contains_last_will con then Some con else None),
      session_tx = new_tx_in_flight, session_rx = Map.empty\<rparr>"

record session_manager =
  sm_sessions :: "string \<rightharpoonup> client_session"
  sm_subscriptions :: "subscription_container list"
  sm_retained :: retained_messages

definition new_session_manager :: session_manager where
  "new_session_manager = \<lparr>sm_sessions = Map.empty, sm_subscriptions = [], sm_retained = []\<rparr>"

text \<open>
  A session is reached through its entry in the store. An operation that still holds a session whose
  entry is gone finds its connection gone too, so nothing of its state is needed any more.
\<close>

definition put_session :: "string \<Rightarrow> client_session \<Rightarrow> session_manager \<Rightarrow> session_manager" where
  "put_session cid s sm = sm\<lparr>sm_sessions := (sm_sessions sm)(cid \<mapsto> s)\<rparr>"

definition sm_destroy :: "string \<Rightarrow> session_manager \<Rightarrow> session_manager" where
  "sm_destroy cid sm = sm\<lparr>sm_sessions := (sm_sessions sm)(cid := None)\<rparr>"

definition sm_destroy_all :: "session_manager \<Rightarrow> session_manager" where
  "sm_destroy_all sm = sm\<lparr>sm_sessions := Map.empty\<rparr>"

section \<open>Operations of one session\<close>

text \<open>
  \<^verbatim>\<open>mqtt_client_session::send\<close>: if the connection has gone away the session destroys itself.
\<close>

definition session_send ::
  "(conn \<Rightarrow> bool) \<Rightarrow> string \<Rightarrow> client_session \<Rightarrow> mqtt_packet \<Rightarrow> session_manager
   \<Rightarrow> session_manager \<times> effects" where
  "session_send alive cid s p sm =
     (if alive (session_connection s) then (sm, to_conn (session_connection s) [Send p])
      else (sm_destroy (session_client_id s) sm, []))"

definition session_publish ::
  "(conn \<Rightarrow> bool) \<Rightarrow> string \<Rightarrow> publish \<Rightarrow> QoS \<Rightarrow> session_manager
   \<Rightarrow> (session_manager \<times> publish \<times> effects) result" where
  "session_publish alive cid p q sm =
     (case sm_sessions sm cid of
        None \<Rightarrow> Inr (sm, p, [])
      | Some s \<Rightarrow>
          rbind (tx_publish (alive (session_connection s)) p q (session_tx s)) (\<lambda>(tx', p', acts).
          Inr (put_session cid (s\<lparr>session_tx := tx'\<rparr>) sm, p', to_conn (session_connection s) acts)))"

section \<open>Publishing to all subscribers\<close>

definition sm_publish ::
  "(conn \<Rightarrow> bool) \<Rightarrow> publish \<Rightarrow> session_manager \<Rightarrow> (session_manager \<times> publish \<times> effects) result" where
  "sm_publish alive p sm =
     rbind (resolve_subscribers (sm_subscriptions sm) p) (\<lambda>subscribers.
     fold_result (\<lambda>(sm, p, out) (cid, q).
         rbind (session_publish alive cid p q sm) (\<lambda>(sm', p', out'). Inr (sm', p', out @ out')))
       (sm, p, []) subscribers)"

text \<open>\<^verbatim>\<open>mqtt_client_session::client_sent_publish\<close>\<close>

definition session_client_sent_publish ::
  "(conn \<Rightarrow> bool) \<Rightarrow> string \<Rightarrow> client_session \<Rightarrow> publish \<Rightarrow> session_manager
   \<Rightarrow> (session_manager \<times> publish \<times> effects) result" where
  "session_client_sent_publish alive cid s p sm =
     rbind (rx_client_sent_publish (alive (session_connection s)) p (session_rx s))
       (\<lambda>(rx', acts, dispatch_publish).
     let sm = put_session cid (s\<lparr>session_rx := rx'\<rparr>) sm;
         out = to_conn (session_connection s) acts
     in if dispatch_publish then
          rbind (sm_publish alive p sm) (\<lambda>(sm', p', out'). Inr (sm', p', out @ out'))
        else Inr (sm, p, out))"

text \<open>
  \<^verbatim>\<open>mqtt_client_session::client_disconnected_ungracefully\<close>: the last will and testament. The optional
  fields are dereferenced without a test.
\<close>

definition publish_last_will ::
  "(conn \<Rightarrow> bool) \<Rightarrow> client_session \<Rightarrow> session_manager \<Rightarrow> (session_manager \<times> effects) result" where
  "publish_last_will alive s sm =
     (case session_lwt s of
        None \<Rightarrow> Inr (sm, [])
      | Some con \<Rightarrow>
          (case (will_topic con, will_message con) of
             (Some t, Some m) \<Rightarrow>
               rbind (publish_create False (connect_last_will_qos con) False t 0 m) (\<lambda>p.
               rbind (sm_publish alive p sm) (\<lambda>(sm', _, out). Inr (sm', out)))
           | _ \<Rightarrow> Inl Undefined_behaviour))"

section \<open>Operations of the manager\<close>

text \<open>
  \<^verbatim>\<open>session_store::insert\<close>: the key is the identifier the connection authenticated with;
  \<^verbatim>\<open>try_emplace\<close> keeps a session that is already there. The result tells whether one was stored.
\<close>

definition session_store_insert ::
  "(conn \<Rightarrow> bool) \<Rightarrow> (conn \<Rightarrow> string option) \<Rightarrow> connect \<Rightarrow> conn \<Rightarrow> session_manager
   \<Rightarrow> (session_manager \<times> bool) result" where
  "session_store_insert alive conn_client_id con c sm =
     (if \<not> alive c then Inr (sm, False)
      else case conn_client_id c of
             None \<Rightarrow> Inl Assertion_failed
           | Some cid \<Rightarrow>
               Inr (case sm_sessions sm cid of
                      None \<Rightarrow> (put_session cid (new_client_session con c) sm, True)
                    | Some _ \<Rightarrow> (sm, False)))"

definition sm_client_connected ::
  "(conn \<Rightarrow> bool) \<Rightarrow> (conn \<Rightarrow> string option) \<Rightarrow> connect \<Rightarrow> conn \<Rightarrow> session_manager
   \<Rightarrow> session_manager result" where
  "sm_client_connected alive conn_client_id con c sm =
     rbind (session_store_insert alive conn_client_id con c sm) (\<lambda>(sm', _). Inr sm')"

definition sm_client_disconnected :: "string \<Rightarrow> session_manager \<Rightarrow> session_manager" where
  "sm_client_disconnected cid sm = sm_destroy cid sm"

text \<open>
  After the SUBACK every matching retained message is published to the session. Its packet belongs
  to the entry of its topic.
\<close>

definition publish_retained ::
  "(conn \<Rightarrow> bool) \<Rightarrow> string \<Rightarrow> session_manager \<times> effects \<Rightarrow> publish \<times> QoS
   \<Rightarrow> (session_manager \<times> effects) result" where
  "publish_retained alive cid = (\<lambda>(sm, out) (p, q).
     rbind (cpp_assert (publish_retain p)) (\<lambda>_.
     rbind (session_publish alive cid p q sm) (\<lambda>(sm', p', out').
     Inr (sm'\<lparr>sm_retained := AList.update (topic p') p' (sm_retained sm')\<rparr>, out @ out'))))"

definition sm_client_subscribed ::
  "(conn \<Rightarrow> bool) \<Rightarrow> string \<Rightarrow> subscribe \<Rightarrow> session_manager \<Rightarrow> (session_manager \<times> effects) result" where
  "sm_client_subscribed alive cid subscr sm =
     (let (subs', sback) = subscribe_client (sm_subscriptions sm) cid subscr;
          sm = sm\<lparr>sm_subscriptions := subs'\<rparr>
      in case sm_sessions sm cid of
           None \<Rightarrow> Inr (sm, [])
         | Some s \<Rightarrow>
             let (sm, out) = session_send alive cid s (Suback sback) sm
             in rbind (messages_for (sm_retained sm) subscr) (\<lambda>matching.
                fold_result (publish_retained alive cid) (sm, out) matching))"

definition sm_client_unsubscribed ::
  "(conn \<Rightarrow> bool) \<Rightarrow> string \<Rightarrow> unsubscribe \<Rightarrow> session_manager \<Rightarrow> session_manager \<times> effects" where
  "sm_client_unsubscribed alive cid unsubscr sm =
     (let (subs', uback) = unsubscribe_client (sm_subscriptions sm) cid unsubscr;
          sm = sm\<lparr>sm_subscriptions := subs'\<rparr>
      in case sm_sessions sm cid of
           None \<Rightarrow> (sm, [])
         | Some s \<Rightarrow> session_send alive cid s (Unsuback uback) sm)"

definition sm_client_published ::
  "(conn \<Rightarrow> bool) \<Rightarrow> string \<Rightarrow> publish \<Rightarrow> session_manager \<Rightarrow> (session_manager \<times> effects) result" where
  "sm_client_published alive cid p sm =
     (case sm_sessions sm cid of
        None \<Rightarrow> Inr (sm, [])
      | Some s \<Rightarrow>
          if publish_retain p then
            rbind (session_client_sent_publish alive cid s (publish_set_retain False p) sm)
              (\<lambda>(sm', p', out).
            rbind (retain (publish_set_retain True p') (sm_retained sm')) (\<lambda>messages'.
            Inr (sm'\<lparr>sm_retained := messages'\<rparr>, out)))
          else rbind (session_client_sent_publish alive cid s p sm) (\<lambda>(sm', _, out). Inr (sm', out)))"

text \<open>The acknowledgements of a client; PUBACK, PUBREC and PUBCOMP all end in the same operation.\<close>

definition session_acked ::
  "(conn \<Rightarrow> bool) \<Rightarrow> string \<Rightarrow> publish_ack \<Rightarrow> session_manager \<Rightarrow> (session_manager \<times> effects) result" where
  "session_acked alive cid ack sm =
     (case sm_sessions sm cid of
        None \<Rightarrow> Inr (sm, [])
      | Some s \<Rightarrow>
          rbind (tx_ack_received (alive (session_connection s)) ack (session_tx s)) (\<lambda>(tx', acts).
          Inr (put_session cid (s\<lparr>session_tx := tx'\<rparr>) sm, to_conn (session_connection s) acts)))"

definition sm_client_acked_publish ::
  "(conn \<Rightarrow> bool) \<Rightarrow> string \<Rightarrow> publish_ack \<Rightarrow> session_manager \<Rightarrow> (session_manager \<times> effects) result" where
  "sm_client_acked_publish alive cid puback sm = session_acked alive cid puback sm"

definition sm_client_received_publish ::
  "(conn \<Rightarrow> bool) \<Rightarrow> string \<Rightarrow> publish_ack \<Rightarrow> session_manager \<Rightarrow> (session_manager \<times> effects) result" where
  "sm_client_received_publish alive cid pubrec sm = session_acked alive cid pubrec sm"

definition sm_client_completed_publish ::
  "(conn \<Rightarrow> bool) \<Rightarrow> string \<Rightarrow> publish_ack \<Rightarrow> session_manager \<Rightarrow> (session_manager \<times> effects) result" where
  "sm_client_completed_publish alive cid pubcomp sm = session_acked alive cid pubcomp sm"

definition sm_client_released_publish ::
  "(conn \<Rightarrow> bool) \<Rightarrow> string \<Rightarrow> publish_ack \<Rightarrow> session_manager \<Rightarrow> (session_manager \<times> effects) result" where
  "sm_client_released_publish alive cid pubrel sm =
     (case sm_sessions sm cid of
        None \<Rightarrow> Inr (sm, [])
      | Some s \<Rightarrow>
          rbind (rx_pubrel_received (alive (session_connection s)) pubrel (session_rx s)) (\<lambda>(rx', acts).
          Inr (put_session cid (s\<lparr>session_rx := rx'\<rparr>) sm, to_conn (session_connection s) acts)))"

definition sm_client_disconnected_ungracefully ::
  "(conn \<Rightarrow> bool) \<Rightarrow> string \<Rightarrow> session_manager \<Rightarrow> (session_manager \<times> effects) result" where
  "sm_client_disconnected_ungracefully alive cid sm =
     (case sm_sessions sm cid of
        None \<Rightarrow> Inr (sm, [])
      | Some s \<Rightarrow> publish_last_will alive s (sm_destroy cid sm))"

text \<open>
  The expiry of a timer of one of the session's publications. The callback keeps the connection it
  was created with, which is the session's.
\<close>

definition sm_tx_timeout ::
  "nat \<Rightarrow> string \<Rightarrow> u16 \<Rightarrow> session_manager \<Rightarrow> (session_manager \<times> effects) result" where
  "sm_tx_timeout max_retries cid k sm =
     (case sm_sessions sm cid of
        None \<Rightarrow> Inr (sm, [])
      | Some s \<Rightarrow>
          rbind (tx_timeout max_retries k (session_tx s)) (\<lambda>(tx', acts).
          Inr (put_session cid (s\<lparr>session_tx := tx'\<rparr>) sm, to_conn (session_connection s) acts)))"

definition sm_rx_timeout ::
  "nat \<Rightarrow> string \<Rightarrow> u16 \<Rightarrow> session_manager \<Rightarrow> (session_manager \<times> effects) result" where
  "sm_rx_timeout max_retries cid k sm =
     (case sm_sessions sm cid of
        None \<Rightarrow> Inr (sm, [])
      | Some s \<Rightarrow>
          rbind (rx_timeout max_retries k (session_rx s)) (\<lambda>(rx', acts).
          Inr (put_session cid (s\<lparr>session_rx := rx'\<rparr>) sm, to_conn (session_connection s) acts)))"

section \<open>The dispatcher\<close>

text \<open>
  \<^verbatim>\<open>dispatcher::handle_packet_received\<close>: a container holds the identifier of the client, the
  connection and the packet. The type bits select the branch, \<^verbatim>\<open>packet_as\<close> is a
  \<^verbatim>\<open>dynamic_pointer_cast\<close> whose null result would be dereferenced.
\<close>

record packet_container =
  pc_client_id :: string
  pc_connection :: conn
  pc_packet :: mqtt_packet

definition no_effects :: "session_manager result \<Rightarrow> (session_manager \<times> effects) result" where
  "no_effects r = rbind r (\<lambda>sm. Inr (sm, []))"

definition handle_packet_received ::
  "(conn \<Rightarrow> bool) \<Rightarrow> (conn \<Rightarrow> string option) \<Rightarrow> packet_container \<Rightarrow> session_manager
   \<Rightarrow> (session_manager \<times> effects) result" where
  "handle_packet_received alive conn_client_id pc sm =
     (let cid = pc_client_id pc in
      case packet_type (pc_packet pc) of
        CONNECT \<Rightarrow>
          (case pc_packet pc of
             Connect con \<Rightarrow>
               rbind (cpp_assert (\<not> connect_contains_last_will con \<or> \<not> connect_retain_last_will con)) (\<lambda>_.
               no_effects (sm_client_connected alive conn_client_id con (pc_connection pc) sm))
           | _ \<Rightarrow> Inl Undefined_behaviour)
      | DISCONNECT \<Rightarrow> Inr (sm_client_disconnected cid sm, [])
      | SUBSCRIBE \<Rightarrow>
          (case pc_packet pc of Subscribe p \<Rightarrow> sm_client_subscribed alive cid p sm
           | _ \<Rightarrow> Inl Undefined_behaviour)
      | UNSUBSCRIBE \<Rightarrow>
          (case pc_packet pc of Unsubscribe p \<Rightarrow> Inr (sm_client_unsubscribed alive cid p sm)
           | _ \<Rightarrow> Inl Undefined_behaviour)
      | PUBLISH \<Rightarrow>
          (case pc_packet pc of Publish p \<Rightarrow> sm_client_published alive cid p sm
           | _ \<Rightarrow> Inl Undefined_behaviour)
      | PUBACK \<Rightarrow>
          (case pc_packet pc of Puback p \<Rightarrow> sm_client_acked_publish alive cid p sm
           | _ \<Rightarrow> Inl Undefined_behaviour)
      | PUBREC \<Rightarrow>
          (case pc_packet pc of Pubrec p \<Rightarrow> sm_client_received_publish alive cid p sm
           | _ \<Rightarrow> Inl Undefined_behaviour)
      | PUBREL \<Rightarrow>
          (case pc_packet pc of Pubrel p \<Rightarrow> sm_client_released_publish alive cid p sm
           | _ \<Rightarrow> Inl Undefined_behaviour)
      | PUBCOMP \<Rightarrow>
          (case pc_packet pc of Pubcomp p \<Rightarrow> sm_client_completed_publish alive cid p sm
           | _ \<Rightarrow> Inl Undefined_behaviour)
      | _ \<Rightarrow> Inl Assertion_failed)"

definition dispatcher_client_disconnected_ungracefully ::
  "(conn \<Rightarrow> bool) \<Rightarrow> string \<Rightarrow> session_manager \<Rightarrow> (session_manager \<times> effects) result" where
  "dispatcher_client_disconnected_ungracefully alive cid sm =
     sm_client_disconnected_ungracefully alive cid sm"

definition dispatcher_stop :: "session_manager \<Rightarrow> session_manager" where
  "dispatcher_stop sm = sm_destroy_all sm"

end
