(* ===== verification/Session_Invariant.thy ===== *)
theory Session_Invariant
  imports Client_Sessions
begin

text \<open>
  The invariant of the session manager and its preservation by every operation: the stores of every
  session are consistent, all filters passed validation, every retained message is filed under its
  topic; and whatever is sent to a connection can be encoded.
\<close>

section \<open>The invariant\<close>

definition lwt_ok :: "connect \<Rightarrow> bool" where
  "lwt_ok con \<longleftrightarrow> (\<exists>t m. will_topic con = Some t \<and> will_message con = Some m \<and>
     length t \<le> 65535 \<and> length m \<le> 65535)"

definition session_ok :: "string \<Rightarrow> client_session \<Rightarrow> bool" where
  "session_ok cid s \<longleftrightarrow> session_client_id s = cid \<and> tx_ok (session_tx s) \<and> rx_ok (session_rx s) \<and>
     (\<forall>con. session_lwt s = Some con \<longrightarrow> lwt_ok con)"

definition sm_ok :: "session_manager \<Rightarrow> bool" where
  "sm_ok sm \<longleftrightarrow> (\<forall>cid s. sm_sessions sm cid = Some s \<longrightarrow> session_ok cid s) \<and>
     subscriptions_ok (sm_subscriptions sm) \<and> retained_ok (sm_retained sm) \<and>
     (\<forall>(t, p) \<in> set (sm_retained sm). forwardable p)"

definition good_effects :: "effects \<Rightarrow> bool" where
  "good_effects out \<longleftrightarrow> (\<forall>(c, a) \<in> set out. \<forall>p. a = Send p \<longrightarrow> sendable p)"

lemma good_effects_simps [simp]:
  "good_effects []" "good_effects (xs @ ys) \<longleftrightarrow> good_effects xs \<and> good_effects ys"
  by (auto simp: good_effects_def)

lemma good_effects_to_conn [simp]:
  "good_effects (to_conn c acts) \<longleftrightarrow> (\<forall>x \<in> set (sent acts). sendable x)"
  by (induction acts rule: sent.induct) (auto simp: good_effects_def to_conn_def)

lemma sm_ok_new: "sm_ok new_session_manager"
  by (simp add: sm_ok_def new_session_manager_def subscriptions_ok_def retained_ok_def)

lemma sm_ok_session: "sm_ok sm \<Longrightarrow> sm_sessions sm cid = Some s \<Longrightarrow> session_ok cid s"
  by (simp add: sm_ok_def)

lemma sm_ok_put_session: "sm_ok sm \<Longrightarrow> session_ok cid s \<Longrightarrow> sm_ok (put_session cid s sm)"
  by (simp add: sm_ok_def put_session_def)

lemma put_session_simps [simp]:
  "sm_subscriptions (put_session cid s sm) = sm_subscriptions sm"
  "sm_retained (put_session cid s sm) = sm_retained sm"
  "sm_sessions (put_session cid s sm) j = (if j = cid then Some s else sm_sessions sm j)"
  by (simp_all add: put_session_def)

lemma sm_ok_destroy [simp]: "sm_ok sm \<Longrightarrow> sm_ok (sm_destroy cid sm)"
  by (simp add: sm_ok_def sm_destroy_def)

lemma sm_ok_destroy_all [simp]: "sm_ok sm \<Longrightarrow> sm_ok (sm_destroy_all sm)"
  by (simp add: sm_ok_def sm_destroy_all_def)

lemma sm_ok_subscriptions:
  "sm_ok sm \<Longrightarrow> subscriptions_ok subs \<Longrightarrow> sm_ok (sm\<lparr>sm_subscriptions := subs\<rparr>)"
  by (simp add: sm_ok_def)

lemma sm_ok_retained:
  "sm_ok sm \<Longrightarrow> retained_ok ms \<Longrightarrow> (\<forall>(t, p) \<in> set ms. forwardable p) \<Longrightarrow>
   sm_ok (sm\<lparr>sm_retained := ms\<rparr>)"
  by (simp add: sm_ok_def)

lemma session_ok_update:
  "session_ok cid s \<Longrightarrow> tx_ok tx' \<Longrightarrow> session_ok cid (s\<lparr>session_tx := tx'\<rparr>)"
  "session_ok cid s \<Longrightarrow> rx_ok rx' \<Longrightarrow> session_ok cid (s\<lparr>session_rx := rx'\<rparr>)"
  by (simp_all add: session_ok_def)

lemma retained_ok_update:
  assumes "retained_ok ms" "application_message p \<noteq> []" "publish_retain p"
  shows "retained_ok (AList.update (topic p) p ms)"
proof -
  have dist: "distinct (map fst (AList.update (topic p) p ms))"
    using assms(1) by (simp add: retained_ok_def distinct_update)
  have "topic q = t \<and> application_message q \<noteq> [] \<and> publish_retain q"
    if "(t, q) \<in> set (AList.update (topic p) p ms)" for t q
  proof -
    have "map_of (AList.update (topic p) p ms) t = Some q"
      using that dist by simp
    then show ?thesis
      using assms by (auto simp: update_conv' retained_ok_def split: if_splits dest!: map_of_SomeD)
  qed
  with dist show ?thesis
    by (auto simp: retained_ok_def)
qed

lemma set_update_subset: "set (AList.update k v xs) \<subseteq> insert (k, v) (set xs)"
  by (induction xs) auto

lemma set_delete_subset: "set (AList.delete k xs) \<subseteq> set xs"
  by (auto simp: AList.delete_eq)

section \<open>Publishing\<close>

lemma session_publish_ok:
  assumes "session_publish alive cid p q sm = Inr (sm', p', out)" "sm_ok sm" "forwardable p"
  shows "sm_ok sm' \<and> forwardable p' \<and> same_publication p p' \<and> good_effects out \<and>
    sm_subscriptions sm' = sm_subscriptions sm \<and> sm_retained sm' = sm_retained sm"
proof (cases "sm_sessions sm cid")
  case None
  then show ?thesis
    using assms by (simp add: session_publish_def)
next
  case (Some s)
  then obtain tx' acts where tx: "tx_publish (alive (session_connection s)) p q (session_tx s) = Inr (tx', p', acts)"
    and sm': "sm' = put_session cid (s\<lparr>session_tx := tx'\<rparr>) sm" "out = to_conn (session_connection s) acts"
    using assms(1) by (auto simp: session_publish_def result_simps)
  have s: "session_ok cid s"
    using assms(2) Some by (rule sm_ok_session)
  then have "tx_ok (session_tx s)"
    by (simp add: session_ok_def)
  from tx_publish_ok [OF tx this assms(3)] s show ?thesis
    using sm' assms(2) by (auto intro!: sm_ok_put_session session_ok_update)
qed

lemma sm_publish_ok:
  assumes "sm_publish alive p sm = Inr (sm', p', out)" "sm_ok sm" "forwardable p"
  shows "sm_ok sm' \<and> forwardable p' \<and> same_publication p p' \<and> good_effects out \<and>
    sm_subscriptions sm' = sm_subscriptions sm \<and> sm_retained sm' = sm_retained sm"
proof -
  let ?P = "\<lambda>(sm', p', out). sm_ok sm' \<and> forwardable p' \<and> same_publication p p' \<and> good_effects out \<and>
    sm_subscriptions sm' = sm_subscriptions sm \<and> sm_retained sm' = sm_retained sm"
  let ?f = "\<lambda>(sm, p, out) (cid, q).
    rbind (session_publish alive cid p q sm) (\<lambda>(sm', p', out'). Inr (sm', p', out @ out'))"
  obtain subscribers where "fold_result ?f (sm, p, []) subscribers = Inr (sm', p', out)"
    using assms(1) by (auto simp: sm_publish_def result_simps)
  then have "?P (sm', p', out)"
  proof (rule fold_result_invariant [of _ _ _ _ ?P])
    show "?P (sm, p, [])"
      using assms(2,3) by simp
    fix acc x acc'
    assume "?P acc" "?f acc x = Inr acc'"
    then show "?P acc'"
      by (auto simp: result_simps split: prod.splits
          dest!: session_publish_ok intro: same_publication_trans)
  qed
  then show ?thesis
    by simp
qed

lemma session_client_sent_publish_ok:
  assumes "session_client_sent_publish alive cid s p sm = Inr (sm', p', out)"
    and "sm_ok sm" "sm_sessions sm cid = Some s" "forwardable p"
  shows "sm_ok sm' \<and> forwardable p' \<and> same_publication p p' \<and> good_effects out \<and>
    sm_subscriptions sm' = sm_subscriptions sm \<and> sm_retained sm' = sm_retained sm"
proof -
  have s: "session_ok cid s"
    using assms(2,3) by (rule sm_ok_session)
  obtain rx' acts d where rx: "rx_client_sent_publish (alive (session_connection s)) p (session_rx s) = Inr (rx', acts, d)"
    using assms(1) by (auto simp: session_client_sent_publish_def result_simps)
  have rx_ok: "rx_ok rx'" "\<forall>x \<in> set (sent acts). sendable x"
    using rx_client_sent_publish_ok [of "session_rx s" "alive (session_connection s)" p] rx s
    by (auto simp: session_ok_def)
  let ?sm = "put_session cid (s\<lparr>session_rx := rx'\<rparr>) sm"
  have sm: "sm_ok ?sm" "sm_subscriptions ?sm = sm_subscriptions sm" "sm_retained ?sm = sm_retained sm"
    using assms(2) s rx_ok(1) by (auto intro!: sm_ok_put_session session_ok_update)
  show ?thesis
  proof (cases d)
    case True
    then obtain out' where out': "sm_publish alive p ?sm = Inr (sm', p', out')"
      "out = to_conn (session_connection s) acts @ out'"
      using assms(1) rx by (auto simp: session_client_sent_publish_def Let_def result_simps)
    show ?thesis
      using sm_publish_ok [OF out'(1) sm(1) assms(4)] sm out'(2) rx_ok(2) by simp
  next
    case False
    then show ?thesis
      using assms(1,4) rx rx_ok(2) sm by (auto simp: session_client_sent_publish_def Let_def)
  qed
qed

lemma sm_client_published_ok:
  assumes "sm_client_published alive cid p sm = Inr (sm', out)" "sm_ok sm" "forwardable p"
  shows "sm_ok sm' \<and> good_effects out"
proof (cases "sm_sessions sm cid")
  case None
  then show ?thesis
    using assms by (simp add: sm_client_published_def)
next
  case (Some s)
  show ?thesis
  proof (cases "publish_retain p")
    case False
    then show ?thesis
      using assms Some session_client_sent_publish_ok [OF _ assms(2) Some assms(3)]
      by (auto simp: sm_client_published_def result_simps)
  next
    case True
    then obtain sm1 p1 ms where one: "session_client_sent_publish alive cid s (publish_set_retain False p) sm
        = Inr (sm1, p1, out)" "retain (publish_set_retain True p1) (sm_retained sm1) = Inr ms"
      "sm' = sm1\<lparr>sm_retained := ms\<rparr>"
      using assms(1) Some by (auto simp: sm_client_published_def result_simps)
    have ok: "sm_ok sm1" "forwardable p1" "good_effects out"
      using session_client_sent_publish_ok [OF one(1) assms(2) Some] assms(3) by auto
    have "retained_ok ms"
      using retained_ok_retain [OF one(2)] ok(1) by (simp add: sm_ok_def)
    moreover have "set ms \<subseteq> insert (topic p1, publish_set_retain True p1) (set (sm_retained sm1))"
      using one(2) set_update_subset [of "topic p1" "publish_set_retain True p1" "sm_retained sm1"]
        set_delete_subset [of "topic p1" "sm_retained sm1"]
      by (auto simp: retain_def result_simps split: if_splits)
    then have "\<forall>(t, q) \<in> set ms. forwardable q"
      using ok(1,2) by (auto simp: sm_ok_def)
    ultimately show ?thesis
      using ok one(3) by (simp add: sm_ok_retained)
  qed
qed

section \<open>Last will and testament\<close>

text \<open>
  No decoder checks the quality of service of a will. A will with the reserved one makes a packet that
  fails an assertion as soon as a session is to send it, and is lost otherwise.
\<close>

lemma publish_create_reserved:
  "\<exists>p. publish_create False QOS_RESERVED False t 0 m = Inr p \<and> header_type p = PUBLISH \<and>
     publish_qos p = QOS_RESERVED \<and> topic p = t"
  by (simp add: publish_create_def new_publish_def header_type_def publish_accessor_defs Let_def
      type_into_def dup_into_def qos_into_def retain_into_def type_of_def qos_of_def)

definition deliverable :: "(conn \<Rightarrow> bool) \<Rightarrow> session_manager \<Rightarrow> string \<times> QoS \<Rightarrow> bool" where
  "deliverable alive sm = (\<lambda>(cid, q). q \<noteq> QOS_RESERVED \<and>
     (\<exists>s. sm_sessions sm cid = Some s \<and> alive (session_connection s)))"

lemma session_publish_reserved:
  assumes "header_type p = PUBLISH" "publish_qos p = QOS_RESERVED"
  shows "session_publish alive cid p q sm =
    (if deliverable alive sm (cid, q) then Inl Assertion_failed else Inr (sm, p, []))"
proof (cases "sm_sessions sm cid")
  case (Some s)
  obtain p' where p': "with_new_packet_identifier (fst (next_packet_identifier (session_tx s))) p = Inr p'"
    "publish_qos p' = QOS_RESERVED"
    using with_new_packet_identifier_ok [OF assms(1)] publish_wf_new_identifier assms(2) by metis
  have fails: "publish_set_qos q' x = Inl Assertion_failed" if "publish_qos x = QOS_RESERVED" for q' x
    using that by (simp add: publish_set_qos_def Let_def)
  have "put_session cid s sm = sm"
    using Some by (simp add: put_session_def fun_upd_idem)
  then show ?thesis
    using Some p' assms(2) by (cases q)
      (auto simp: session_publish_def tx_publish_def deliverable_def publish_using_qos0_def
        publish_using_qos1_def publish_using_qos2_def new_qos1_tx_def new_qos2_tx_def fails to_conn_def
        split: prod.splits)
qed (simp add: session_publish_def deliverable_def)

lemma sm_publish_reserved:
  assumes "header_type p = PUBLISH" "publish_qos p = QOS_RESERVED"
    and "resolve_subscribers (sm_subscriptions sm) p = Inr rs"
  shows "sm_publish alive p sm =
    (if \<exists>r \<in> set rs. deliverable alive sm r then Inl Assertion_failed else Inr (sm, p, []))"
proof -
  have "fold_result (\<lambda>(sm, p, out) (cid, q).
         rbind (session_publish alive cid p q sm) (\<lambda>(sm', p', out'). Inr (sm', p', out @ out')))
       (sm, p, []) rs =
    (if \<exists>r \<in> set rs. deliverable alive sm r then Inl Assertion_failed else Inr (sm, p, []))"
    by (induction rs) (auto simp: session_publish_reserved [OF assms(1,2)])
  then show ?thesis
    using assms(3) by (simp add: sm_publish_def)
qed

lemma resolve_subscribers_total:
  assumes "sm_ok sm"
  shows "\<exists>rs. resolve_subscribers (sm_subscriptions sm) p = Inr rs"
  unfolding resolve_subscribers_def
  using subscribers.resolve_correct [of "sm_subscriptions sm" "topic p"]
    sc_matches_total [of "sm_subscriptions sm"] assms by (auto simp: sm_ok_def)

lemma publish_last_will_ok:
  assumes "publish_last_will alive s sm = Inr (sm', out)" "sm_ok sm" "session_ok cid s"
  shows "sm_ok sm' \<and> good_effects out"
proof (cases "session_lwt s")
  case None
  then show ?thesis
    using assms by (simp add: publish_last_will_def)
next
  case (Some con)
  then have "lwt_ok con"
    using assms(3) by (simp add: session_ok_def)
  then obtain t m where con: "will_topic con = Some t"
    "will_message con = Some m" "length t \<le> 65535" "length m \<le> 65535"
    by (auto simp: lwt_ok_def)
  show ?thesis
  proof (cases "connect_last_will_qos con = QOS_RESERVED")
    case True
    obtain p where p: "publish_create False QOS_RESERVED False t 0 m = Inr p" "header_type p = PUBLISH"
      "publish_qos p = QOS_RESERVED"
      using publish_create_reserved by blast
    obtain rs where "resolve_subscribers (sm_subscriptions sm) p = Inr rs"
      using resolve_subscribers_total [OF assms(2)] by blast
    from sm_publish_reserved [OF p(2,3) this] show ?thesis
      using assms(1,2) Some con p(1) True by (auto simp: publish_last_will_def result_simps split: if_splits)
  next
    case False
    obtain p where p: "publish_create False (connect_last_will_qos con) False t 0 m = Inr p" "publish_wf p"
      "topic p = t" "application_message p = m"
      using publish_create_wf [OF False, of t m False False 0] con(3,4) by auto
    then have fw: "forwardable p"
      using con by (simp add: forwardable_def)
    show ?thesis
      using assms(1) Some con p sm_publish_ok [OF _ assms(2) fw]
      by (auto simp: publish_last_will_def result_simps)
  qed
qed

lemma sm_client_disconnected_ungracefully_ok:
  assumes "sm_client_disconnected_ungracefully alive cid sm = Inr (sm', out)" "sm_ok sm"
  shows "sm_ok sm' \<and> good_effects out"
proof (cases "sm_sessions sm cid")
  case (Some s)
  then show ?thesis
    using assms sm_ok_session [OF assms(2) Some]
      publish_last_will_ok [of alive s "sm_destroy cid sm" sm' out cid]
    by (simp add: sm_client_disconnected_ungracefully_def)
qed (use assms in \<open>simp add: sm_client_disconnected_ungracefully_def\<close>)

section \<open>Subscribing\<close>

lemma messages_for_subset:
  assumes "messages_for ms s = Inr matching"
  shows "\<forall>(p, q) \<in> set matching. \<exists>t. (t, p) \<in> set ms"
proof -
  let ?f = "\<lambda>resolved topic_publish. fold_result
    (\<lambda>resolved subscr. messages_for_visit resolved (topic_publish, subscr)) resolved (subscriptions s)"
  obtain rs where rs: "fold_result ?f [] ms = Inr rs" "matching = map (\<lambda>(tp, q). (snd tp, q)) rs"
    using assms by (auto simp: messages_for_def result_simps)
  from rs(1) have "fst ` set rs \<subseteq> set ms"
    unfolding fold_result_nested
  proof (rule fold_result_invariant [of _ _ _ _ "\<lambda>rs. fst ` set rs \<subseteq> set ms"])
    fix acc x acc'
    assume x: "x \<in> set (List.product ms (subscriptions s))" "fst ` set acc \<subseteq> set ms"
      "messages_for_visit acc x = Inr acc'"
    have "fst x \<in> set ms"
      using x(1) by auto
    moreover have "acc' = acc \<or> acc' = note_qos (fst x) (maximum_qos (snd x)) acc"
      using x(3) by (auto simp: messages_for_visit_def case_prod_unfold result_simps split: if_splits)
    ultimately show "fst ` set acc' \<subseteq> set ms"
      using x(2) by (elim disjE) (simp_all add: keys_note_qos)
  qed simp
  then show ?thesis
    using rs(2) by force
qed

lemma publish_retained_ok:
  assumes "publish_retained alive cid (sm, out) (p, q) = Inr (sm', out')" "sm_ok sm" "good_effects out"
    and "forwardable p" "application_message p \<noteq> []" "publish_retain p"
  shows "sm_ok sm' \<and> good_effects out'"
proof -
  obtain sm2 p2 out2 where two: "session_publish alive cid p q sm = Inr (sm2, p2, out2)"
    "sm' = sm2\<lparr>sm_retained := AList.update (topic p2) p2 (sm_retained sm2)\<rparr>" "out' = out @ out2"
    using assms(1) by (auto simp: publish_retained_def result_simps)
  have p2: "sm_ok sm2" "forwardable p2" "same_publication p p2" "good_effects out2"
    using session_publish_ok [OF two(1)] assms(2,4) by auto
  have "retained_ok (AList.update (topic p2) p2 (sm_retained sm2))"
    using p2 assms(5,6) by (intro retained_ok_update) (auto simp: sm_ok_def same_publication_def)
  moreover have "\<forall>(t, q) \<in> set (AList.update (topic p2) p2 (sm_retained sm2)). forwardable q"
    using p2 set_update_subset [of "topic p2" p2 "sm_retained sm2"] by (auto simp: sm_ok_def)
  ultimately show ?thesis
    using p2 assms(3) two(2,3) by (simp add: sm_ok_retained)
qed

lemma sm_client_subscribed_ok:
  assumes "sm_client_subscribed alive cid subscr sm = Inr (sm', out)" "sm_ok sm"
    and "\<forall>x \<in> set (subscriptions subscr). well_formed_filter (topic_filter x)"
    and "length (subscriptions subscr) \<le> 268435453"
  shows "sm_ok sm' \<and> good_effects out"
proof -
  let ?sm = "sm\<lparr>sm_subscriptions := fst (subscribe_client (sm_subscriptions sm) cid subscr)\<rparr>"
  have sm: "sm_ok ?sm"
    using assms(2,3) by (intro sm_ok_subscriptions subscriptions_ok_subscribe) (auto simp: sm_ok_def)
  have sub: "snd (subscribe_client (sm_subscriptions sm) cid subscr) = subscribe_succeed subscr"
    by (simp add: subscribe_client_def)
  show ?thesis
  proof (cases "sm_sessions sm cid")
    case None
    then show ?thesis
      using assms(1) sm by (auto simp: sm_client_subscribed_def Let_def split: prod.splits)
  next
    case (Some s)
    let ?step = "session_send alive cid s (Suback (subscribe_succeed subscr)) ?sm"
    obtain matching where m: "messages_for (sm_retained (fst ?step)) subscr = Inr matching"
      "fold_result (publish_retained alive cid) ?step matching = Inr (sm', out)"
      using assms(1) Some sub by (auto simp: sm_client_subscribed_def Let_def result_simps split: prod.splits)
    have start: "sm_ok (fst ?step) \<and> good_effects (snd ?step)"
      using sm sendable_suback [OF assms(4)]
      by (auto simp: session_send_def simp del: sendable.simps)
    have entries: "forwardable p \<and> application_message p \<noteq> [] \<and> publish_retain p"
      if "(p, q) \<in> set matching" for p q
      using messages_for_subset [OF m(1)] that start by (fastforce simp: sm_ok_def retained_ok_def)
    let ?P = "\<lambda>(sm, out). sm_ok sm \<and> good_effects out"
    have "?P (sm', out)"
      using m(2)
    proof (rule fold_result_invariant [of _ _ _ _ ?P])
      show "?P ?step"
        using start by (simp add: case_prod_unfold)
      fix acc x acc'
      assume x: "x \<in> set matching" "?P acc" "publish_retained alive cid acc x = Inr acc'"
      obtain sm1 out1 p q sm2 out2 where eq: "acc = (sm1, out1)" "x = (p, q)" "acc' = (sm2, out2)"
        by (cases acc; cases x; cases acc')
      show "?P acc'"
        using publish_retained_ok [of alive cid sm1 out1 p q sm2 out2] entries [of p q] x by (simp add: eq)
    qed
    then show ?thesis
      by simp
  qed
qed

lemma sm_client_unsubscribed_ok:
  assumes "sm_ok sm"
  shows "sm_ok (fst (sm_client_unsubscribed alive cid u sm)) \<and>
    good_effects (snd (sm_client_unsubscribed alive cid u sm))"
proof -
  let ?sm = "sm\<lparr>sm_subscriptions := fst (unsubscribe_client (sm_subscriptions sm) cid u)\<rparr>"
  have "sm_ok ?sm"
    using assms by (intro sm_ok_subscriptions subscriptions_ok_unsubscribe) (auto simp: sm_ok_def)
  moreover have "snd (unsubscribe_client (sm_subscriptions sm) cid u) = new_unsuback (unsubscribe_packet_identifier u)"
    by (simp add: unsubscribe_client_def unsubscribe_ack_def)
  ultimately show ?thesis
    by (auto simp: sm_client_unsubscribed_def session_send_def Let_def simp del: sendable.simps
        split: prod.splits option.splits)
qed

section \<open>How operations can fail\<close>

text \<open>In a state that satisfies the invariant, the only failure is a failed assertion.\<close>

abbreviation asserts_only :: "'a result \<Rightarrow> bool" where
  "asserts_only \<equiv> fails_only (\<lambda>e. e = Assertion_failed)"

lemma asserts_only_tx_publish:
  "forwardable p \<Longrightarrow> asserts_only (tx_publish alive p q s)"
  by (simp add: fails_only_def tx_publish_fails_iff)

lemma asserts_only_session_publish:
  "forwardable p \<Longrightarrow> asserts_only (session_publish alive cid p q sm)"
  unfolding session_publish_def by (intro fails_intros asserts_only_tx_publish)

lemma asserts_only_resolve:
  assumes "subscriptions_ok subs"
  shows "asserts_only (resolve_subscribers subs p)"
proof -
  have "\<exists>rs. fold_result (resolve_visit (topic p)) [] subs = Inr rs"
    using subscribers.resolve_correct [of subs "topic p"] sc_matches_total [OF assms] by blast
  then show ?thesis
    by (auto simp: fails_only_def resolve_subscribers_def)
qed

lemma asserts_only_sm_publish:
  assumes "sm_ok sm" "forwardable p"
  shows "asserts_only (sm_publish alive p sm)"
proof -
  have "subscriptions_ok (sm_subscriptions sm)"
    using assms(1) by (simp add: sm_ok_def)
  then show ?thesis
    unfolding sm_publish_def
  proof (intro fails_intros asserts_only_resolve)
    fix subscribers
    let ?P = "\<lambda>(sm', p', out :: effects). sm_ok sm' \<and> forwardable p'"
    show "asserts_only (fold_result (\<lambda>(sm, p, out) (cid, q).
         rbind (session_publish alive cid p q sm) (\<lambda>(sm', p', out'). Inr (sm', p', out @ out')))
       (sm, p, []) subscribers)"
    proof (rule fails_only_fold [of ?P])
      show "?P (sm, p, [])"
        using assms by simp
    next
      fix acc x
      assume "?P acc"
      then show "asserts_only ((\<lambda>(sm, p, out) (cid, q). rbind (session_publish alive cid p q sm)
          (\<lambda>(sm', p', out'). Inr (sm', p', out @ out'))) acc x)"
        by (auto simp: case_prod_unfold intro!: fails_intros asserts_only_session_publish)
    next
      fix acc x acc'
      assume "?P acc" "(\<lambda>(sm, p, out) (cid, q). rbind (session_publish alive cid p q sm)
          (\<lambda>(sm', p', out'). Inr (sm', p', out @ out'))) acc x = Inr acc'"
      then show "?P acc'"
        by (auto simp: result_simps split: prod.splits dest!: session_publish_ok)
    qed
  qed
qed

lemma asserts_only_session_client_sent_publish:
  assumes "sm_ok sm" "sm_sessions sm cid = Some s" "forwardable p"
  shows "asserts_only (session_client_sent_publish alive cid s p sm)"
proof -
  have s: "session_ok cid s"
    using assms(1,2) by (rule sm_ok_session)
  obtain rx' acts b where rx: "rx_client_sent_publish (alive (session_connection s)) p (session_rx s) = Inr (rx', acts, b)"
    "rx_ok rx'"
    using rx_client_sent_publish_ok [of "session_rx s" "alive (session_connection s)" p] s
    by (auto simp: session_ok_def)
  have "sm_ok (put_session cid (s\<lparr>session_rx := rx'\<rparr>) sm)"
    using assms(1) s rx(2) by (intro sm_ok_put_session session_ok_update)
  then show ?thesis
    using assms(3) rx(1)
    by (auto simp: session_client_sent_publish_def Let_def intro!: fails_intros asserts_only_sm_publish)
qed

lemma asserts_only_sm_client_published:
  assumes "sm_ok sm" "forwardable p"
  shows "asserts_only (sm_client_published alive cid p sm)"
  unfolding sm_client_published_def
  using assms by (intro fails_intros asserts_only_session_client_sent_publish) (auto simp: retain_def intro!: fails_intros)

lemma messages_for_total:
  assumes "\<forall>x \<in> set (subscriptions s). well_formed_filter (topic_filter x)"
  shows "\<exists>ps. messages_for ms s = Inr ps"
proof -
  have "\<exists>m. topic_filter_matches_topic (topic_filter (snd x)) (fst (fst x)) = Inr m"
    if "x \<in> set (List.product ms (subscriptions s))" for x
    using assms that by (intro topic_filter_matches_topic_total) (auto simp: well_formed_filter_def)
  from retained.resolve_correct [of "List.product ms (subscriptions s)", OF this]
  show ?thesis
    by (auto simp: messages_for_def fold_result_nested)
qed

lemma session_send_ok:
  assumes "sm_ok sm" "sendable p"
  shows "sm_ok (fst (session_send alive cid s p sm))"
  using assms by (simp add: session_send_def)

lemma asserts_only_sm_client_subscribed:
  assumes "sm_ok sm" "\<forall>x \<in> set (subscriptions subscr). well_formed_filter (topic_filter x)"
    and "length (subscriptions subscr) \<le> 268435453"
  shows "asserts_only (sm_client_subscribed alive cid subscr sm)"
proof (cases "sm_sessions sm cid")
  case None
  then show ?thesis
    by (auto simp: sm_client_subscribed_def Let_def intro!: fails_intros split: prod.splits)
next
  case (Some s)
  let ?sm = "sm\<lparr>sm_subscriptions := fst (subscribe_client (sm_subscriptions sm) cid subscr)\<rparr>"
  let ?step = "session_send alive cid s (Suback (subscribe_succeed subscr)) ?sm"
  have "sm_ok ?sm"
    using assms(1,2) by (intro sm_ok_subscriptions subscriptions_ok_subscribe) (auto simp: sm_ok_def)
  then have sm: "sm_ok (fst ?step)"
    using sendable_suback [OF assms(3)] by (rule session_send_ok)
  obtain matching where m: "messages_for (sm_retained (fst ?step)) subscr = Inr matching"
    using messages_for_total [OF assms(2)] by blast
  have entries: "forwardable p \<and> application_message p \<noteq> [] \<and> publish_retain p"
    if "(p, q) \<in> set matching" for p q
    using messages_for_subset [OF m] that sm by (fastforce simp: sm_ok_def retained_ok_def)
  have "asserts_only (fold_result (publish_retained alive cid) ?step matching)"
  proof (rule fails_only_fold [of "\<lambda>_. True"])
    fix acc x
    assume "x \<in> set matching"
    then show "asserts_only (publish_retained alive cid acc x)"
      using entries by (cases acc; cases x)
        (auto simp: publish_retained_def intro!: fails_intros asserts_only_session_publish)
  qed simp_all
  moreover have "sm_client_subscribed alive cid subscr sm = fold_result (publish_retained alive cid) ?step matching"
    using Some m by (auto simp: sm_client_subscribed_def subscribe_client_def Let_def split: prod.splits)
  ultimately show ?thesis
    by simp
qed

lemma asserts_only_acked:
  assumes "sm_ok sm" "header_type ack = PUBACK \<or> header_type ack = PUBREC \<or> header_type ack = PUBCOMP"
  shows "asserts_only (session_acked alive cid ack sm)"
proof (cases "sm_sessions sm cid")
  case (Some s)
  then have "tx_ok (session_tx s)"
    using sm_ok_session [OF assms(1)] by (auto simp: session_ok_def)
  then have "asserts_only (tx_ack_received (alive (session_connection s)) ack (session_tx s))"
    using assms(2) by (simp add: fails_only_def tx_ack_received_fails_iff)
  then show ?thesis
    using Some by (auto simp: session_acked_def intro!: fails_intros)
qed (simp add: session_acked_def fails_only_Inr)

lemma session_acked_ok:
  assumes "session_acked alive cid ack sm = Inr (sm', out)" "sm_ok sm"
  shows "sm_ok sm' \<and> good_effects out"
proof (cases "sm_sessions sm cid")
  case (Some s)
  obtain tx' acts where tx: "tx_ack_received (alive (session_connection s)) ack (session_tx s) = Inr (tx', acts)"
    "sm' = put_session cid (s\<lparr>session_tx := tx'\<rparr>) sm" "out = to_conn (session_connection s) acts"
    using assms(1) Some by (auto simp: session_acked_def result_simps)
  have s: "session_ok cid s"
    using assms(2) Some by (rule sm_ok_session)
  then have "tx_ok tx'" "\<forall>x \<in> set (sent acts). sendable x"
    using tx_ok_ack_received [OF tx(1)] tx_ack_received_sends [OF tx(1)] by (auto simp: session_ok_def)
  then show ?thesis
    using tx(2,3) assms(2) s by (simp add: sm_ok_put_session session_ok_update)
qed (use assms in \<open>simp add: session_acked_def\<close>)

lemma sm_client_released_publish_ok:
  assumes "sm_ok sm"
  shows "\<exists>sm' out. sm_client_released_publish alive cid ack sm = Inr (sm', out) \<and> sm_ok sm' \<and> good_effects out"
proof (cases "sm_sessions sm cid")
  case (Some s)
  have s: "session_ok cid s"
    using assms Some by (rule sm_ok_session)
  obtain rx' acts where "rx_pubrel_received (alive (session_connection s)) ack (session_rx s) = Inr (rx', acts)"
    "rx_ok rx'" "\<forall>x \<in> set (sent acts). sendable x"
    using rx_pubrel_received_ok [of "session_rx s" "alive (session_connection s)" ack] s
    by (auto simp: session_ok_def)
  then show ?thesis
    using Some assms s by (auto simp: sm_client_released_publish_def sm_ok_put_session session_ok_update)
qed (use assms in \<open>simp add: sm_client_released_publish_def\<close>)

lemma sm_timeouts_ok:
  assumes "sm_ok sm"
  shows "\<exists>sm' out. sm_tx_timeout max_retries cid k sm = Inr (sm', out) \<and> sm_ok sm' \<and> good_effects out"
    and "\<exists>sm' out. sm_rx_timeout max_retries cid k sm = Inr (sm', out) \<and> sm_ok sm' \<and> good_effects out"
proof -
  show "\<exists>sm' out. sm_tx_timeout max_retries cid k sm = Inr (sm', out) \<and> sm_ok sm' \<and> good_effects out"
  proof (cases "sm_sessions sm cid")
    case (Some s)
    have s: "session_ok cid s"
      using assms Some by (rule sm_ok_session)
    then have ok: "tx_ok (session_tx s)"
      by (simp add: session_ok_def)
    obtain tx' acts where tx: "tx_timeout max_retries k (session_tx s) = Inr (tx', acts)"
      using tx_timeout_never_fails [OF ok, of max_retries k] by auto
    then show ?thesis
      using Some assms s tx_ok_timeout [OF tx ok] tx_timeout_sends [OF tx ok]
      by (auto simp: sm_tx_timeout_def sm_ok_put_session session_ok_update)
  qed (use assms in \<open>simp add: sm_tx_timeout_def\<close>)
  show "\<exists>sm' out. sm_rx_timeout max_retries cid k sm = Inr (sm', out) \<and> sm_ok sm' \<and> good_effects out"
  proof (cases "sm_sessions sm cid")
    case (Some s)
    have s: "session_ok cid s"
      using assms Some by (rule sm_ok_session)
    then show ?thesis
      using Some assms rx_timeout_ok [of "session_rx s" max_retries k]
      by (auto simp: sm_rx_timeout_def sm_ok_put_session session_ok_update session_ok_def)
  qed (use assms in \<open>simp add: sm_rx_timeout_def\<close>)
qed

text \<open>A lost connection fails only by an assertion, too.\<close>

lemma asserts_only_last_will:
  assumes "sm_ok sm" "session_ok cid s"
  shows "asserts_only (publish_last_will alive s sm)"
proof (cases "session_lwt s")
  case (Some con)
  then have "lwt_ok con"
    using assms(2) by (simp add: session_ok_def)
  then obtain t m where con: "will_topic con = Some t"
    "will_message con = Some m" "length t \<le> 65535" "length m \<le> 65535"
    by (auto simp: lwt_ok_def)
  show ?thesis
  proof (cases "connect_last_will_qos con = QOS_RESERVED")
    case True
    obtain p where p: "publish_create False QOS_RESERVED False t 0 m = Inr p" "header_type p = PUBLISH"
      "publish_qos p = QOS_RESERVED"
      using publish_create_reserved by blast
    obtain rs where "resolve_subscribers (sm_subscriptions sm) p = Inr rs"
      using resolve_subscribers_total [OF assms(1)] by blast
    from sm_publish_reserved [OF p(2,3) this] show ?thesis
      using Some con p(1) True by (simp add: publish_last_will_def fails_only_def)
  next
    case False
    obtain p where p: "publish_create False (connect_last_will_qos con) False t 0 m = Inr p" "publish_wf p"
      "topic p = t" "application_message p = m"
      using publish_create_wf [OF False, of t m False False 0] con(3,4) by auto
    then have "forwardable p"
      using con by (simp add: forwardable_def)
    from asserts_only_sm_publish [OF assms(1) this] show ?thesis
      using Some con p(1) by (auto simp: publish_last_will_def intro!: fails_intros)
  qed
qed (simp add: publish_last_will_def fails_only_def)

lemma asserts_only_disconnected_ungracefully:
  assumes "sm_ok sm"
  shows "asserts_only (dispatcher_client_disconnected_ungracefully alive cid sm)"
  unfolding dispatcher_client_disconnected_ungracefully_def sm_client_disconnected_ungracefully_def
  using assms sm_ok_session [OF assms] by (auto intro!: fails_intros asserts_only_last_will split: option.splits)

section \<open>The dispatcher\<close>

text \<open>
  What the dispatcher relies on: the packet has the class its type bits say (the decoders guarantee
  it, and that PUBLISH packets are well formed and filters valid), a packet that opens a session comes
  from a connection that authenticated with the same identifier, and the last will it may contain is
  complete.
\<close>

definition dispatchable :: "(conn \<Rightarrow> string option) \<Rightarrow> packet_container \<Rightarrow> bool" where
  "dispatchable conn_client_id pc \<longleftrightarrow> well_typed (pc_packet pc) \<and>
     (case pc_packet pc of
        Connect con \<Rightarrow> conn_client_id (pc_connection pc) = Some (client_id con) \<and>
                       (connect_contains_last_will con \<longrightarrow> lwt_ok con)
      | Publish p \<Rightarrow> forwardable p
      | Subscribe s \<Rightarrow> (\<forall>x \<in> set (subscriptions s). well_formed_filter (topic_filter x)) \<and>
                       length (subscriptions s) \<le> 268435453
      | _ \<Rightarrow> True)"

lemma session_ok_new:
  assumes "connect_contains_last_will con \<Longrightarrow> lwt_ok con"
  shows "session_ok (client_id con) (new_client_session con c)"
  using assms by (simp add: session_ok_def new_client_session_def tx_ok_new rx.store_ok_empty)

lemma handle_connect_ok:
  assumes "sm_ok sm" "conn_client_id c = Some (client_id con)" "connect_contains_last_will con \<Longrightarrow> lwt_ok con"
  shows "\<exists>sm'. sm_client_connected alive conn_client_id con c sm = Inr sm' \<and> sm_ok sm'"
  using assms by (auto simp: sm_client_connected_def session_store_insert_def split: option.splits
      intro!: sm_ok_put_session session_ok_new)

lemma header_type_well_typed:
  "well_typed (Puback a) \<Longrightarrow> header_type a = PUBACK" "well_typed (Pubrec a) \<Longrightarrow> header_type a = PUBREC"
  "well_typed (Pubcomp a) \<Longrightarrow> header_type a = PUBCOMP"
  by (simp_all add: well_typed_def packet_type_def)

lemma handle_packet_received_eq:
  assumes "dispatchable conn_client_id pc"
  shows "handle_packet_received alive conn_client_id pc sm =
    (case pc_packet pc of
       Connect con \<Rightarrow>
         rbind (cpp_assert (\<not> connect_contains_last_will con \<or> \<not> connect_retain_last_will con)) (\<lambda>_.
         no_effects (sm_client_connected alive conn_client_id con (pc_connection pc) sm))
     | Disconnect p \<Rightarrow> Inr (sm_client_disconnected (pc_client_id pc) sm, [])
     | Subscribe p \<Rightarrow> sm_client_subscribed alive (pc_client_id pc) p sm
     | Unsubscribe p \<Rightarrow> Inr (sm_client_unsubscribed alive (pc_client_id pc) p sm)
     | Publish p \<Rightarrow> sm_client_published alive (pc_client_id pc) p sm
     | Puback p \<Rightarrow> session_acked alive (pc_client_id pc) p sm
     | Pubrec p \<Rightarrow> session_acked alive (pc_client_id pc) p sm
     | Pubrel p \<Rightarrow> sm_client_released_publish alive (pc_client_id pc) p sm
     | Pubcomp p \<Rightarrow> session_acked alive (pc_client_id pc) p sm
     | _ \<Rightarrow> Inl Assertion_failed)"
proof -
  have ty: "packet_type (pc_packet pc) = class_type (pc_packet pc)"
    using assms by (auto simp: dispatchable_def well_typed_def)
  show ?thesis
    unfolding handle_packet_received_def Let_def ty
    by (cases "pc_packet pc") (simp_all add: sm_client_acked_publish_def sm_client_received_publish_def
        sm_client_completed_publish_def)
qed

abbreviation handled_well :: "(session_manager \<times> effects) result \<Rightarrow> bool" where
  "handled_well r \<equiv> asserts_only r \<and> (\<forall>sm' out. r = Inr (sm', out) \<longrightarrow> sm_ok sm' \<and> good_effects out)"

lemma acked_handled_well:
  assumes "sm_ok sm" "header_type ack = PUBACK \<or> header_type ack = PUBREC \<or> header_type ack = PUBCOMP"
  shows "handled_well (session_acked alive cid ack sm)"
  using asserts_only_acked [OF assms] session_acked_ok assms(1) by auto

lemma connect_handled_well:
  assumes "sm_ok sm" "dispatchable conn_client_id pc" "pc_packet pc = Connect con"
  shows "handled_well (rbind (cpp_assert (\<not> connect_contains_last_will con \<or> \<not> connect_retain_last_will con)) (\<lambda>_.
    no_effects (sm_client_connected alive conn_client_id con (pc_connection pc) sm)))"
proof -
  obtain sm' where "sm_client_connected alive conn_client_id con (pc_connection pc) sm = Inr sm'" "sm_ok sm'"
    using assms handle_connect_ok [of sm conn_client_id "pc_connection pc" con alive]
    by (auto simp: dispatchable_def)
  then show ?thesis
    by (auto simp: no_effects_def fails_only_def result_simps)
qed

lemma subscribe_handled_well:
  assumes "sm_ok sm" "dispatchable conn_client_id pc" "pc_packet pc = Subscribe s"
  shows "handled_well (sm_client_subscribed alive (pc_client_id pc) s sm)"
proof -
  have "\<forall>x \<in> set (subscriptions s). well_formed_filter (topic_filter x)" "length (subscriptions s) \<le> 268435453"
    using assms(2,3) by (auto simp: dispatchable_def)
  then show ?thesis
    using asserts_only_sm_client_subscribed [OF assms(1)] sm_client_subscribed_ok [OF _ assms(1)] by auto
qed

lemma handle_packet_received_ok:
  assumes "sm_ok sm" "dispatchable conn_client_id pc"
  shows "handled_well (handle_packet_received alive conn_client_id pc sm)"
proof -
  note handle = handle_packet_received_eq [OF assms(2)]
  have wt: "well_typed (pc_packet pc)"
    using assms(2) by (simp add: dispatchable_def)
  show ?thesis
  proof (cases "pc_packet pc")
    case (Connect con)
    from connect_handled_well [OF assms this] show ?thesis
      unfolding handle Connect by simp
  next
    case (Publish p)
    then have "forwardable p"
      using assms(2) by (simp add: dispatchable_def)
    then show ?thesis
      unfolding handle using Publish assms(1) asserts_only_sm_client_published sm_client_published_ok by auto
  next
    case (Pubrel p)
    then show ?thesis
      unfolding handle using sm_client_released_publish_ok [OF assms(1), of alive "pc_client_id pc" p]
      by (auto simp: fails_only_def)
  next
    case (Subscribe s)
    from subscribe_handled_well [OF assms this] show ?thesis
      unfolding handle Subscribe by simp
  next
    case (Unsubscribe u)
    then show ?thesis
      unfolding handle using sm_client_unsubscribed_ok [OF assms(1), of alive "pc_client_id pc" u]
      by (auto simp: fails_only_def)
  next
    case (Puback p)
    then have "header_type p = PUBACK"
      using wt header_type_well_typed(1) by simp
    then show ?thesis
      unfolding handle Puback using acked_handled_well [OF assms(1), of p alive "pc_client_id pc"] by simp
  next
    case (Pubrec p)
    then have "header_type p = PUBREC"
      using wt header_type_well_typed(2) by simp
    then show ?thesis
      unfolding handle Pubrec using acked_handled_well [OF assms(1), of p alive "pc_client_id pc"] by simp
  next
    case (Pubcomp p)
    then have "header_type p = PUBCOMP"
      using wt header_type_well_typed(3) by simp
    then show ?thesis
      unfolding handle Pubcomp using acked_handled_well [OF assms(1), of p alive "pc_client_id pc"] by simp
  qed (use assms(1) in \<open>auto simp: handle sm_client_disconnected_def fails_only_def\<close>)
qed

section \<open>Runs of the broker\<close>

text \<open>
  Everything that changes the state of the dispatcher: a packet, a connection lost, a timer, the
  shutdown. Which connections are alive may differ from step to step.
\<close>

inductive broker_step ::
  "nat \<Rightarrow> session_manager \<Rightarrow> effects \<Rightarrow> session_manager \<Rightarrow> bool" for max_retries :: nat where
  broker_packet: "\<lbrakk>dispatchable conn_client_id pc;
      handle_packet_received alive conn_client_id pc sm = Inr (sm', out)\<rbrakk>
     \<Longrightarrow> broker_step max_retries sm out sm'"
| broker_lost: "dispatcher_client_disconnected_ungracefully alive cid sm = Inr (sm', out)
     \<Longrightarrow> broker_step max_retries sm out sm'"
| broker_tx_timer: "sm_tx_timeout max_retries cid k sm = Inr (sm', out)
     \<Longrightarrow> broker_step max_retries sm out sm'"
| broker_rx_timer: "sm_rx_timeout max_retries cid k sm = Inr (sm', out)
     \<Longrightarrow> broker_step max_retries sm out sm'"
| broker_stop: "broker_step max_retries sm [] (dispatcher_stop sm)"

inductive broker_run :: "nat \<Rightarrow> effects \<Rightarrow> session_manager \<Rightarrow> bool" for max_retries :: nat where
  broker_start: "broker_run max_retries [] new_session_manager"
| broker_continue: "\<lbrakk>broker_run max_retries out sm; broker_step max_retries sm out' sm'\<rbrakk>
     \<Longrightarrow> broker_run max_retries (out @ out') sm'"

inductive_cases broker_stepE: "broker_step max_retries sm out sm'"

lemma broker_step_ok:
  assumes "broker_step max_retries sm out sm'" "sm_ok sm"
  shows "sm_ok sm' \<and> good_effects out"
  using assms(1)
proof (rule broker_stepE)
  fix conn_client_id pc alive
  assume "dispatchable conn_client_id pc" "handle_packet_received alive conn_client_id pc sm = Inr (sm', out)"
  then show ?thesis
    using handle_packet_received_ok assms(2) by blast
next
  fix alive cid
  assume "dispatcher_client_disconnected_ungracefully alive cid sm = Inr (sm', out)"
  then show ?thesis
    unfolding dispatcher_client_disconnected_ungracefully_def
    using sm_client_disconnected_ungracefully_ok assms(2) by blast
next
  fix cid k
  assume "sm_tx_timeout max_retries cid k sm = Inr (sm', out)"
  then show ?thesis
    using sm_timeouts_ok(1) [OF assms(2), of max_retries cid k] by auto
next
  fix cid k
  assume "sm_rx_timeout max_retries cid k sm = Inr (sm', out)"
  then show ?thesis
    using sm_timeouts_ok(2) [OF assms(2), of max_retries cid k] by auto
next
  assume "out = []" "sm' = dispatcher_stop sm"
  then show ?thesis
    using assms(2) by (simp add: dispatcher_stop_def)
qed

lemma broker_run_ok: "broker_run max_retries out sm \<Longrightarrow> sm_ok sm \<and> good_effects out"
  by (induction rule: broker_run.induct) (auto simp: sm_ok_new dest: broker_step_ok)

end
