(* ===== verification/Decoder.thy ===== *)
theory Decoder
  imports Topic_Filter
begin

text \<open>
  The decoders of \<^verbatim>\<open>source/server/io_wally/codec\<close>: the frame reader and the primitives of
  \<^verbatim>\<open>decoder.hpp\<close>, one decoder per packet type (\<^verbatim>\<open>*_packet_decoder.hpp\<close>) and the dispatch of
  \<^verbatim>\<open>mqtt_packet_decoder.hpp\<close>. A decoder gets the read buffer and a frame, two positions in it; what
  the code calls \<^verbatim>\<open>new_buf_start\<close> is a position threaded through. A read outside the buffer is the
  value \<open>Inl Undefined_behaviour\<close>.
\<close>

section \<open>Frames\<close>

record frame =
  frame_type_and_flags :: byte
  frame_begin :: nat
  frame_end :: nat

definition frame_remaining_length :: "frame \<Rightarrow> int" where
  "frame_remaining_length f = distance (frame_begin f) (frame_end f)"

definition frame_type :: "frame \<Rightarrow> packet_type" where
  "frame_type f = type_of (frame_type_and_flags f)"

record frame_reader =
  reader_buffer :: "byte list"
  reader_frame :: "frame option"

definition new_frame_reader :: "byte list \<Rightarrow> frame_reader" where
  "new_frame_reader buffer = \<lparr>reader_buffer = buffer, reader_frame = None\<rparr>"

definition get_frame :: "frame_reader \<Rightarrow> frame option" where
  "get_frame r = reader_frame r"

definition reset_frame_reader :: "frame_reader \<Rightarrow> frame_reader" where
  "reset_frame_reader r = r\<lparr>reader_frame := None\<rparr>"

text \<open>
  The loop over the length bytes, from index \<open>i\<close> with the sum \<open>rlen\<close> so far. The code multiplies by
  a floating point power \<^verbatim>\<open>pow( 128, i - 1 )\<close>; at most four terms below \<open>2 ^ 28\<close> are added, which is
  exact in a \<^verbatim>\<open>double\<close>.
\<close>

function remaining_length_loop ::
  "byte list \<Rightarrow> nat \<Rightarrow> nat \<Rightarrow> nat \<Rightarrow> (nat \<times> nat) option result" where
  "remaining_length_loop buffer bytes_transferred i rlen =
     (if i < bytes_transferred then
        if i > 4 then Inl (Malformed Remaining_length_too_large)
        else rbind (deref buffer i) (\<lambda>current_byte.
          let multiplier = 128 ^ (i - 1);
              rlen' = rlen + unat (current_byte AND NOT 0x80) * multiplier
          in if current_byte AND 0x80 = 0 then Inr (Some (rlen', i + 1))
             else remaining_length_loop buffer bytes_transferred (i + 1) rlen')
      else Inr None)"
  by pat_completeness auto
termination
  by (relation "measure (\<lambda>(_, n, i, _). n - i)") auto

declare remaining_length_loop.simps [simp del]

definition decode_remaining_length :: "frame_reader \<Rightarrow> nat \<Rightarrow> (nat \<times> nat) option result" where
  "decode_remaining_length r bytes_transferred =
     (if bytes_transferred < 2 then Inr None
      else remaining_length_loop (reader_buffer r) bytes_transferred 1 0)"

text \<open>
  \<^verbatim>\<open>operator( )\<close>: the completion condition of the asynchronous read. The result is how many more
  bytes to read.
\<close>

definition frame_reader_call :: "bool \<Rightarrow> nat \<Rightarrow> frame_reader \<Rightarrow> (nat \<times> frame_reader) result" where
  "frame_reader_call error bytes_transferred r =
     rbind (cpp_assert (bytes_transferred \<le> length (reader_buffer r))) (\<lambda>_.
     if error then Inr (0, r)
     else rbind (decode_remaining_length r bytes_transferred) (\<lambda>rlen_hlen.
       case rlen_hlen of
         None \<Rightarrow> Inr (1, r)
       | Some (rlen, hlen) \<Rightarrow>
           let len = hlen + rlen;
               remaining = size_minus len bytes_transferred;
               buffer = (if len > length (reader_buffer r)
                         then reader_buffer r @ replicate (len - length (reader_buffer r)) 0
                         else reader_buffer r)
           in rbind (cpp_assert (len \<le> length buffer)) (\<lambda>_.
              if remaining = 0
              then rbind (deref buffer 0) (\<lambda>b0.
                Inr (remaining, \<lparr>reader_buffer = buffer,
                       reader_frame = Some \<lparr>frame_type_and_flags = b0, frame_begin = hlen,
                                            frame_end = len\<rparr>\<rparr>))
              else Inr (remaining, r\<lparr>reader_buffer := buffer\<rparr>))))"

section \<open>Primitives\<close>

definition decode_uint16 :: "byte list \<Rightarrow> nat \<Rightarrow> nat \<Rightarrow> (nat \<times> u16) result" where
  "decode_uint16 buf uint16_start buf_end =
     (if distance uint16_start buf_end < 2 then Inl (Malformed Uint16_truncated)
      else rbind (deref buf uint16_start) (\<lambda>msb.
           rbind (deref buf (uint16_start + 1)) (\<lambda>lsb.
           Inr (uint16_start + 2, push_bit 8 (ucast msb) + ucast lsb))))"

definition decode_qos :: "byte list \<Rightarrow> nat \<Rightarrow> nat \<Rightarrow> (nat \<times> QoS) result" where
  "decode_qos buf uint8_start buf_end =
     (if distance uint8_start buf_end < 1 then Inl (Malformed Qos_truncated)
      else rbind (deref buf uint8_start) (\<lambda>b. Inr (uint8_start + 1, qos_of b 0)))"

text \<open>
  The bytes of a range \<open>[i, e)\<close> of the buffer, as \<^verbatim>\<open>std::string\<close> and \<^verbatim>\<open>std::vector\<close> copy them. For an
  empty range no byte is read (the code only forms the address of its start).
\<close>

definition copy_range :: "byte list \<Rightarrow> nat \<Rightarrow> nat \<Rightarrow> byte list result" where
  "copy_range buf i e =
     (if i = e then Inr []
      else if i < e \<and> e \<le> length buf then Inr (buf_slice buf i e)
      else Inl Undefined_behaviour)"

definition decode_utf8_string :: "byte list \<Rightarrow> nat \<Rightarrow> nat \<Rightarrow> (nat \<times> string) result" where
  "decode_utf8_string buf string_start buf_end =
     (if distance string_start buf_end < 2 then Inl (Malformed String_length_truncated)
      else rbind (decode_uint16 buf string_start buf_end) (\<lambda>(string_start, string_length).
        if distance string_start buf_end < int (unat string_length)
        then Inl (Malformed String_truncated)
        else rbind (copy_range buf string_start (string_start + unat string_length)) (\<lambda>bytes.
          Inr (string_start + unat string_length, map char_of_byte bytes))))"

text \<open>A successful read of a string moves the position by at least two bytes, up to the end.\<close>

lemma decode_uint16_advances:
  "decode_uint16 buf i e = Inr (j, v) \<Longrightarrow> j = i + 2 \<and> j \<le> e"
  by (auto simp: decode_uint16_def result_simps split: if_splits)

lemma decode_utf8_string_advances:
  "decode_utf8_string buf i e = Inr (j, s) \<Longrightarrow> i + 2 \<le> j \<and> j \<le> e"
  by (auto simp: decode_utf8_string_def result_simps split: if_splits
      dest!: decode_uint16_advances)

lemma decode_qos_advances: "decode_qos buf i e = Inr (j, q) \<Longrightarrow> j = i + 1 \<and> j \<le> e"
  by (auto simp: decode_qos_def result_simps split: if_splits)

section \<open>CONNECT\<close>

text \<open>
  The optional fields of the payload; each is read only if its flag is set, and is the empty string
  otherwise.
\<close>

definition decode_last_will ::
  "byte list \<Rightarrow> byte \<Rightarrow> nat \<Rightarrow> nat \<Rightarrow> (nat \<times> string \<times> byte list) result" where
  "decode_last_will buf cf new_buf_start fend =
     (if cf_contains_last_will cf then
        rbind (decode_utf8_string buf new_buf_start fend) (\<lambda>(new_buf_start, last_will_topic).
        rbind (decode_uint16 buf new_buf_start fend) (\<lambda>(new_buf_start, last_will_msg_len).
        if int (unat last_will_msg_len) > distance new_buf_start fend
        then Inl (Malformed Last_will_truncated)
        else rbind (copy_range buf new_buf_start (new_buf_start + unat last_will_msg_len)) (\<lambda>msg.
          Inr (new_buf_start + unat last_will_msg_len, last_will_topic, msg))))
      else Inr (new_buf_start, [], []))"

definition decode_optional_string ::
  "bool \<Rightarrow> byte list \<Rightarrow> nat \<Rightarrow> nat \<Rightarrow> (nat \<times> string) result" where
  "decode_optional_string present buf new_buf_start fend =
     (if present then decode_utf8_string buf new_buf_start fend else Inr (new_buf_start, []))"

definition decode_connect :: "byte list \<Rightarrow> frame \<Rightarrow> mqtt_packet result" where
  "decode_connect buf f =
     rbind (cpp_assert (frame_type f = CONNECT)) (\<lambda>_.
     rbind (check (frame_type_and_flags f AND 0x0F = 0x00) (Malformed Invalid_header_flags)) (\<lambda>_.
     rbind (decode_utf8_string buf (frame_begin f) (frame_end f)) (\<lambda>(pos, protocol_name).
     rbind (check (protocol_name \<noteq> []) (Malformed Missing_protocol_name)) (\<lambda>_.
     rbind (deref buf pos) (\<lambda>protocol_level.
     rbind (deref buf (pos + 1)) (\<lambda>cf.
     rbind (decode_uint16 buf (pos + 2) (frame_end f)) (\<lambda>(pos, keep_alive_secs).
     rbind (decode_utf8_string buf pos (frame_end f)) (\<lambda>(pos, cid).
     rbind (decode_last_will buf cf pos (frame_end f)) (\<lambda>(pos, last_will_topic, last_will_msg).
     rbind (decode_optional_string (cf_has_username cf) buf pos (frame_end f)) (\<lambda>(pos, user).
     rbind (decode_optional_string (cf_has_password cf) buf pos (frame_end f)) (\<lambda>(pos, pwd).
     rbind (check (pos = frame_end f) (Malformed Trailing_bytes)) (\<lambda>_.
     Inr (Connect (new_connect (word_of_int (frame_remaining_length f)) protocol_name protocol_level
            cf keep_alive_secs cid (Some last_will_topic) last_will_msg (Some user) (Some pwd)))
     ))))))))))))"

section \<open>PUBLISH and its acknowledgements\<close>

definition check_well_formed_topic_name :: "string \<Rightarrow> unit result" where
  "check_well_formed_topic_name topic_name =
     (if topic_name = [] then Inl (Malformed Topic_empty)
      else if length topic_name > 65535 then Inl (Malformed Topic_too_long)
      else if NUL \<in> set topic_name then Inl (Malformed Topic_contains_null)
      else if CHR ''+'' \<in> set topic_name then Inl (Malformed Topic_contains_plus)
      else if CHR ''#'' \<in> set topic_name then Inl (Malformed Topic_contains_hash)
      else Inr ())"

definition decode_publish :: "byte list \<Rightarrow> frame \<Rightarrow> mqtt_packet result" where
  "decode_publish buf f =
     rbind (cpp_assert (frame_type f = PUBLISH)) (\<lambda>_.
     let dup = dup_of (frame_type_and_flags f);
         qos = qos_of (frame_type_and_flags f) 1
     in rbind (check (\<not> (dup \<and> qos = AT_MOST_ONCE)) (Malformed Dup_with_qos0)) (\<lambda>_.
        rbind (check (qos \<noteq> QOS_RESERVED) (Malformed Reserved_qos)) (\<lambda>_.
        rbind (decode_utf8_string buf (frame_begin f) (frame_end f)) (\<lambda>(pos, topic_name).
        rbind (check_well_formed_topic_name topic_name) (\<lambda>_.
        rbind (if qos = AT_LEAST_ONCE \<or> qos = EXACTLY_ONCE
               then decode_uint16 buf pos (frame_end f) else Inr (pos, 0)) (\<lambda>(pos, packet_id).
        rbind (copy_range buf pos (frame_end f)) (\<lambda>msg.
        rbind (new_publish (frame_type_and_flags f) (word_of_int (frame_remaining_length f))
                 topic_name packet_id msg) (\<lambda>p.
        Inr (Publish p)))))))))"

definition decode_puback :: "byte list \<Rightarrow> frame \<Rightarrow> mqtt_packet result" where
  "decode_puback buf f =
     rbind (cpp_assert (frame_type f = PUBACK)) (\<lambda>_.
     rbind (check (frame_type_and_flags f AND 0x0F = 0x00) (Malformed Invalid_header_flags)) (\<lambda>_.
     rbind (decode_uint16 buf (frame_begin f) (frame_end f)) (\<lambda>(_, packet_id).
     Inr (Puback (new_puback packet_id)))))"

definition decode_pubrec :: "byte list \<Rightarrow> frame \<Rightarrow> mqtt_packet result" where
  "decode_pubrec buf f =
     rbind (cpp_assert (frame_type f = PUBREC)) (\<lambda>_.
     rbind (check (frame_type_and_flags f AND 0x0F = 0x00) (Malformed Invalid_header_flags)) (\<lambda>_.
     rbind (decode_uint16 buf (frame_begin f) (frame_end f)) (\<lambda>(_, packet_id).
     Inr (Pubrec (new_pubrec packet_id)))))"

definition decode_pubrel :: "byte list \<Rightarrow> frame \<Rightarrow> mqtt_packet result" where
  "decode_pubrel buf f =
     rbind (cpp_assert (frame_type f = PUBREL)) (\<lambda>_.
     rbind (check (frame_type_and_flags f AND 0x0F = 0x02) (Malformed Invalid_header_flags)) (\<lambda>_.
     rbind (decode_uint16 buf (frame_begin f) (frame_end f)) (\<lambda>(_, packet_id).
     Inr (Pubrel (new_pubrel packet_id)))))"

definition decode_pubcomp :: "byte list \<Rightarrow> frame \<Rightarrow> mqtt_packet result" where
  "decode_pubcomp buf f =
     rbind (cpp_assert (frame_type f = PUBCOMP)) (\<lambda>_.
     rbind (check (frame_type_and_flags f AND 0x0F = 0x00) (Malformed Invalid_header_flags)) (\<lambda>_.
     rbind (decode_uint16 buf (frame_begin f) (frame_end f)) (\<lambda>(_, packet_id).
     Inr (Pubcomp (new_pubcomp packet_id)))))"

section \<open>SUBSCRIBE and UNSUBSCRIBE\<close>

text \<open>One iteration of each loop, then the loops.\<close>

definition decode_subscription :: "byte list \<Rightarrow> nat \<Rightarrow> nat \<Rightarrow> (nat \<times> subscription) result" where
  "decode_subscription buf new_buf_start fend =
     rbind (decode_utf8_string buf new_buf_start fend) (\<lambda>(new_buf_start, tfilter).
     rbind (decode_qos buf new_buf_start fend) (\<lambda>(new_buf_start, maximum_qos).
     rbind (new_subscription tfilter maximum_qos) (\<lambda>subscr. Inr (new_buf_start, subscr))))"

lemma decode_subscription_advances:
  "decode_subscription buf i e = Inr (j, s) \<Longrightarrow> i < j \<and> j \<le> e"
  by (auto simp: decode_subscription_def result_simps
      dest!: decode_utf8_string_advances decode_qos_advances)

function decode_subscriptions :: "byte list \<Rightarrow> nat \<Rightarrow> nat \<Rightarrow> subscription list result" where
  "decode_subscriptions buf new_buf_start fend =
     (if new_buf_start = fend then Inr []
      else rbind (decode_subscription buf new_buf_start fend) (\<lambda>pos_subscr.
           rbind (decode_subscriptions buf (fst pos_subscr) fend) (\<lambda>rest.
           Inr (snd pos_subscr # rest))))"
  by pat_completeness auto
termination
  by (relation "measure (\<lambda>(_, pos, fend). fend - pos)")
    (auto dest!: decode_subscription_advances)

declare decode_subscriptions.simps [simp del]

definition decode_subscribe :: "byte list \<Rightarrow> frame \<Rightarrow> mqtt_packet result" where
  "decode_subscribe buf f =
     rbind (cpp_assert (frame_type f = SUBSCRIBE)) (\<lambda>_.
     rbind (check (frame_type_and_flags f AND 0x0F = 0x02) (Malformed Invalid_header_flags)) (\<lambda>_.
     rbind (decode_uint16 buf (frame_begin f) (frame_end f)) (\<lambda>(pos, packet_id).
     rbind (decode_subscriptions buf pos (frame_end f)) (\<lambda>subscrs.
     rbind (check (subscrs \<noteq> []) (Malformed No_subscriptions)) (\<lambda>_.
     Inr (Subscribe (new_subscribe (word_of_int (frame_remaining_length f)) packet_id subscrs)))))))"

function decode_topic_filters :: "byte list \<Rightarrow> nat \<Rightarrow> nat \<Rightarrow> string list result" where
  "decode_topic_filters buf new_buf_start fend =
     (if new_buf_start = fend then Inr []
      else rbind (decode_utf8_string buf new_buf_start fend) (\<lambda>pos_tfilter.
           rbind (decode_topic_filters buf (fst pos_tfilter) fend) (\<lambda>rest.
           Inr (snd pos_tfilter # rest))))"
  by pat_completeness auto
termination
  by (relation "measure (\<lambda>(_, pos, fend). fend - pos)") (auto dest!: decode_utf8_string_advances)

declare decode_topic_filters.simps [simp del]

definition decode_unsubscribe :: "byte list \<Rightarrow> frame \<Rightarrow> mqtt_packet result" where
  "decode_unsubscribe buf f =
     rbind (cpp_assert (frame_type f = UNSUBSCRIBE)) (\<lambda>_.
     rbind (check (frame_type_and_flags f AND 0x0F = 0x02) (Malformed Invalid_header_flags)) (\<lambda>_.
     rbind (decode_uint16 buf (frame_begin f) (frame_end f)) (\<lambda>(pos, packet_id).
     rbind (decode_topic_filters buf pos (frame_end f)) (\<lambda>tfilters.
     rbind (check (tfilters \<noteq> []) (Malformed No_topic_filters)) (\<lambda>_.
     Inr (Unsubscribe (new_unsubscribe (word_of_int (frame_remaining_length f)) packet_id
            tfilters)))))))"

section \<open>PINGREQ and DISCONNECT\<close>

definition decode_pingreq :: "byte list \<Rightarrow> frame \<Rightarrow> mqtt_packet result" where
  "decode_pingreq buf f =
     rbind (cpp_assert (frame_type f = PINGREQ)) (\<lambda>_.
     rbind (check (frame_type_and_flags f AND 0x0F = 0x00) (Malformed Invalid_header_flags)) (\<lambda>_.
     rbind (check (frame_remaining_length f = 0) (Malformed Nonzero_remaining_length)) (\<lambda>_.
     Inr (Pingreq new_pingreq))))"

definition decode_disconnect :: "byte list \<Rightarrow> frame \<Rightarrow> mqtt_packet result" where
  "decode_disconnect buf f =
     rbind (cpp_assert (frame_type f = DISCONNECT)) (\<lambda>_.
     rbind (check (frame_type_and_flags f AND 0x0F = 0x00) (Malformed Invalid_header_flags)) (\<lambda>_.
     rbind (check (frame_remaining_length f = 0) (Malformed Nonzero_remaining_length)) (\<lambda>_.
     Inr (Disconnect new_disconnect))))"

section \<open>Dispatch on the packet type\<close>

definition decode_packet :: "byte list \<Rightarrow> frame \<Rightarrow> mqtt_packet result" where
  "decode_packet buf f =
     (case frame_type f of
        CONNECT \<Rightarrow> decode_connect buf f
      | PINGREQ \<Rightarrow> decode_pingreq buf f
      | DISCONNECT \<Rightarrow> decode_disconnect buf f
      | SUBSCRIBE \<Rightarrow> decode_subscribe buf f
      | UNSUBSCRIBE \<Rightarrow> decode_unsubscribe buf f
      | PUBLISH \<Rightarrow> decode_publish buf f
      | PUBACK \<Rightarrow> decode_puback buf f
      | PUBREC \<Rightarrow> decode_pubrec buf f
      | PUBCOMP \<Rightarrow> decode_pubcomp buf f
      | PUBREL \<Rightarrow> decode_pubrel buf f
      | _ \<Rightarrow> Inl Invalid_argument)"

end
