(* ===== verification/Decoder_Safety.thy ===== *)
theory Decoder_Safety
  imports Decoder
begin

text \<open>
  What a decoder can do on any input: it reads inside the buffer, and it fails only with
  \<^verbatim>\<open>error::malformed_mqtt_packet\<close>, never with a failed assertion, another exception or a read outside
  the buffer. The exceptions are the CONNECT decoder, which reads two bytes without looking at the
  end of the frame, and the dispatcher, which throws \<^verbatim>\<open>std::invalid_argument\<close> for packet types that
  only a server sends.
\<close>

section \<open>Failing gracefully\<close>

abbreviation graceful :: "'a result \<Rightarrow> bool" where
  "graceful \<equiv> fails_only (\<lambda>e. \<exists>m. e = Malformed m)"

lemma graceful_deref: "i < length buf \<Longrightarrow> graceful (deref buf i)"
  by (simp add: fails_only_def deref_def)

section \<open>Primitives\<close>

lemma graceful_uint16: "e \<le> length buf \<Longrightarrow> graceful (decode_uint16 buf i e)"
  by (auto simp: fails_only_def decode_uint16_def result_simps)

lemma graceful_qos: "e \<le> length buf \<Longrightarrow> graceful (decode_qos buf i e)"
  by (auto simp: fails_only_def decode_qos_def result_simps)

lemma graceful_copy_range: "i \<le> e \<Longrightarrow> e \<le> length buf \<Longrightarrow> graceful (copy_range buf i e)"
  by (simp add: fails_only_def copy_range_def)

lemma graceful_utf8_string: "e \<le> length buf \<Longrightarrow> graceful (decode_utf8_string buf i e)"
  unfolding decode_utf8_string_def
  by (intro fails_intros graceful_uint16 graceful_copy_range) (simp_all add: not_less)

lemma graceful_new_subscription: "graceful (new_subscription s q)"
  by (auto simp: fails_only_def new_subscription_def split: option.splits)

lemma graceful_subscription: "e \<le> length buf \<Longrightarrow> graceful (decode_subscription buf i e)"
  unfolding decode_subscription_def
  by (intro fails_intros graceful_utf8_string graceful_qos graceful_new_subscription)

lemma graceful_subscriptions: "e \<le> length buf \<Longrightarrow> graceful (decode_subscriptions buf i e)"
proof (induction buf i e rule: decode_subscriptions.induct)
  case (1 buf i e)
  then show ?case
    by (subst decode_subscriptions.simps) (intro fails_intros graceful_subscription; simp)
qed

lemma graceful_topic_filters: "e \<le> length buf \<Longrightarrow> graceful (decode_topic_filters buf i e)"
proof (induction buf i e rule: decode_topic_filters.induct)
  case (1 buf i e)
  then show ?case
    by (subst decode_topic_filters.simps) (intro fails_intros graceful_utf8_string; simp)
qed

section \<open>Decoders of one packet type\<close>

definition in_bounds :: "byte list \<Rightarrow> frame \<Rightarrow> bool" where
  "in_bounds buf f \<longleftrightarrow> frame_begin f \<le> frame_end f \<and> frame_end f \<le> length buf"

lemma graceful_topic_name: "graceful (check_well_formed_topic_name t)"
  by (simp add: fails_only_def check_well_formed_topic_name_def)

lemma decode_uint16_le: "decode_uint16 buf i e = Inr (j, v) \<Longrightarrow> j \<le> e"
  by (simp add: decode_uint16_advances)

lemma decode_utf8_string_le: "decode_utf8_string buf i e = Inr (j, s) \<Longrightarrow> j \<le> e"
  by (simp add: decode_utf8_string_advances)

lemma graceful_publish:
  assumes "in_bounds buf f" "frame_type f = PUBLISH"
  shows "graceful (decode_publish buf f)"
  unfolding decode_publish_def Let_def new_publish_def
  by (intro fails_intros graceful_utf8_string graceful_topic_name graceful_uint16
      graceful_copy_range)
    (use assms in \<open>auto simp: in_bounds_def frame_type_def dest: decode_uint16_le decode_utf8_string_le
       split: if_splits\<close>)

lemma graceful_acks:
  assumes "in_bounds buf f"
  shows "frame_type f = PUBACK \<Longrightarrow> graceful (decode_puback buf f)"
    and "frame_type f = PUBREC \<Longrightarrow> graceful (decode_pubrec buf f)"
    and "frame_type f = PUBREL \<Longrightarrow> graceful (decode_pubrel buf f)"
    and "frame_type f = PUBCOMP \<Longrightarrow> graceful (decode_pubcomp buf f)"
  unfolding decode_puback_def decode_pubrec_def decode_pubrel_def decode_pubcomp_def
  by (intro fails_intros graceful_uint16; use assms in \<open>simp add: in_bounds_def\<close>)+

lemma graceful_subscribe:
  assumes "in_bounds buf f"
  shows "frame_type f = SUBSCRIBE \<Longrightarrow> graceful (decode_subscribe buf f)"
    and "frame_type f = UNSUBSCRIBE \<Longrightarrow> graceful (decode_unsubscribe buf f)"
  unfolding decode_subscribe_def decode_unsubscribe_def
  by (intro fails_intros graceful_uint16 graceful_subscriptions graceful_topic_filters;
      use assms in \<open>simp add: in_bounds_def\<close>)+

lemma graceful_no_body:
  shows "frame_type f = PINGREQ \<Longrightarrow> graceful (decode_pingreq buf f)"
    and "frame_type f = DISCONNECT \<Longrightarrow> graceful (decode_disconnect buf f)"
  unfolding decode_pingreq_def decode_disconnect_def
  by (intro fails_intros; simp)+

text \<open>
  The CONNECT decoder reads the two bytes behind the protocol name unchecked; it is safe when the
  buffer is two bytes longer than the frame, or when the frame is long enough to hold them.
\<close>

lemma graceful_last_will: "e \<le> length buf \<Longrightarrow> graceful (decode_last_will buf cf i e)"
  unfolding decode_last_will_def
  by (intro fails_intros graceful_utf8_string graceful_uint16 graceful_copy_range)
    auto

lemma graceful_optional_string: "e \<le> length buf \<Longrightarrow> graceful (decode_optional_string p buf i e)"
  unfolding decode_optional_string_def by (intro fails_intros graceful_utf8_string)

lemma graceful_connect:
  assumes "in_bounds buf f" "frame_type f = CONNECT"
    and "frame_end f + 2 \<le> length buf"
  shows "graceful (decode_connect buf f)"
  unfolding decode_connect_def
  by (intro fails_intros graceful_utf8_string graceful_uint16 graceful_deref graceful_last_will
      graceful_optional_string)
    (use assms in \<open>auto simp: in_bounds_def dest!: decode_utf8_string_le\<close>)

text \<open>And if it is not, the decoder reads outside: exactly when the protocol name ends the buffer.\<close>

lemma decode_connect_overread:
  assumes "frame_type_and_flags f = 0x10" "frame_end f = length buf"
    and "decode_utf8_string buf (frame_begin f) (frame_end f) = Inr (pos, nm)" "nm \<noteq> []"
    and "frame_end f < pos + 2"
  shows "decode_packet buf f = Inl Undefined_behaviour"
proof -
  have "deref buf pos = Inl Undefined_behaviour \<or>
    (\<exists>b. deref buf pos = Inr b) \<and> deref buf (pos + 1) = Inl Undefined_behaviour"
    using assms(2,5) by (auto simp: deref_def)
  then show ?thesis
    using assms by (auto simp: decode_packet_def frame_type_def decode_connect_def)
qed

section \<open>Any packet\<close>

definition client_sent :: "packet_type \<Rightarrow> bool" where
  "client_sent t \<longleftrightarrow> t \<in> {CONNECT, PINGREQ, DISCONNECT, SUBSCRIBE, UNSUBSCRIBE, PUBLISH, PUBACK,
                        PUBREC, PUBCOMP, PUBREL}"

lemma decode_packet_graceful:
  assumes "in_bounds buf f" "client_sent (frame_type f)"
    and "frame_type f = CONNECT \<longrightarrow> frame_end f + 2 \<le> length buf"
  shows "graceful (decode_packet buf f)"
  using assms graceful_connect graceful_publish graceful_acks graceful_subscribe graceful_no_body
  unfolding decode_packet_def by (cases "frame_type f") (auto simp: client_sent_def)

lemma decode_packet_unsupported:
  "\<not> client_sent (frame_type f) \<Longrightarrow> decode_packet buf f = Inl Invalid_argument"
  unfolding decode_packet_def by (cases "frame_type f") (auto simp: client_sent_def)

text \<open>What is decoded has the class that its type bits name, which is the type of the frame.\<close>

lemmas decode_packet_defs =
  decode_connect_def decode_publish_def decode_puback_def decode_pubrec_def decode_pubrel_def
  decode_pubcomp_def decode_subscribe_def decode_unsubscribe_def decode_pingreq_def
  decode_disconnect_def

lemma decode_packet_class:
  assumes "decode_packet buf f = Inr p"
  shows "class_type p = frame_type f"
  using assms unfolding decode_packet_def
  by (cases "frame_type f") (auto simp: decode_packet_defs result_simps Let_def)

lemma decode_packet_well_typed:
  assumes "decode_packet buf f = Inr p"
  shows "well_typed p"
proof (cases "frame_type f = PUBLISH")
  case True
  then show ?thesis
    using assms by (auto simp: decode_packet_def decode_publish_def result_simps Let_def
        new_publish_Inr_iff well_typed_def packet_type_def header_type_def)
next
  case False
  then show ?thesis
    using assms unfolding decode_packet_def
    by (cases "frame_type f") (auto simp: decode_packet_defs result_simps)
qed

end
