(* ===== verification/Codec_Roundtrip.thy ===== *)
theory Codec_Roundtrip
  imports Encoder Decoder
begin

text \<open>
  The encoders and decoders against each other. The locale \<open>codec\<close> is the contract between the
  encoder and the decoder of one kind of value, \<open>exact_codec\<close> adds that nothing else decodes, and
  \<open>codec_loop\<close> lifts a contract to a decoding loop over the rest of a packet. The interpretations
  instantiate them with the primitives of \<^verbatim>\<open>encoder.hpp\<close> and \<^verbatim>\<open>decoder.hpp\<close> and with the loops of
  the SUBSCRIBE and UNSUBSCRIBE decoders.
\<close>

section \<open>The contract of an encoder and a decoder\<close>

locale codec =
  fixes enc :: "'a \<Rightarrow> byte list result"
    and dec :: "byte list \<Rightarrow> nat \<Rightarrow> nat \<Rightarrow> (nat \<times> 'a) result"
  assumes dec_enc: "\<lbrakk>enc x = Inr bs; holds_at buf i bs; i + length bs \<le> e\<rbrakk>
      \<Longrightarrow> dec buf i e = Inr (i + length bs, x)"
    and enc_nonempty: "enc x = Inr bs \<Longrightarrow> bs \<noteq> []"

locale exact_codec = codec +
  assumes dec_sound: "dec buf i e = Inr (j, x) \<Longrightarrow>
      \<exists>bs. enc x = Inr bs \<and> holds_at buf i bs \<and> j = i + length bs \<and> j \<le> e"
begin

lemma dec_iff:
  "dec buf i e = Inr (j, x) \<longleftrightarrow>
     (\<exists>bs. enc x = Inr bs \<and> holds_at buf i bs \<and> j = i + length bs \<and> j \<le> e)"
  using dec_enc dec_sound by blast

end

text \<open>A list of values is encoded by encoding its elements one after the other.\<close>

primrec enc_list :: "('a \<Rightarrow> byte list result) \<Rightarrow> 'a list \<Rightarrow> byte list result" where
  "enc_list enc [] = Inr []"
| "enc_list enc (x # xs) = rbind (enc x) (\<lambda>bs. rbind (enc_list enc xs) (\<lambda>rest. Inr (bs @ rest)))"

locale codec_loop = codec +
  fixes loop :: "byte list \<Rightarrow> nat \<Rightarrow> nat \<Rightarrow> 'a list result"
  assumes loop_unfold: "loop buf i e =
      (if i = e then Inr []
       else rbind (dec buf i e) (\<lambda>jx. rbind (loop buf (fst jx) e) (\<lambda>xs. Inr (snd jx # xs))))"
begin

lemma loop_enc:
  "\<lbrakk>enc_list enc xs = Inr bs; holds_at buf i bs; e = i + length bs\<rbrakk> \<Longrightarrow> loop buf i e = Inr xs"
proof (induction xs arbitrary: i bs)
  case Nil
  then show ?case
    by (simp add: loop_unfold)
next
  case (Cons x xs)
  then obtain bs1 bs2 where bs: "enc x = Inr bs1" "enc_list enc xs = Inr bs2" "bs = bs1 @ bs2"
    by (auto simp: result_simps)
  have "dec buf i e = Inr (i + length bs1, x)"
    using Cons.prems bs by (intro dec_enc) (auto simp: holds_at_append)
  moreover have "loop buf (i + length bs1) e = Inr xs"
    using Cons.prems bs by (intro Cons.IH [OF bs(2)]) (auto simp: holds_at_append)
  moreover have "i \<noteq> e"
    using enc_nonempty [OF bs(1)] Cons.prems bs by simp
  ultimately show ?case
    by (subst loop_unfold) simp
qed

end

section \<open>Primitives\<close>

lemma unat_uint16_of_bytes:
  "unat (push_bit 8 (ucast (a :: byte)) + ucast (b :: byte) :: u16) = unat a * 256 + unat b"
  using unat_byte_less [of a] unat_byte_less [of b]
  by (simp add: unat_word_ariths unsigned_ucast_eq push_bit_eq_mult mult.commute take_bit_eq_mod)

lemma uint16_bytes:
  "push_bit 8 (ucast (ucast (v div 0x0100) :: byte)) + ucast (ucast (v mod 0x0100) :: byte) = (v :: u16)"
  unfolding word_unat_eq_iff unat_uint16_of_bytes
  using unat_u16_less [of v]
  by (simp add: unsigned_ucast_eq unat_div unat_mod take_bit_eq_mod div_less_iff_less_mult)

lemma uint16_of_bytes:
  "encode_uint16 (push_bit 8 (ucast (a :: byte)) + ucast (b :: byte)) = [a, b]"
  using unat_byte_less [of a] unat_byte_less [of b]
  by (simp add: encode_uint16_def word_unat_eq_iff unsigned_ucast_eq unat_div unat_mod
      unat_uint16_of_bytes take_bit_eq_mod)

interpretation uint16: exact_codec "\<lambda>v. Inr (encode_uint16 v)" decode_uint16
proof unfold_locales
  fix x bs buf and i e :: nat
  assume "Inr (encode_uint16 x) = (Inr bs :: byte list result)" "holds_at buf i bs" "i + length bs \<le> e"
  then show "decode_uint16 buf i e = Inr (i + length bs, x)"
    using uint16_bytes [of x]
    by (auto simp: decode_uint16_def deref_def encode_uint16_def holds_at_Cons)
next
  fix buf i e j x
  assume "decode_uint16 buf i e = Inr (j, x)"
  then show "\<exists>bs. Inr (encode_uint16 x) = (Inr bs :: byte list result) \<and> holds_at buf i bs \<and>
      j = i + length bs \<and> j \<le> e"
    by (auto simp: decode_uint16_def result_simps uint16_of_bytes holds_at_Cons split: if_splits)
qed (auto simp: encode_uint16_def)

lemma copy_range_holds_at:
  "copy_range buf i (i + n) = Inr bs \<longleftrightarrow> length bs = n \<and> (n = 0 \<or> holds_at buf i bs)"
  by (auto simp: copy_range_def holds_at_def buf_slice_def)

lemma unat_word_of_nat_u16: "n \<le> 65535 \<Longrightarrow> unat (word_of_nat n :: u16) = n"
  by (simp add: unat_of_nat take_bit_nat_eq_self)

lemma map_char_of_byte_eq_iff: "map char_of_byte bs = s \<longleftrightarrow> bs = map byte_of_char s"
  by (auto simp: comp_def)

lemma decode_uint16_Inr_bounds:
  "decode_uint16 buf i e = Inr (k, n) \<Longrightarrow> k = i + 2 \<and> i + 2 \<le> e \<and> i + 2 \<le> length buf"
  using uint16.dec_sound [of buf i e k n] decode_uint16_advances [of buf i e k n]
  by (auto dest: holds_at_bound)

lemma decode_utf8_string_Inr_iff:
  "decode_utf8_string buf i e = Inr (j, s) \<longleftrightarrow>
     (\<exists>n. decode_uint16 buf i e = Inr (i + 2, n) \<and> length s = unat n \<and>
        holds_at buf (i + 2) (map byte_of_char s) \<and> j = i + 2 + unat n \<and> j \<le> e)"
  (is "?dec \<longleftrightarrow> ?spec")
proof
  assume ?dec
  then obtain k n bs where n: "decode_uint16 buf i e = Inr (k, n)" "k + unat n \<le> e"
      "copy_range buf k (k + unat n) = Inr bs" "j = k + unat n" "s = map char_of_byte bs"
    by (auto simp: decode_utf8_string_def result_simps not_less split: if_splits)
  from n(3) have "length bs = unat n" "bs = [] \<or> holds_at buf k bs"
    unfolding copy_range_holds_at by auto
  with n decode_uint16_Inr_bounds [OF n(1)] show ?spec
    by (auto simp: comp_def)
next
  assume ?spec
  then obtain n where n: "decode_uint16 buf i e = Inr (i + 2, n)" "length s = unat n"
      "holds_at buf (i + 2) (map byte_of_char s)" "j = i + 2 + unat n" "j \<le> e"
    by blast
  then have "copy_range buf (i + 2) (i + 2 + unat n) = Inr (map byte_of_char s)"
    by (simp only: copy_range_holds_at) simp
  then show ?dec
    using n by (simp add: decode_utf8_string_def)
qed

interpretation utf8_string: exact_codec encode_utf8_string decode_utf8_string
proof unfold_locales
  fix x bs buf and i e :: nat
  assume enc: "encode_utf8_string x = Inr bs" and "holds_at buf i bs" "i + length bs \<le> e"
  then show "decode_utf8_string buf i e = Inr (i + length bs, x)"
    by (auto simp: decode_utf8_string_Inr_iff uint16.dec_iff encode_utf8_string_eq holds_at_append
        unat_word_of_nat_u16 split: if_splits)
next
  fix buf i e j x
  assume "decode_utf8_string buf i e = Inr (j, x)"
  then obtain n where n: "decode_uint16 buf i e = Inr (i + 2, n)" "length x = unat n"
    "holds_at buf (i + 2) (map byte_of_char x)" "j = i + 2 + unat n" "j \<le> e"
    unfolding decode_utf8_string_Inr_iff by blast
  have "unat n \<le> 65535"
    using unat_u16_less [of n] by simp
  moreover have "holds_at buf i (encode_uint16 n)"
    using uint16.dec_sound [OF n(1)] by simp
  ultimately show "\<exists>bs. encode_utf8_string x = Inr bs \<and> holds_at buf i bs \<and> j = i + length bs \<and> j \<le> e"
    using n by (auto simp: encode_utf8_string_eq holds_at_append)
qed (auto simp: encode_utf8_string_eq encode_uint16_def split: if_splits)

interpretation qos_byte: codec "\<lambda>q. Inr [qos_code q]" "decode_qos"
proof unfold_locales
  fix x bs buf and i e :: nat
  assume "Inr [qos_code x] = (Inr bs :: byte list result)" "holds_at buf i bs" "i + length bs \<le> e"
  then show "decode_qos buf i e = Inr (i + length bs, x)"
    by (auto simp: decode_qos_def deref_def holds_at_Cons)
qed auto

section \<open>The loops of SUBSCRIBE and UNSUBSCRIBE\<close>

text \<open>
  The wire format of a subscription (MQTT 3.8.3); the server itself never encodes one. Only a well
  formed filter has one.
\<close>

definition wire_subscription :: "subscription \<Rightarrow> byte list result" where
  "wire_subscription s =
     rbind (check (well_formed_filter (topic_filter s)) (Malformed Topic_filter_malformed)) (\<lambda>_.
     rbind (encode_utf8_string (topic_filter s)) (\<lambda>bs. Inr (bs @ [qos_code (maximum_qos s)])))"

interpretation subscription_loop:
  codec_loop wire_subscription decode_subscription decode_subscriptions
proof unfold_locales
  fix x bs buf and i e :: nat
  assume "wire_subscription x = Inr bs" "holds_at buf i bs" "i + length bs \<le> e"
  then obtain bs1 where bs: "well_formed_filter (topic_filter x)"
      "encode_utf8_string (topic_filter x) = Inr bs1" "bs = bs1 @ [qos_code (maximum_qos x)]"
      "holds_at buf i bs1" "holds_at buf (i + length bs1) [qos_code (maximum_qos x)]"
      "i + length bs1 \<le> e" "i + length bs1 + length [qos_code (maximum_qos x)] \<le> e"
    by (auto simp: wire_subscription_def result_simps holds_at_append)
  have "new_subscription (topic_filter x) (maximum_qos x) = Inr x"
    using bs(1) by (simp add: new_subscription_Inr_iff)
  then show "decode_subscription buf i e = Inr (i + length bs, x)"
    using utf8_string.dec_enc [OF bs(2,4,6)] qos_byte.dec_enc [OF refl bs(5,7)]
    by (simp add: decode_subscription_def bs(3))
next
  fix buf and i e :: nat
  show "decode_subscriptions buf i e =
      (if i = e then Inr []
       else rbind (decode_subscription buf i e)
         (\<lambda>jx. rbind (decode_subscriptions buf (fst jx) e) (\<lambda>xs. Inr (snd jx # xs))))"
    by (rule decode_subscriptions.simps)
qed (auto simp: wire_subscription_def result_simps)

interpretation topic_filter_loop:
  codec_loop encode_utf8_string decode_utf8_string decode_topic_filters
proof unfold_locales
  fix buf and i e :: nat
  show "decode_topic_filters buf i e =
      (if i = e then Inr []
       else rbind (decode_utf8_string buf i e)
         (\<lambda>jx. rbind (decode_topic_filters buf (fst jx) e) (\<lambda>xs. Inr (snd jx # xs))))"
    by (rule decode_topic_filters.simps)
qed

text \<open>A SUBSCRIBE or UNSUBSCRIBE packet as a client writes it decodes to what the client meant.\<close>

lemma decode_subscribe_wire:
  assumes "enc_list wire_subscription subs = Inr bs" "subs \<noteq> []"
    and "holds_at buf (frame_begin f) (encode_uint16 pktid @ bs)"
    and "frame_end f = frame_begin f + 2 + length bs" "frame_type_and_flags f = 0x82"
  shows "decode_packet buf f =
    Inr (Subscribe (new_subscribe (word_of_nat (2 + length bs)) pktid subs))"
proof -
  have "decode_uint16 buf (frame_begin f) (frame_end f) = Inr (frame_begin f + 2, pktid)"
    using assms(3,4) uint16.dec_enc [OF refl, of buf "frame_begin f" pktid "frame_end f"]
    by (simp add: holds_at_append)
  moreover have "decode_subscriptions buf (frame_begin f + 2) (frame_end f) = Inr subs"
    using assms(1,3,4) by (intro subscription_loop.loop_enc) (auto simp: holds_at_append)
  ultimately show ?thesis
    using assms(2,4,5)
    by (simp add: decode_packet_def decode_subscribe_def frame_type_def frame_remaining_length_def
        distance_def)
qed

lemma decode_unsubscribe_wire:
  assumes "enc_list encode_utf8_string filters = Inr bs" "filters \<noteq> []"
    and "holds_at buf (frame_begin f) (encode_uint16 pktid @ bs)"
    and "frame_end f = frame_begin f + 2 + length bs" "frame_type_and_flags f = 0xA2"
  shows "decode_packet buf f =
    Inr (Unsubscribe (new_unsubscribe (word_of_nat (2 + length bs)) pktid filters))"
proof -
  have "decode_uint16 buf (frame_begin f) (frame_end f) = Inr (frame_begin f + 2, pktid)"
    using assms(3,4) uint16.dec_enc [OF refl, of buf "frame_begin f" pktid "frame_end f"]
    by (simp add: holds_at_append)
  moreover have "decode_topic_filters buf (frame_begin f + 2) (frame_end f) = Inr filters"
    using assms(1,3,4) by (intro topic_filter_loop.loop_enc) (auto simp: holds_at_append)
  ultimately show ?thesis
    using assms(2,4,5)
    by (simp add: decode_packet_def decode_unsubscribe_def frame_type_def
        frame_remaining_length_def distance_def)
qed

section \<open>PUBLISH and its acknowledgements, both ways\<close>

definition topic_name_ok :: "string \<Rightarrow> bool" where
  "topic_name_ok t \<longleftrightarrow> t \<noteq> [] \<and> length t \<le> 65535 \<and> NUL \<notin> set t \<and> plain_level t"

lemma check_well_formed_topic_name_iff:
  "check_well_formed_topic_name t = Inr u \<longleftrightarrow> topic_name_ok t"
  by (auto simp: check_well_formed_topic_name_def topic_name_ok_def plain_level_def)

lemma copy_range_to_end:
  assumes "i \<le> e" "i \<le> length buf"
  shows "copy_range buf i e = Inr bs \<longleftrightarrow> holds_at buf i bs \<and> e = i + length bs"
proof -
  have "e = i + (e - i)"
    using assms(1) by simp
  then show ?thesis
    using copy_range_holds_at [of buf i "e - i" bs] assms by auto
qed

text \<open>The bytes of the body of a PUBLISH packet, as the encoder writes them.\<close>

lemma encode_publish_body_eq:
  assumes "header_type p = PUBLISH" "length (topic p) \<le> 65535"
  shows "encode_publish_body p =
    Inr (encode_uint16 (word_of_nat (length (topic p))) @ map byte_of_char (topic p)
         @ (if has_packet_identifier p then encode_uint16 (packet_identifier p) else [])
         @ application_message p)"
  using assms by (simp add: encode_publish_body_def encode_utf8_string_eq)

definition publish_acceptable :: "publish \<Rightarrow> bool" where
  "publish_acceptable p \<longleftrightarrow> topic_name_ok (topic p) \<and>
     \<not> (publish_dup p \<and> publish_qos p = AT_MOST_ONCE) \<and>
     (publish_qos p = AT_MOST_ONCE \<longrightarrow> packet_identifier p = 0)"

lemma QoS_identifier_cases:
  "q \<noteq> QOS_RESERVED \<Longrightarrow> q \<noteq> AT_MOST_ONCE \<longleftrightarrow> q = AT_LEAST_ONCE \<or> q = EXACTLY_ONCE"
  by (cases q) auto

definition decode_publish_identifier :: "byte list \<Rightarrow> frame \<Rightarrow> nat \<Rightarrow> (nat \<times> u16) result" where
  "decode_publish_identifier buf f pos =
     (if qos_of (frame_type_and_flags f) 1 = AT_LEAST_ONCE \<or> qos_of (frame_type_and_flags f) 1 = EXACTLY_ONCE
      then decode_uint16 buf pos (frame_end f) else Inr (pos, 0))"

lemma decode_publish_Inr_iff:
  "decode_publish buf f = Inr q \<longleftrightarrow>
     (\<exists>tn j pktid k msg. frame_type f = PUBLISH \<and>
        \<not> (dup_of (frame_type_and_flags f) \<and> qos_of (frame_type_and_flags f) 1 = AT_MOST_ONCE) \<and>
        qos_of (frame_type_and_flags f) 1 \<noteq> QOS_RESERVED \<and>
        decode_utf8_string buf (frame_begin f) (frame_end f) = Inr (j, tn) \<and> topic_name_ok tn \<and>
        decode_publish_identifier buf f j = Inr (k, pktid) \<and>
        copy_range buf k (frame_end f) = Inr msg \<and>
        q = Publish \<lparr>type_and_flags = frame_type_and_flags f,
              remaining_length = word_of_int (frame_remaining_length f),
              topic = tn, packet_identifier = pktid, application_message = msg\<rparr>)"
  unfolding decode_publish_def Let_def decode_publish_identifier_def [symmetric]
  by (auto simp: result_simps check_well_formed_topic_name_iff new_publish_Inr_iff frame_type_def)

lemma decode_publish_of_encoding:
  assumes "publish_wf p" "publish_acceptable p" "encode_publish_body p = Inr body"
    and "holds_at buf (frame_begin f) body" "frame_end f = frame_begin f + length body"
    and "frame_type_and_flags f = type_and_flags p"
  shows "decode_publish buf f = Inr (Publish p)"
proof -
  have wf: "header_type p = PUBLISH" "publish_qos p \<noteq> QOS_RESERVED"
      "unat (remaining_length p) = publish_body_length p" and t: "length (topic p) \<le> 65535"
    using assms(1,2) by (auto simp: publish_wf_def publish_acceptable_def topic_name_ok_def)
  let ?i = "frame_begin f" and ?e = "frame_end f"
  let ?tb = "encode_uint16 (word_of_nat (length (topic p))) @ map byte_of_char (topic p)"
  let ?ib = "if has_packet_identifier p then encode_uint16 (packet_identifier p) else []"
  have body: "body = ?tb @ ?ib @ application_message p"
    using assms(3) encode_publish_body_eq [OF wf(1) t] by simp
  have at: "holds_at buf ?i ?tb" "holds_at buf (?i + length ?tb) ?ib"
      "holds_at buf (?i + length ?tb + length ?ib) (application_message p)"
    using assms(4) unfolding body by (simp_all add: holds_at_append add.assoc)
  have e: "?e = ?i + length ?tb + length ?ib + length (application_message p)"
    using assms(5) unfolding body by simp
  have "decode_utf8_string buf ?i ?e = Inr (?i + length ?tb, topic p)"
    using at(1) e t by (intro utf8_string.dec_enc) (auto simp: encode_utf8_string_eq)
  moreover have "decode_publish_identifier buf f (?i + length ?tb)
    = Inr (?i + length ?tb + length ?ib, packet_identifier p)"
    using at(2) e assms(2,6) wf(2)
      uint16.dec_enc [OF refl, of buf "?i + length ?tb" "packet_identifier p" ?e]
    by (auto simp: decode_publish_identifier_def has_packet_identifier_def publish_qos_def
        publish_acceptable_def dest: QoS_identifier_cases)
  moreover have "copy_range buf (?i + length ?tb + length ?ib) ?e = Inr (application_message p)"
    using at(3) e by (subst copy_range_to_end) (auto dest: holds_at_bound)
  moreover have "word_of_int (frame_remaining_length f) = remaining_length p"
  proof -
    have "frame_remaining_length f = int (unat (remaining_length p))"
      using e wf(3) t by (simp add: frame_remaining_length_def distance_def publish_body_length_def)
    then show ?thesis
      by simp
  qed
  ultimately show ?thesis
    using assms(2,6) wf(1,2) unfolding decode_publish_Inr_iff
    by (intro exI conjI) (auto simp: publish_acceptable_def frame_type_def publish_dup_def
        publish_qos_def header_type_def)
qed

lemma decode_publish_identifier_sound:
  assumes "decode_publish_identifier buf f j = Inr (k, pktid)" "j \<le> length buf"
    and "type_and_flags p = frame_type_and_flags f" "packet_identifier p = pktid"
    and "publish_qos p \<noteq> QOS_RESERVED" "j \<le> frame_end f"
  shows "\<exists>ib. ib = (if has_packet_identifier p then encode_uint16 pktid else []) \<and>
    holds_at buf j ib \<and> k = j + length ib \<and> k \<le> frame_end f \<and> (publish_qos p = AT_MOST_ONCE \<longrightarrow> pktid = 0)"
proof (cases "publish_qos p = AT_MOST_ONCE")
  case True
  then show ?thesis
    using assms by (simp add: decode_publish_identifier_def has_packet_identifier_def publish_qos_def)
next
  case False
  then have "decode_uint16 buf j (frame_end f) = Inr (k, pktid)"
    using assms QoS_identifier_cases [OF assms(5)]
    by (simp add: decode_publish_identifier_def publish_qos_def split: if_splits)
  then show ?thesis
    using False uint16.dec_sound by (force simp: has_packet_identifier_def)
qed

lemma unat_frame_length:
  assumes "frame_remaining_length f = int n" "n < 2 ^ 32"
  shows "unat (word_of_int (frame_remaining_length f) :: u32) = n"
  using assms by (simp add: unat_of_nat take_bit_nat_eq_self)

lemma decode_publish_sound:
  assumes "decode_publish buf f = Inr q" "frame_end f - frame_begin f < 2 ^ 32"
  shows "\<exists>p body. q = Publish p \<and> publish_wf p \<and> publish_acceptable p \<and>
    type_and_flags p = frame_type_and_flags f \<and> encode_publish_body p = Inr body \<and>
    holds_at buf (frame_begin f) body \<and> frame_end f = frame_begin f + length body"
proof -
  obtain tn j pktid k msg where
    tf: "frame_type f = PUBLISH"
      "\<not> (dup_of (frame_type_and_flags f) \<and> qos_of (frame_type_and_flags f) 1 = AT_MOST_ONCE)"
      "qos_of (frame_type_and_flags f) 1 \<noteq> QOS_RESERVED"
    and tn: "decode_utf8_string buf (frame_begin f) (frame_end f) = Inr (j, tn)" "topic_name_ok tn"
    and id: "decode_publish_identifier buf f j = Inr (k, pktid)"
    and msg: "copy_range buf k (frame_end f) = Inr msg"
    and q: "q = Publish \<lparr>type_and_flags = frame_type_and_flags f,
              remaining_length = word_of_int (frame_remaining_length f),
              topic = tn, packet_identifier = pktid, application_message = msg\<rparr>"
    using assms(1) unfolding decode_publish_Inr_iff by blast
  define p where "p = \<lparr>type_and_flags = frame_type_and_flags f,
              remaining_length = word_of_int (frame_remaining_length f),
              topic = tn, packet_identifier = pktid, application_message = msg\<rparr>"
  obtain tb where tb: "encode_utf8_string tn = Inr tb" "holds_at buf (frame_begin f) tb"
      "j = frame_begin f + length tb" "j \<le> frame_end f"
    using utf8_string.dec_sound [OF tn(1)] by blast
  have pq: "publish_qos p \<noteq> QOS_RESERVED" "header_type p = PUBLISH"
    using tf by (simp_all add: p_def publish_qos_def header_type_def frame_type_def)
  obtain ib where ib: "ib = (if has_packet_identifier p then encode_uint16 pktid else [])"
      "holds_at buf j ib" "k = j + length ib" "k \<le> frame_end f" "publish_qos p = AT_MOST_ONCE \<Longrightarrow> pktid = 0"
    using decode_publish_identifier_sound [OF id, of p] tb holds_at_bound [OF tb(2)] pq
    by (auto simp: p_def)
  have mb: "holds_at buf k msg" "frame_end f = k + length msg"
    using msg copy_range_to_end [of k "frame_end f" buf msg] ib holds_at_bound [OF ib(2)] by auto
  have len: "frame_end f = frame_begin f + (length tb + length ib + length msg)"
    using tb(3) ib(3) mb(2) by simp
  have lt: "length tb = 2 + length tn" and tn_le: "length tn \<le> 65535"
    using tb(1) tn(2) by (auto simp: encode_utf8_string_eq topic_name_ok_def split: if_splits)
  have body: "encode_publish_body p = Inr (tb @ ib @ msg)"
    using tb(1) tn_le pq ib(1) by (simp add: encode_publish_body_eq p_def encode_utf8_string_eq)
  have "frame_remaining_length f = int (length tb + length ib + length msg)"
    using len by (simp add: frame_remaining_length_def distance_def)
  from unat_frame_length [OF this] have "unat (remaining_length p) = length tb + length ib + length msg"
    using len assms(2) by (simp add: p_def)
  then have "publish_wf p"
    using pq lt ib(1) by (simp add: publish_wf_def publish_body_length_def) (simp add: p_def)
  moreover have "publish_acceptable p"
    using tn(2) tf ib(5) by (simp add: publish_acceptable_def p_def publish_dup_def publish_qos_def)
  moreover have "holds_at buf (frame_begin f) (tb @ ib @ msg)"
    using tb ib mb by (simp add: holds_at_append)
  ultimately show ?thesis
    using q body len p_def by (intro exI [of _ p] exI [of _ "tb @ ib @ msg"]) (auto simp: p_def)
qed

lemma decode_ack_of_encoding:
  assumes "holds_at buf (frame_begin f) (encode_uint16 i)" "frame_end f = frame_begin f + 2"
  shows "frame_type_and_flags f = 0x40 \<Longrightarrow> decode_packet buf f = Inr (Puback (new_puback i))"
    and "frame_type_and_flags f = 0x50 \<Longrightarrow> decode_packet buf f = Inr (Pubrec (new_pubrec i))"
    and "frame_type_and_flags f = 0x62 \<Longrightarrow> decode_packet buf f = Inr (Pubrel (new_pubrel i))"
    and "frame_type_and_flags f = 0x70 \<Longrightarrow> decode_packet buf f = Inr (Pubcomp (new_pubcomp i))"
proof -
  have "decode_uint16 buf (frame_begin f) (frame_end f) = Inr (frame_begin f + 2, i)"
    using assms uint16.dec_enc [OF refl, of buf "frame_begin f" i "frame_end f"] by simp
  then show "frame_type_and_flags f = 0x40 \<Longrightarrow> decode_packet buf f = Inr (Puback (new_puback i))"
    and "frame_type_and_flags f = 0x50 \<Longrightarrow> decode_packet buf f = Inr (Pubrec (new_pubrec i))"
    and "frame_type_and_flags f = 0x62 \<Longrightarrow> decode_packet buf f = Inr (Pubrel (new_pubrel i))"
    and "frame_type_and_flags f = 0x70 \<Longrightarrow> decode_packet buf f = Inr (Pubcomp (new_pubcomp i))"
    by (simp_all add: decode_packet_def frame_type_def type_of_def decode_puback_def decode_pubrec_def
        decode_pubrel_def decode_pubcomp_def)
qed

text \<open>
  What both ends of a connection exchange: PUBLISH packets a decoder accepts, and the four
  acknowledgements as the constructors build them.
\<close>

fun relayed :: "mqtt_packet \<Rightarrow> bool" where
  "relayed (Publish p) \<longleftrightarrow> publish_wf p \<and> publish_acceptable p \<and>
     remaining_length p \<le> MAX_ALLOWED_PACKET_LENGTH"
| "relayed (Puback p) \<longleftrightarrow> p = new_puback (ack_packet_identifier p)"
| "relayed (Pubrec p) \<longleftrightarrow> p = new_pubrec (ack_packet_identifier p)"
| "relayed (Pubrel p) \<longleftrightarrow> p = new_pubrel (ack_packet_identifier p)"
| "relayed (Pubcomp p) \<longleftrightarrow> p = new_pubcomp (ack_packet_identifier p)"
| "relayed _ \<longleftrightarrow> False"

lemma type_and_flags_new_ack:
  "type_and_flags (new_puback i) = 0x40" "type_and_flags (new_pubrec i) = 0x50"
  "type_and_flags (new_pubrel i) = 0x62" "type_and_flags (new_pubcomp i) = 0x70"
  by (simp_all add: new_packet_defs mqtt_ack_def type_into_def)

lemma relayed_sendable: "relayed p \<Longrightarrow> sendable p"
  by (cases p) (metis relayed.simps sendable_new sendable.simps(2) publish_acceptable_def topic_name_ok_def)+

lemma encode_body_new_ack [simp]:
  "encode_body (Puback (new_puback i)) = Inr (encode_uint16 i)"
  "encode_body (Pubrec (new_pubrec i)) = Inr (encode_uint16 i)"
  "encode_body (Pubrel (new_pubrel i)) = Inr (encode_uint16 i)"
  "encode_body (Pubcomp (new_pubcomp i)) = Inr (encode_uint16 i)"
  by (simp_all add: encode_body_defs header_type_def type_and_flags_new_ack type_of_def)

lemma encode_body_publish:
  "header_type p = PUBLISH \<Longrightarrow> encode_body (Publish p) = encode_publish_body p"
  by (simp add: encode_body_def packet_type_def)

lemma decode_packet_publish:
  "frame_type f = PUBLISH \<Longrightarrow> decode_packet buf f = decode_publish buf f"
  by (simp add: decode_packet_def)

lemma decode_packet_of_body:
  assumes "relayed p" "encode_body p = Inr body" "holds_at buf (frame_begin f) body"
    and "frame_end f = frame_begin f + length body" "frame_type_and_flags f = packet_type_and_flags p"
  shows "decode_packet buf f = Inr p"
proof (cases p)
  case (Publish q)
  then have q: "header_type q = PUBLISH" "publish_wf q" "publish_acceptable q"
    using assms(1) by (auto simp: publish_wf_def)
  moreover have "frame_type f = PUBLISH"
    using q(1) assms(5) Publish by (simp add: frame_type_def packet_type_and_flags_def header_type_def)
  ultimately show ?thesis
    using assms decode_publish_of_encoding [of q body buf f]
    by (simp add: Publish encode_body_publish decode_packet_publish packet_type_and_flags_def)
next
  case (Puback q)
  then obtain i where p: "p = Puback (new_puback i)"
    using assms(1) by auto
  then show ?thesis
    using assms
    by (auto simp: packet_type_and_flags_def type_and_flags_new_ack intro: decode_ack_of_encoding)
next
  case (Pubrec q)
  then obtain i where p: "p = Pubrec (new_pubrec i)"
    using assms(1) by auto
  then show ?thesis
    using assms
    by (auto simp: packet_type_and_flags_def type_and_flags_new_ack intro: decode_ack_of_encoding)
next
  case (Pubrel q)
  then obtain i where p: "p = Pubrel (new_pubrel i)"
    using assms(1) by auto
  then show ?thesis
    using assms
    by (auto simp: packet_type_and_flags_def type_and_flags_new_ack intro: decode_ack_of_encoding)
next
  case (Pubcomp q)
  then obtain i where p: "p = Pubcomp (new_pubcomp i)"
    using assms(1) by auto
  then show ?thesis
    using assms
    by (auto simp: packet_type_and_flags_def type_and_flags_new_ack intro: decode_ack_of_encoding)
qed (use assms(1) in auto)

end
