(* ===== verification/Frame_Reading.thy ===== *)
theory Frame_Reading
  imports Codec_Roundtrip
begin

text \<open>
  The frame reader at work: \<^verbatim>\<open>mqtt_connection::read_frame\<close> hands it to \<^verbatim>\<open>asio::async_read\<close> as the
  completion condition. asio is outside this repository; the step relation \<open>read_step\<close> states what
  its documentation promises: before each receive it asks the condition, stops at the answer 0, and
  otherwise receives at least one and at most that many bytes, and never more than the buffer it was
  given at the start can take. The size of the pieces is arbitrary.
\<close>

section \<open>Decoding the length field\<close>

lemma mod_128_take_bit: "(r :: u32) mod 0x80 = take_bit 7 r"
  by (simp add: take_bit_eq_mod)

lemma length_byte_continued:
  "ucast ((r :: u32) mod 0x80 OR 0x80) AND (0x80 :: byte) = 0x80"
  "ucast ((r :: u32) mod 0x80 OR 0x80) AND (NOT 0x80 :: byte) = ucast (take_bit 7 r)"
  unfolding mod_128_take_bit by (auto simp: byte_bits)

lemma length_byte_last:
  "ucast ((r :: u32) mod 0x80) AND (0x80 :: byte) = 0"
  "ucast ((r :: u32) mod 0x80) AND (NOT 0x80 :: byte) = ucast (take_bit 7 r)"
  unfolding mod_128_take_bit by (auto simp: byte_bits)

lemma unat_ucast_take_bit_7: "unat (ucast (take_bit 7 (r :: u32)) :: byte) = unat r mod 128"
  by (simp add: unsigned_ucast_eq unsigned_take_bit_eq take_bit_eq_mod unat_mod mod_mod_cancel)

lemma encode_remaining_length_loop_pos: "0 < length (encode_remaining_length_loop r)"
  by simp

lemma unat_length_byte:
  "unat (ucast ((r :: u32) mod 0x80 OR 0x80) AND (-129 :: byte)) = unat r mod 128"
  "unat (ucast ((r :: u32) mod 0x80) AND (-129 :: byte)) = unat r mod 128"
  using length_byte_continued(2) [of r] length_byte_last(2) [of r]
  by (simp_all add: unat_ucast_take_bit_7)

lemmas length_byte_simps =
  length_byte_continued(1) length_byte_last(1) unat_length_byte

text \<open>
  The decoding loop on a buffer that agrees with an encoded length on the bytes received so far: it
  finds the length when all its bytes are there and asks for more otherwise.
\<close>

lemma length_digits:
  fixes r :: u32
  assumes "1 \<le> i"
  shows "unat r mod 128 * 128 ^ (i - 1) + unat r div 128 * 128 ^ i = unat r * (128::nat) ^ (i - 1)"
proof -
  have "(128::nat) ^ i = 128 * 128 ^ (i - 1)"
    using assms by (cases i) simp_all
  moreover have "unat r mod 128 * m + unat r div 128 * (128 * m) = unat r * m" for m :: nat
    by (metis (no_types) add.commute distrib_right div_mult_mod_eq mult.assoc)
  ultimately show ?thesis
    by simp
qed

lemma remaining_length_loop_encoded:
  assumes "1 \<le> i" "i - 1 + length (encode_remaining_length_loop r) \<le> 4" "n \<le> length buf"
    and "\<And>j. j < length (encode_remaining_length_loop r) \<Longrightarrow> i + j < n \<Longrightarrow>
           buf ! (i + j) = encode_remaining_length_loop r ! j"
  shows "remaining_length_loop buf n i acc =
    Inr (if i + length (encode_remaining_length_loop r) \<le> n
         then Some (acc + unat r * 128 ^ (i - 1), i + length (encode_remaining_length_loop r))
         else None)"
  using assms
proof (induction r arbitrary: i acc rule: encode_remaining_length_loop.induct)
  case (1 r)
  have le4: "i \<le> 4"
    using "1.prems"(1,2) encode_remaining_length_loop_nonempty [of r]
    by (cases "encode_remaining_length_loop r") auto
  show ?case
  proof (cases "i < n")
    case False
    then show ?thesis
      using encode_remaining_length_loop_pos [of r]
      by (subst remaining_length_loop.simps) (simp del: length_greater_0_conv)
  next
    case True
    have byte: "buf ! i = encode_remaining_length_loop r ! 0"
      using "1.prems"(4) [of 0] True by simp
    show ?thesis
    proof (cases "0 < r div 0x80")
      case last: False
      have eq: "encode_remaining_length_loop r = [ucast (r mod 0x80)]"
        using last by (subst encode_remaining_length_loop.simps) (simp add: Let_def)
      have small: "unat r mod 128 = unat r"
        using last by (simp add: word_less_nat_alt unat_div_128)
      show ?thesis
        using True le4 "1.prems"(3) byte
        by (subst remaining_length_loop.simps)
          (simp add: eq deref_def Let_def length_byte_simps small)
    next
      case more: True
      let ?r = "r div 0x80"
      have eq: "encode_remaining_length_loop r = ucast (r mod 0x80 OR 0x80) # encode_remaining_length_loop ?r"
        using more by (subst encode_remaining_length_loop.simps) (simp add: Let_def)
      have IH: "remaining_length_loop buf n (i + 1) acc' =
        Inr (if i + 1 + length (encode_remaining_length_loop ?r) \<le> n
             then Some (acc' + unat ?r * 128 ^ (i + 1 - 1), i + 1 + length (encode_remaining_length_loop ?r))
             else None)" for acc'
      proof (rule "1.IH" [OF refl refl refl more])
        fix j assume "j < length (encode_remaining_length_loop ?r)" "i + 1 + j < n"
        then show "buf ! (i + 1 + j) = encode_remaining_length_loop ?r ! j"
          using "1.prems"(4) [of "Suc j"] by (simp add: eq)
      qed (use "1.prems" in \<open>simp_all add: eq\<close>)
      have step: "remaining_length_loop buf n i acc =
          remaining_length_loop buf n (i + 1) (acc + unat r mod 128 * 128 ^ (i - 1))"
        using True le4 "1.prems"(3) byte
        by (subst remaining_length_loop.simps) (simp add: eq deref_def Let_def length_byte_simps)
      show ?thesis
        unfolding step IH using length_digits [OF "1.prems"(1), of r] by (simp add: eq unat_div_128)
    qed
  qed
qed

section \<open>One answer of the completion condition\<close>

definition frame_bytes :: "byte \<Rightarrow> u32 \<Rightarrow> byte list \<Rightarrow> byte list" where
  "frame_bytes tf rl body = tf # encode_remaining_length_loop rl @ body"

definition frame_of :: "byte \<Rightarrow> u32 \<Rightarrow> byte list \<Rightarrow> frame" where
  "frame_of tf rl body =
     \<lparr>frame_type_and_flags = tf, frame_begin = 1 + length (encode_remaining_length_loop rl),
      frame_end = length (frame_bytes tf rl body)\<rparr>"

lemma decode_remaining_length_frame:
  assumes "rl \<le> MAX_ALLOWED_PACKET_LENGTH" "n \<le> length (reader_buffer r)"
    and "n \<le> length (frame_bytes tf rl body)"
    and "take n (reader_buffer r) = take n (frame_bytes tf rl body)"
  shows "decode_remaining_length r n =
    Inr (if 1 + length (encode_remaining_length_loop rl) \<le> n
         then Some (unat rl, 1 + length (encode_remaining_length_loop rl)) else None)"
proof (cases "n < 2")
  case True
  then show ?thesis
    using encode_remaining_length_loop_pos [of rl]
    by (simp add: decode_remaining_length_def del: length_greater_0_conv)
next
  case False
  have "reader_buffer r ! (1 + j) = encode_remaining_length_loop rl ! j"
    if "j < length (encode_remaining_length_loop rl)" "1 + j < n" for j
  proof -
    have "reader_buffer r ! (1 + j) = frame_bytes tf rl body ! (1 + j)"
      using that(2) assms(4) by (metis nth_take)
    then show ?thesis
      using that(1) by (simp add: frame_bytes_def nth_append)
  qed
  then have "remaining_length_loop (reader_buffer r) n 1 0 =
      Inr (if 1 + length (encode_remaining_length_loop rl) \<le> n
         then Some (0 + unat rl * 128 ^ (1 - 1), 1 + length (encode_remaining_length_loop rl)) else None)"
    using assms(1,2) length_encode_remaining_length_loop_bounds(4) [of rl]
    by (intro remaining_length_loop_encoded)
      (simp_all add: MAX_ALLOWED_PACKET_LENGTH_def word_le_nat_alt)
  then show ?thesis
    using False by (simp add: decode_remaining_length_def)
qed

lemma frame_reader_call_frame:
  assumes "rl \<le> MAX_ALLOWED_PACKET_LENGTH" "length body = unat rl"
    and "n \<le> length (reader_buffer r)" "n \<le> length (frame_bytes tf rl body)"
    and "length (frame_bytes tf rl body) \<le> length (reader_buffer r)"
    and "take n (reader_buffer r) = take n (frame_bytes tf rl body)"
  shows "frame_reader_call False n r =
    (if n < 1 + length (encode_remaining_length_loop rl) then Inr (1, r)
     else if n < length (frame_bytes tf rl body) then Inr (length (frame_bytes tf rl body) - n, r)
     else Inr (0, r\<lparr>reader_frame := Some (frame_of tf rl body)\<rparr>))"
proof -
  have len: "length (frame_bytes tf rl body) = 1 + length (encode_remaining_length_loop rl) + unat rl"
    using assms(2) by (simp add: frame_bytes_def)
  have first: "reader_buffer r ! 0 = tf" if "0 < n"
    using that arg_cong [OF assms(6), of "\<lambda>xs. xs ! 0"] by (simp add: frame_bytes_def)
  show ?thesis
    using assms(3,4,5) len first unfolding frame_reader_call_def
      decode_remaining_length_frame [OF assms(1,3,4,6)]
    by (auto simp: Let_def size_minus_def deref_def frame_of_def)
qed

section \<open>Reading a frame piece by piece\<close>

text \<open>A state of the read: the reader with its buffer, the bytes received, the bytes to come.\<close>

type_synonym read_state = "frame_reader \<times> nat \<times> byte list"

definition store_chunk :: "nat \<Rightarrow> byte list \<Rightarrow> frame_reader \<Rightarrow> frame_reader" where
  "store_chunk n chunk r =
     r\<lparr>reader_buffer :=
        take n (reader_buffer r) @ chunk @ drop (n + length chunk) (reader_buffer r)\<rparr>"

inductive read_step :: "nat \<Rightarrow> read_state \<Rightarrow> read_state \<Rightarrow> bool" for capacity :: nat where
  receive: "\<lbrakk>frame_reader_call False n r = Inr (k, r'); chunk \<noteq> []; length chunk \<le> k;
     length (reader_buffer r') = capacity; n + length chunk \<le> capacity\<rbrakk>
   \<Longrightarrow> read_step capacity (r, n, chunk @ stream)
         (store_chunk n chunk r', n + length chunk, stream)"

inductive_cases read_stepE: "read_step capacity s s'"

definition reading :: "byte list \<Rightarrow> byte list \<Rightarrow> nat \<Rightarrow> read_state \<Rightarrow> bool" where
  "reading fr rest capacity = (\<lambda>(r, n, stream).
     n \<le> length fr \<and> stream = drop n (fr @ rest) \<and> length (reader_buffer r) = capacity \<and>
     take n (reader_buffer r) = take n fr \<and> reader_frame r = None)"

lemma read_step_reading:
  assumes "rl \<le> MAX_ALLOWED_PACKET_LENGTH" "length body = unat rl"
    and "length (frame_bytes tf rl body) \<le> capacity"
    and "read_step capacity s s'" "reading (frame_bytes tf rl body) rest capacity s"
  shows "reading (frame_bytes tf rl body) rest capacity s' \<and> fst (snd s) < fst (snd s')"
  using assms(4)
proof (rule read_stepE)
  fix n r k r' chunk stream
  let ?fr = "frame_bytes tf rl body"
  assume s: "s = (r, n, chunk @ stream)" "s' = (store_chunk n chunk r', n + length chunk, stream)"
    and call: "frame_reader_call False n r = Inr (k, r')"
    and chunk: "chunk \<noteq> []" "length chunk \<le> k" "n + length chunk \<le> capacity"
  have inv: "n \<le> length ?fr" "chunk @ stream = drop n (?fr @ rest)"
      "length (reader_buffer r) = capacity" "take n (reader_buffer r) = take n ?fr" "reader_frame r = None"
    using assms(5) by (auto simp: reading_def s)
  have "r' = r \<and> k \<le> length ?fr - n"
    using call chunk frame_reader_call_frame [OF assms(1,2) _ inv(1) _ inv(4)] inv(1,3) assms(3)
    by (auto simp: frame_bytes_def split: if_splits)
  then have r': "r' = r" and k: "n + length chunk \<le> length ?fr"
    using chunk inv(1) by auto
  have "chunk = take (length chunk) (drop n (?fr @ rest))"
    using inv(2) by (metis append_eq_conv_conj)
  then have chunk_eq: "chunk = take (length chunk) (drop n ?fr)"
    using k by simp
  have "take (n + length chunk) ?fr = take n ?fr @ chunk"
    using chunk_eq by (metis take_add)
  moreover have "stream = drop (n + length chunk) (?fr @ rest)"
    using inv(2) by (metis add.commute append_eq_conv_conj drop_drop)
  ultimately show ?thesis
    using inv k chunk r' by (simp add: reading_def s store_chunk_def)
qed

lemma read_steps_reading:
  assumes "rl \<le> MAX_ALLOWED_PACKET_LENGTH" "length body = unat rl"
    and "length (frame_bytes tf rl body) \<le> capacity"
    and "(read_step capacity)\<^sup>*\<^sup>* s s'" "reading (frame_bytes tf rl body) rest capacity s"
  shows "reading (frame_bytes tf rl body) rest capacity s'"
  using assms(4,5) by induction (use read_step_reading [OF assms(1-3)] in blast)+

lemma reading_start:
  "length buffer = capacity \<Longrightarrow> reading fr rest capacity (new_frame_reader buffer, 0, fr @ rest)"
  by (simp add: reading_def new_frame_reader_def)

text \<open>The read never gets stuck before the frame is complete, whatever the size of the pieces.\<close>

lemma read_progress:
  assumes "rl \<le> MAX_ALLOWED_PACKET_LENGTH" "length body = unat rl"
    and "length (frame_bytes tf rl body) \<le> capacity"
    and "reading (frame_bytes tf rl body) rest capacity (r, n, stream)"
    and "n < length (frame_bytes tf rl body)"
  shows "\<exists>s'. read_step capacity (r, n, stream) s'"
proof -
  let ?fr = "frame_bytes tf rl body"
  have inv: "n \<le> length ?fr" "stream = drop n (?fr @ rest)"
      "length (reader_buffer r) = capacity" "take n (reader_buffer r) = take n ?fr" "reader_frame r = None"
    using assms(4) by (auto simp: reading_def)
  have "stream \<noteq> []"
    using inv(2) assms(5) by simp
  then obtain c cs where c: "stream = [c] @ cs"
    by (cases stream) simp_all
  obtain k where "frame_reader_call False n r = Inr (k, r)" "1 \<le> k"
    using frame_reader_call_frame [OF assms(1,2) _ inv(1) _ inv(4)] inv(1,3) assms(3,5)
    by (cases "n < 1 + length (encode_remaining_length_loop rl)") simp_all
  then have "read_step capacity (r, n, [c] @ cs) (store_chunk n [c] r, n + length [c], cs)"
    using inv assms(3,5) by (intro read_step.receive) auto
  then show ?thesis
    unfolding c by blast
qed

lemma read_reaches_end:
  assumes "rl \<le> MAX_ALLOWED_PACKET_LENGTH" "length body = unat rl"
    and "length (frame_bytes tf rl body) \<le> capacity"
    and "reading (frame_bytes tf rl body) rest capacity (r, n, stream)"
  shows "\<exists>r'. (read_step capacity)\<^sup>*\<^sup>* (r, n, stream) (r', length (frame_bytes tf rl body), rest) \<and>
    reading (frame_bytes tf rl body) rest capacity (r', length (frame_bytes tf rl body), rest)"
  using assms(4)
proof (induction "length (frame_bytes tf rl body) - n" arbitrary: r n stream rule: less_induct)
  case less
  let ?fr = "frame_bytes tf rl body"
  show ?case
  proof (cases "n < length ?fr")
    case False
    then have "n = length ?fr" "stream = rest"
      using less.prems by (auto simp: reading_def)
    then show ?thesis
      using less.prems by blast
  next
    case True
    then obtain r1 n1 stream1 where one: "read_step capacity (r, n, stream) (r1, n1, stream1)"
      using read_progress [OF assms(1-3) less.prems] by (metis prod_cases3)
    have "reading ?fr rest capacity (r1, n1, stream1)" "n < n1"
      using read_step_reading [OF assms(1-3) one less.prems] by auto
    then show ?thesis
      using less.hyps [of n1 r1 stream1] True one by (meson converse_rtranclp_into_rtranclp diff_less_mono2)
  qed
qed

end
