(* ===== verification/Sockets.thy ===== *)
theory Sockets
  imports Wally_Prelude
begin

text \<open>
  What the program asks a TCP socket for, besides reading and writing: whether it is open and the
  endpoints it connects, with their text in the log (\<^verbatim>\<open>logging_support.hpp\<close> and the descriptions of
  \<^verbatim>\<open>mqtt_connection.cpp\<close>). asio's \<^verbatim>\<open>remote_endpoint( )\<close> throws \<^verbatim>\<open>std::system_error\<close> on a closed socket and
  on one the peer has reset; the text of an address is asio's, so an endpoint holds it as a string. The
  section on decimal numbers serves \<^verbatim>\<open>std::to_string\<close> and stream output everywhere.
\<close>

section \<open>Decimal numbers\<close>

definition digit :: "nat \<Rightarrow> char" where
  "digit d = char_of (48 + d)"

definition is_digit :: "char \<Rightarrow> bool" where
  "is_digit c \<longleftrightarrow> 48 \<le> (of_char c :: nat) \<and> (of_char c :: nat) \<le> 57"

fun decimal :: "nat \<Rightarrow> string" where
  "decimal n = (if n < 10 then [digit n] else decimal (n div 10) @ [digit (n mod 10)])"

declare decimal.simps [simp del]

definition read_decimal :: "string \<Rightarrow> nat" where
  "read_decimal s = foldl (\<lambda>n c. 10 * n + (of_char c - 48)) 0 s"

lemma of_char_digit: "d < 10 \<Longrightarrow> of_char (digit d) = 48 + d"
  by (simp add: digit_def)

lemma is_digit_digit: "d < 10 \<Longrightarrow> is_digit (digit d)"
  by (simp add: is_digit_def of_char_digit)

lemma read_decimal_decimal [simp]: "read_decimal (decimal n) = n"
proof (induction n rule: decimal.induct)
  case (1 n)
  then show ?case
    by (subst decimal.simps) (simp add: read_decimal_def of_char_digit)
qed

lemma decimal_inject [simp]: "decimal m = decimal n \<longleftrightarrow> m = n"
  by (metis read_decimal_decimal)

lemma digits_of_decimal: "c \<in> set (decimal n) \<Longrightarrow> is_digit c"
proof (induction n rule: decimal.induct)
  case (1 n)
  then show ?case
    by (subst (asm) decimal.simps) (auto simp: is_digit_digit split: if_splits)
qed

text \<open>A number followed by something that is not a digit can be read off again.\<close>

lemma decimal_append_inject:
  assumes "\<not> is_digit x" "\<not> is_digit y"
  shows "decimal m @ x # xs = decimal n @ y # ys \<longleftrightarrow> m = n \<and> x = y \<and> xs = ys"
proof
  assume eq: "decimal m @ x # xs = decimal n @ y # ys"
  have "takeWhile is_digit (decimal m @ x # xs) = decimal m" if "\<not> is_digit x" for m x and xs :: string
    using that by (simp add: takeWhile_append2 digits_of_decimal)
  then have "decimal m = decimal n"
    using eq assms by metis
  then show "m = n \<and> x = y \<and> xs = ys"
    using eq by simp
qed simp

lemma not_digits [simp]: "\<not> is_digit CHR '']''" "\<not> is_digit CHR ''|''" "\<not> is_digit CHR '':''"
  by (simp_all add: is_digit_def)

section \<open>Endpoints\<close>

record endpoint =
  ep_address :: string
  ep_port :: u16

text \<open>A socket: an endpoint is \<open>None\<close> if the operating system does not know it (any more).\<close>

record tcp_socket =
  sock_open :: bool
  sock_local :: "endpoint option"
  sock_remote :: "endpoint option"

definition local_endpoint :: "tcp_socket \<Rightarrow> endpoint result" where
  "local_endpoint s =
     (if \<not> sock_open s then Inl System_error
      else case sock_local s of None \<Rightarrow> Inl System_error | Some ep \<Rightarrow> Inr ep)"

definition remote_endpoint :: "tcp_socket \<Rightarrow> endpoint result" where
  "remote_endpoint s =
     (if \<not> sock_open s then Inl System_error
      else case sock_remote s of None \<Rightarrow> Inl System_error | Some ep \<Rightarrow> Inr ep)"

section \<open>Descriptions of connections\<close>

definition endpoint_description :: "tcp_socket \<Rightarrow> string result" where
  "endpoint_description s =
     (if sock_open s
      then rbind (remote_endpoint s) (\<lambda>address.
           rbind (remote_endpoint s) (\<lambda>port.
           Inr (''connection/'' @ ep_address address @ '':'' @ decimal (unat (ep_port port)))))
      else Inr ''connection/DISCONNECTED'')"

definition connection_description :: "tcp_socket \<Rightarrow> string \<Rightarrow> string result" where
  "connection_description s client_id =
     (if sock_open s
      then rbind (remote_endpoint s) (\<lambda>address.
           rbind (remote_endpoint s) (\<lambda>port.
           Inr (''connection/'' @ ep_address address @ '':'' @ decimal (unat (ep_port port)) @ ''/'' @ client_id)))
      else Inr (''connection/DISCONNECTED/'' @ client_id))"

definition anonymous :: string where "anonymous = ''ANON''"

section \<open>Log output of sockets\<close>

definition endpoint_string :: "endpoint \<Rightarrow> string" where
  "endpoint_string ep = ''[addr:'' @ ep_address ep @ ''|port:'' @ decimal (unat (ep_port ep)) @ '']''"

definition socket_string :: "tcp_socket \<Rightarrow> string result" where
  "socket_string s =
     (if sock_open s
      then rbind (local_endpoint s) (\<lambda>here.
           rbind (remote_endpoint s) (\<lambda>there.
           Inr (''local:'' @ endpoint_string here @ ''/remote:'' @ endpoint_string there)))
      else Inr ''[CLOSED SOCKET]'')"

definition acceptor_string :: "tcp_socket \<Rightarrow> string result" where
  "acceptor_string s =
     (if sock_open s
      then rbind (local_endpoint s) (\<lambda>here. Inr (''accept:'' @ endpoint_string here))
      else Inr ''[CLOSED ACCEPTOR]'')"

section \<open>When they throw\<close>

text \<open>
  The description of a connection exists unless the socket is open and the peer has reset it; a closed
  socket is described without asking for its peer. Asking for the peer directly is less forgiving.
\<close>

definition peer_known :: "tcp_socket \<Rightarrow> bool" where
  "peer_known s \<longleftrightarrow> sock_open s \<and> sock_remote s \<noteq> None"

lemma remote_endpoint_cases:
  "peer_known s \<Longrightarrow> \<exists>ep. sock_remote s = Some ep \<and> remote_endpoint s = Inr ep"
  "\<not> peer_known s \<Longrightarrow> remote_endpoint s = Inl System_error"
  by (auto simp: remote_endpoint_def peer_known_def split: option.split)

lemma descriptions_throw_iff:
  "endpoint_description s = Inl e \<longleftrightarrow> e = System_error \<and> sock_open s \<and> sock_remote s = None"
  "connection_description s cid = Inl e \<longleftrightarrow> e = System_error \<and> sock_open s \<and> sock_remote s = None"
  by (auto simp: endpoint_description_def connection_description_def remote_endpoint_def split: option.split)

lemma connection_description_known:
  "peer_known s \<Longrightarrow> \<exists>d. connection_description s cid = Inr d"
  "peer_known s \<Longrightarrow> \<exists>d. endpoint_description s = Inr d"
  by (auto simp: connection_description_def endpoint_description_def remote_endpoint_def peer_known_def)

text \<open>The description of a connection identifies its client.\<close>

lemma connection_description_identifies_client:
  assumes "connection_description s cid = Inr d" "connection_description s cid' = Inr d"
  shows "cid = cid'"
  using assms by (auto simp: connection_description_def result_simps split: if_splits)

end
