(* ===== verification/Connection.thy ===== *)
theory Connection
  imports Session_Invariant Decoder_Safety Frame_Reading Sockets
begin

text \<open>
  One client connection: \<^verbatim>\<open>mqtt_connection.cpp\<close>. Its callbacks run one at a time. A callback of the
  connection \<open>self\<close> transforms the connection and the session manager it dispatches to, and has effects
  on connections (its own and, through the dispatcher, others), which \<open>write_packet\<close> turns into
  bytes. asio calls back later: an outstanding read, an armed timer, a write whose completion closes
  the connection and a requested stop are parts of the state, and their completions are operations.

  \<^verbatim>\<open>stop\<close> asks asio to run \<^verbatim>\<open>connection_manager_.stop\<close> on the connection's strand. asio may do so inside
  the call or later; the surroundings say which (\<open>env_inline\<close>), so both orders are covered.

  The socket of a connection knows its peer until the peer resets the connection, which may happen at
  any time; \<^verbatim>\<open>remote_endpoint( )\<close> then throws.

  The authentication service is pluggable (\<^verbatim>\<open>spi/authentication_service_factory.hpp\<close>): a parameter.
\<close>

section \<open>State\<close>

datatype disconnect_reason =
    not_a_disconnect | client_disconnect | authentication_failed | protocol_violation
  | keep_alive_timeout_expired | network_or_server_failure

record connection =
  con_client_id :: "string option"
  con_description :: string
  con_socket :: tcp_socket
  con_keep_alive :: "u16 option"
  con_keep_alive_timer :: bool
  con_connect_timer :: bool
  con_reader :: frame_reader
  con_reading :: bool
  con_transferred :: nat
  con_close_after_write :: "disconnect_reason option"
  con_stop_requested :: bool

abbreviation con_open :: "connection \<Rightarrow> bool" where
  "con_open c \<equiv> sock_open (con_socket c)"

text \<open>
  \<open>con_reading\<close>: a read of a frame is outstanding, of which \<open>con_transferred\<close> bytes have arrived. The
  surroundings of a callback: which connections exist and which identifier each one has.
\<close>

record surroundings =
  env_alive :: "conn \<Rightarrow> bool"
  env_client_id :: "conn \<Rightarrow> string option"
  env_authenticate :: "string \<Rightarrow> string option \<Rightarrow> string option \<Rightarrow> bool"
  env_read_buffer_size :: nat
  env_inline :: bool

type_synonym con_result = "(connection \<times> session_manager \<times> effects) result"

text \<open>
  The constructor describes the connection and names its logger by the endpoint of the peer, which throws
  if the peer has reset the connection since it was accepted.
\<close>

definition new_connection :: "nat \<Rightarrow> tcp_socket \<Rightarrow> connection result" where
  "new_connection read_buffer_size socket =
     rbind (connection_description socket anonymous) (\<lambda>description.
     rbind (endpoint_description socket) (\<lambda>logger_name.
     Inr \<lparr>con_client_id = None, con_description = description, con_socket = socket, con_keep_alive = None,
          con_keep_alive_timer = False, con_connect_timer = False,
          con_reader = new_frame_reader (replicate read_buffer_size 0), con_reading = False,
          con_transferred = 0, con_close_after_write = None, con_stop_requested = False\<rparr>))"

section \<open>Reading, stopping, timers\<close>

definition read_frame :: "connection \<Rightarrow> connection" where
  "read_frame c = (if \<not> con_open c then c else c\<lparr>con_reading := True, con_transferred := 0\<rparr>)"

definition close_on_connect_timeout :: "connection \<Rightarrow> connection" where
  "close_on_connect_timeout c = c\<lparr>con_connect_timer := True\<rparr>"

definition start_connection :: "connection \<Rightarrow> connection" where
  "start_connection c = read_frame (close_on_connect_timeout c)"

text \<open>
  \<^verbatim>\<open>do_stop\<close> is run by the connection manager. Closing the socket ends an outstanding read with
  \<^verbatim>\<open>operation_aborted\<close>.
\<close>

definition do_stop :: "connection \<Rightarrow> connection" where
  "do_stop c =
     c\<lparr>con_connect_timer := False, con_keep_alive_timer := False,
       con_socket := (con_socket c)\<lparr>sock_open := False\<rparr>\<rparr>"

definition stop_connection :: "bool \<Rightarrow> connection \<Rightarrow> connection" where
  "stop_connection inline c =
     (let c = c\<lparr>con_stop_requested := True\<rparr> in if inline then do_stop c else c)"

definition close_on_keep_alive_timeout :: "connection \<Rightarrow> connection" where
  "close_on_keep_alive_timeout c =
     (case con_keep_alive c of None \<Rightarrow> c | Some _ \<Rightarrow> c\<lparr>con_keep_alive_timer := True\<rparr>)"

section \<open>Writing\<close>

text \<open>The bytes handed to the socket; nothing if the socket was closed meanwhile.\<close>

definition write_packet :: "mqtt_packet \<Rightarrow> connection \<Rightarrow> byte list result" where
  "write_packet p c =
     (if \<not> con_open c then Inr []
      else encode_packet p (unat (packet_total_length p)))"

definition write_packet_and_close_connection ::
  "conn \<Rightarrow> mqtt_packet \<Rightarrow> disconnect_reason \<Rightarrow> connection \<Rightarrow> connection \<times> effects" where
  "write_packet_and_close_connection self p reason c =
     (if \<not> con_open c then (c, [])
      else (c\<lparr>con_close_after_write := Some reason\<rparr>, [(self, Send p)]))"

section \<open>Closing\<close>

text \<open>The client identifier is dereferenced without a test.\<close>

definition dispatch_to ::
  "surroundings \<Rightarrow> conn \<Rightarrow> mqtt_packet \<Rightarrow> connection \<Rightarrow> session_manager
   \<Rightarrow> (session_manager \<times> effects) result" where
  "dispatch_to env self p c sm =
     (case con_client_id c of
        None \<Rightarrow> Inl Undefined_behaviour
      | Some cid \<Rightarrow>
          handle_packet_received (env_alive env) ((env_client_id env)(self \<mapsto> cid))
            \<lparr>pc_client_id = cid, pc_connection = self, pc_packet = p\<rparr> sm)"

definition dispatch_disconnect_packet ::
  "surroundings \<Rightarrow> conn \<Rightarrow> connection \<Rightarrow> session_manager \<Rightarrow> con_result" where
  "dispatch_disconnect_packet env self c sm =
     rbind (dispatch_to env self (Disconnect new_disconnect) c sm) (\<lambda>(sm', out).
     Inr (stop_connection (env_inline env) c, sm', out))"

definition connection_close_requested ::
  "surroundings \<Rightarrow> conn \<Rightarrow> disconnect_reason \<Rightarrow> connection \<Rightarrow> session_manager \<Rightarrow> con_result" where
  "connection_close_requested env self reason c sm =
     (case con_client_id c of
        None \<Rightarrow> Inr (stop_connection (env_inline env) c, sm, [])
      | Some cid \<Rightarrow>
          if reason = network_or_server_failure \<or> reason = protocol_violation \<or>
             reason = keep_alive_timeout_expired
          then rbind (dispatcher_client_disconnected_ungracefully (env_alive env) cid sm) (\<lambda>(sm', out).
               Inr (stop_connection (env_inline env) c, sm', out))
          else dispatch_disconnect_packet env self c sm)"

section \<open>Processing packets\<close>

definition process_connect_packet ::
  "surroundings \<Rightarrow> conn \<Rightarrow> connect \<Rightarrow> connection \<Rightarrow> session_manager \<Rightarrow> con_result" where
  "process_connect_packet env self con c sm =
     (case con_client_id c of
        Some _ \<Rightarrow> connection_close_requested env self protocol_violation c sm
      | None \<Rightarrow>
          rbind (remote_endpoint (con_socket c)) (\<lambda>peer.
          if \<not> env_authenticate env (ep_address peer) (username con) (password con) then
            let (c', out) = write_packet_and_close_connection self
                  (Connack (new_connack False BAD_USERNAME_OR_PASSWORD)) authentication_failed c
            in Inr (c', sm, out)
          else
            rbind (connection_description (con_socket c) (client_id con)) (\<lambda>description.
            let c = c\<lparr>con_connect_timer := False, con_client_id := Some (client_id con),
                      con_description := description\<rparr>;
                c = (if keep_alive_secs con > 0
                     then close_on_keep_alive_timeout (c\<lparr>con_keep_alive := Some (keep_alive_secs con)\<rparr>)
                     else c)
            in rbind (dispatch_to env self (Connect con) c sm) (\<lambda>(sm', out).
               Inr (c, sm', out @ [(self, Send (Connack (new_connack False CONNECTION_ACCEPTED)))])))))"

definition process_decoded_packet ::
  "surroundings \<Rightarrow> conn \<Rightarrow> mqtt_packet \<Rightarrow> connection \<Rightarrow> session_manager \<Rightarrow> con_result" where
  "process_decoded_packet env self p c sm =
     (let t = packet_type p in
      if t = CONNECT then
        (case p of
           Connect con \<Rightarrow>
             rbind (process_connect_packet env self con c sm) (\<lambda>(c', sm', out).
             Inr (read_frame c', sm', out))
         | _ \<Rightarrow> Inl Undefined_behaviour)
      else if t = PINGREQ then Inr (read_frame c, sm, [(self, Send (Pingresp new_pingresp))])
      else if t = DISCONNECT then dispatch_disconnect_packet env self c sm
      else if t \<in> {SUBSCRIBE, UNSUBSCRIBE, PUBLISH, PUBACK, PUBREC, PUBREL, PUBCOMP} then
        rbind (dispatch_to env self p c sm) (\<lambda>(sm', out). Inr (read_frame c, sm', out))
      else Inl Assertion_failed)"

text \<open>
  Only \<^verbatim>\<open>malformed_mqtt_packet\<close> is caught, whether the decoder or the processing throws it; any
  other exception leaves the callback and, through the asio loop, ends the process. The read buffer
  gets its configured size back after decoding.
\<close>

definition resize_buffer :: "nat \<Rightarrow> byte list \<Rightarrow> byte list" where
  "resize_buffer n buf = take n buf @ replicate (n - length buf) 0"

definition decode_and_process ::
  "surroundings \<Rightarrow> conn \<Rightarrow> connection \<Rightarrow> session_manager \<Rightarrow> con_result" where
  "decode_and_process env self c sm =
     rbind (case get_frame (con_reader c) of None \<Rightarrow> Inl Assertion_failed | Some f \<Rightarrow> Inr f) (\<lambda>f.
     case rbind (decode_packet (reader_buffer (con_reader c)) f) (\<lambda>p.
            let r = reset_frame_reader (con_reader c);
                r = r\<lparr>reader_buffer := resize_buffer (env_read_buffer_size env) (reader_buffer r)\<rparr>
            in process_decoded_packet env self p (c\<lparr>con_reader := r\<rparr>) sm) of
       Inl (Malformed m) \<Rightarrow> connection_close_requested env self protocol_violation c sm
     | r \<Rightarrow> r)"

section \<open>Completions\<close>

datatype completion = Success | Operation_aborted | Network_error

definition on_read_failed ::
  "surroundings \<Rightarrow> conn \<Rightarrow> completion \<Rightarrow> connection \<Rightarrow> session_manager \<Rightarrow> con_result" where
  "on_read_failed env self ec c sm =
     rbind (cpp_assert (ec \<noteq> Success)) (\<lambda>_.
     if ec \<noteq> Operation_aborted
     then connection_close_requested env self network_or_server_failure c sm
     else Inr (c, sm, []))"

definition handle_keep_alive_timeout ::
  "surroundings \<Rightarrow> conn \<Rightarrow> completion \<Rightarrow> connection \<Rightarrow> session_manager \<Rightarrow> con_result" where
  "handle_keep_alive_timeout env self ec c sm =
     (case ec of
        Success \<Rightarrow> connection_close_requested env self keep_alive_timeout_expired c sm
      | Operation_aborted \<Rightarrow>
          Inr (if con_open c then close_on_keep_alive_timeout c else c, sm, [])
      | Network_error \<Rightarrow> Inl Assertion_failed)"

text \<open>
  A packet was received, so the keep alive timer is cancelled; its callback then runs with
  \<^verbatim>\<open>operation_aborted\<close> and starts it anew.
\<close>

definition on_frame_read ::
  "surroundings \<Rightarrow> conn \<Rightarrow> completion \<Rightarrow> connection \<Rightarrow> session_manager \<Rightarrow> con_result" where
  "on_frame_read env self ec c sm =
     (let c = c\<lparr>con_reading := False, con_keep_alive_timer := False\<rparr>
      in if ec \<noteq> Success then on_read_failed env self ec c sm
         else decode_and_process env self c sm)"

text \<open>
  \<^verbatim>\<open>asio::async_read\<close> with the frame reader as its completion condition: while the condition asks for
  more bytes and the buffer it was given has room, some of them arrive and the condition is called
  again. A condition that grows \<^verbatim>\<open>read_buffer_\<close> moves the memory asio goes on writing to (the vector was
  created with exactly the configured size). An exception of the condition leaves the asio loop.
\<close>

definition bytes_wanted :: "connection \<Rightarrow> nat" where
  "bytes_wanted c =
     (case frame_reader_call False (con_transferred c) (con_reader c) of
        Inl e \<Rightarrow> 0
      | Inr (k, r) \<Rightarrow> min k (length (reader_buffer (con_reader c)) - con_transferred c))"

definition bytes_received ::
  "surroundings \<Rightarrow> conn \<Rightarrow> byte list \<Rightarrow> connection \<Rightarrow> session_manager \<Rightarrow> con_result" where
  "bytes_received env self chunk c sm =
     (let r = store_chunk (con_transferred c) chunk (con_reader c);
          n = con_transferred c + length chunk
      in rbind (frame_reader_call False n r) (\<lambda>(k, r').
         rbind (check (length (reader_buffer r') = length (reader_buffer r)) Undefined_behaviour) (\<lambda>_.
         let c = c\<lparr>con_reader := r', con_transferred := n\<rparr>
         in if k = 0 \<or> n = length (reader_buffer r') then on_frame_read env self Success c sm
            else Inr (c, sm, []))))"

definition connect_timeout_expired ::
  "surroundings \<Rightarrow> conn \<Rightarrow> completion \<Rightarrow> connection \<Rightarrow> session_manager \<Rightarrow> con_result" where
  "connect_timeout_expired env self ec c sm =
     (if ec = Success then connection_close_requested env self protocol_violation c sm
      else Inr (c, sm, []))"

text \<open>The completion of a write, and of the write after which the connection is to be closed.\<close>

definition on_packet_written ::
  "surroundings \<Rightarrow> conn \<Rightarrow> completion \<Rightarrow> connection \<Rightarrow> session_manager \<Rightarrow> con_result" where
  "on_packet_written env self ec c sm =
     (if ec \<noteq> Success then connection_close_requested env self network_or_server_failure c sm
      else Inr (c, sm, []))"

definition on_last_packet_written ::
  "surroundings \<Rightarrow> conn \<Rightarrow> completion \<Rightarrow> connection \<Rightarrow> session_manager \<Rightarrow> con_result" where
  "on_last_packet_written env self ec c sm =
     (case con_close_after_write c of
        None \<Rightarrow> Inr (c, sm, [])
      | Some reason \<Rightarrow>
          connection_close_requested env self reason (c\<lparr>con_close_after_write := None\<rparr>) sm)"

end
