(* ===== verification/Server.thy ===== *)
theory Server
  imports Connection
begin

text \<open>
  The server around its connections: \<^verbatim>\<open>mqtt_connection_manager.cpp\<close> and \<^verbatim>\<open>mqtt_server.cpp\<close>. The state
  holds the connection objects that exist, those among them the manager keeps, and the state of the
  dispatcher. The network thread takes one completion after the other: an accepted connection, bytes,
  a failed read, an expired or cancelled timer, a finished write, a requested stop, a termination
  signal. \<open>server_handle\<close> is what happens then, with the bytes written to sockets as output.

  Effects a callback has on connections (packets to send, connections to stop) are performed after
  its changes of state. A connection only reads its socket state and encodes when it sends, so this
  order cannot be told from the code's.
\<close>

section \<open>State\<close>

record config =
  cfg_read_buffer_size :: nat
  cfg_max_retries :: nat
  cfg_authenticate :: "string \<Rightarrow> string option \<Rightarrow> string option \<Rightarrow> bool"

record server =
  srv_objects :: "conn \<rightharpoonup> connection"
  srv_connections :: "conn set"
  srv_next_connection :: conn
  srv_sessions :: session_manager
  srv_acceptor_open :: bool
  srv_accepting :: bool
  srv_connections_closed :: bool

type_synonym writes = "(conn \<times> byte list) list"

definition put_connection :: "conn \<Rightarrow> connection \<Rightarrow> server \<Rightarrow> server" where
  "put_connection c con s = s\<lparr>srv_objects := (srv_objects s)(c \<mapsto> con)\<rparr>"

section \<open>The connection manager\<close>

definition cm_start :: "conn \<Rightarrow> connection \<Rightarrow> server \<Rightarrow> server" where
  "cm_start c con s =
     put_connection c (start_connection con) (s\<lparr>srv_connections := insert c (srv_connections s)\<rparr>)"

definition cm_stop :: "conn \<Rightarrow> connection \<Rightarrow> server \<Rightarrow> server" where
  "cm_stop c con s =
     put_connection c (do_stop con) (s\<lparr>srv_connections := srv_connections s - {c}\<rparr>)"

definition cm_stop_all :: "server \<Rightarrow> server" where
  "cm_stop_all s =
     s\<lparr>srv_objects := (\<lambda>c. if c \<in> srv_connections s then map_option do_stop (srv_objects s c)
                        else srv_objects s c),
       srv_connections := {}\<rparr>"

section \<open>Accepting and closing connections\<close>

definition new_server :: server where
  "new_server =
     \<lparr>srv_objects = Map.empty, srv_connections = {}, srv_next_connection = 0,
      srv_sessions = new_session_manager, srv_acceptor_open = False, srv_accepting = False,
      srv_connections_closed = False\<rparr>"

definition do_accept :: "server \<Rightarrow> server" where
  "do_accept s = s\<lparr>srv_accepting := True\<rparr>"

definition server_run :: "server \<Rightarrow> server" where
  "server_run s = do_accept (s\<lparr>srv_acceptor_open := True\<rparr>)"

definition create_connection :: "config \<Rightarrow> tcp_socket \<Rightarrow> server \<Rightarrow> (conn \<times> connection \<times> server) result" where
  "create_connection cfg socket s =
     rbind (new_connection (cfg_read_buffer_size cfg) socket) (\<lambda>con.
     Inr (srv_next_connection s, con, s\<lparr>srv_next_connection := srv_next_connection s + 1\<rparr>))"

datatype accept_result = Accept_failed | Socket_accepted tcp_socket

definition on_accepted :: "config \<Rightarrow> accept_result \<Rightarrow> server \<Rightarrow> server result" where
  "on_accepted cfg result s =
     (let s = s\<lparr>srv_accepting := False\<rparr>
      in if \<not> srv_acceptor_open s then Inr s
         else
           rbind (case result of
                    Accept_failed \<Rightarrow> Inr s
                  | Socket_accepted socket \<Rightarrow>
                      rbind (create_connection cfg socket s) (\<lambda>(c, con, s). Inr (cm_start c con s))) (\<lambda>s.
           Inr (do_accept s)))"

text \<open>The peer resets the connection; the operating system forgets its endpoint.\<close>

definition peer_reset :: "conn \<Rightarrow> connection \<Rightarrow> server \<Rightarrow> server" where
  "peer_reset c con s = put_connection c (con\<lparr>con_socket := (con_socket con)\<lparr>sock_remote := None\<rparr>\<rparr>) s"

definition do_close_connections :: "server \<Rightarrow> server" where
  "do_close_connections s = (cm_stop_all s)\<lparr>srv_connections_closed := True\<rparr>"

section \<open>Callbacks of connections\<close>

definition surroundings_of :: "config \<Rightarrow> bool \<Rightarrow> conn \<Rightarrow> server \<Rightarrow> surroundings" where
  "surroundings_of cfg inline c s =
     \<lparr>env_alive = (\<lambda>d. srv_objects s d \<noteq> None),
      env_client_id = (\<lambda>d. case srv_objects s d of None \<Rightarrow> None | Some con \<Rightarrow> con_client_id con),
      env_authenticate = cfg_authenticate cfg,
      env_read_buffer_size = cfg_read_buffer_size cfg,
      env_inline = inline\<rparr>"

fun perform :: "bool \<Rightarrow> effects \<Rightarrow> server \<Rightarrow> (server \<times> writes) result" where
  "perform inline [] s = Inr (s, [])"
| "perform inline ((c, Send p) # out) s =
     (case srv_objects s c of
        None \<Rightarrow> perform inline out s
      | Some con \<Rightarrow>
          rbind (write_packet p con) (\<lambda>bytes.
          rbind (perform inline out s) (\<lambda>(s', written).
          Inr (s', if con_open con then (c, bytes) # written else written))))"
| "perform inline ((c, Stop) # out) s =
     (case srv_objects s c of
        None \<Rightarrow> perform inline out s
      | Some con \<Rightarrow> perform inline out (put_connection c (stop_connection inline con) s))"
| "perform inline ((c, _) # out) s = perform inline out s"

definition run_callback ::
  "config \<Rightarrow> bool \<Rightarrow> conn \<Rightarrow> (surroundings \<Rightarrow> conn \<Rightarrow> connection \<Rightarrow> session_manager \<Rightarrow> con_result)
   \<Rightarrow> server \<Rightarrow> (server \<times> writes) result" where
  "run_callback cfg inline c callback s =
     (case srv_objects s c of
        None \<Rightarrow> Inr (s, [])
      | Some con \<Rightarrow>
          rbind (callback (surroundings_of cfg inline c s) c con (srv_sessions s)) (\<lambda>(con', sm', out).
          perform inline out (put_connection c con' (s\<lparr>srv_sessions := sm'\<rparr>))))"

definition run_session_timer ::
  "bool \<Rightarrow> (session_manager \<Rightarrow> (session_manager \<times> effects) result) \<Rightarrow> server
   \<Rightarrow> (server \<times> writes) result" where
  "run_session_timer inline timer s =
     rbind (timer (srv_sessions s)) (\<lambda>(sm', out). perform inline out (s\<lparr>srv_sessions := sm'\<rparr>))"

section \<open>Events\<close>

datatype server_event =
    Accepted accept_result
  | Peer_reset conn
  | Received conn "byte list"
  | Read_failed conn completion
  | Connect_timer conn completion
  | Keep_alive_timer conn completion
  | Written conn completion
  | Last_written conn completion
  | Stop_run conn
  | Tx_timer string u16
  | Rx_timer string u16
  | Released_object conn
  | Termination_signal

text \<open>
  When the environment can produce an event. A read may have succeeded before the socket was closed, so
  bytes can be received on a closed socket, and also on one the peer has reset. An object is released once the manager has dropped it and
  no read of it is outstanding (a completion that still keeps it only delays that).
\<close>

fun enabled :: "server_event \<Rightarrow> server \<Rightarrow> bool" where
  "enabled (Accepted result) s \<longleftrightarrow>
     srv_accepting s \<and> (case result of Accept_failed \<Rightarrow> True | Socket_accepted socket \<Rightarrow> sock_open socket)"
| "enabled (Peer_reset c) s \<longleftrightarrow> srv_objects s c \<noteq> None"
| "enabled (Received c chunk) s \<longleftrightarrow>
     (case srv_objects s c of
        None \<Rightarrow> False
      | Some con \<Rightarrow> con_reading con \<and> chunk \<noteq> [] \<and> length chunk \<le> bytes_wanted con)"
| "enabled (Read_failed c ec) s \<longleftrightarrow>
     (case srv_objects s c of None \<Rightarrow> False | Some con \<Rightarrow> con_reading con \<and> ec \<noteq> Success)"
| "enabled (Connect_timer c ec) s \<longleftrightarrow> srv_objects s c \<noteq> None"
| "enabled (Keep_alive_timer c ec) s \<longleftrightarrow>
     (case srv_objects s c of
        None \<Rightarrow> False | Some con \<Rightarrow> con_keep_alive con \<noteq> None \<and> ec \<noteq> Network_error)"
| "enabled (Written c ec) s \<longleftrightarrow> srv_objects s c \<noteq> None"
| "enabled (Last_written c ec) s \<longleftrightarrow> srv_objects s c \<noteq> None"
| "enabled (Stop_run c) s \<longleftrightarrow>
     (case srv_objects s c of None \<Rightarrow> False | Some con \<Rightarrow> con_stop_requested con)"
| "enabled (Tx_timer cid k) s \<longleftrightarrow> True"
| "enabled (Rx_timer cid k) s \<longleftrightarrow> True"
| "enabled (Released_object c) s \<longleftrightarrow>
     (case srv_objects s c of
        None \<Rightarrow> False | Some con \<Rightarrow> c \<notin> srv_connections s \<and> \<not> con_reading con)"
| "enabled Termination_signal s \<longleftrightarrow> True"

fun server_handle ::
  "config \<Rightarrow> bool \<Rightarrow> server_event \<Rightarrow> server \<Rightarrow> (server \<times> writes) result" where
  "server_handle cfg inline (Accepted result) s =
     rbind (on_accepted cfg result s) (\<lambda>s'. Inr (s', []))"
| "server_handle cfg inline (Peer_reset c) s =
     Inr (case srv_objects s c of None \<Rightarrow> s | Some con \<Rightarrow> peer_reset c con s, [])"
| "server_handle cfg inline (Received c chunk) s =
     run_callback cfg inline c (\<lambda>env self. bytes_received env self chunk) s"
| "server_handle cfg inline (Read_failed c ec) s =
     run_callback cfg inline c (\<lambda>env self. on_frame_read env self ec) s"
| "server_handle cfg inline (Connect_timer c ec) s =
     run_callback cfg inline c (\<lambda>env self. connect_timeout_expired env self ec) s"
| "server_handle cfg inline (Keep_alive_timer c ec) s =
     run_callback cfg inline c (\<lambda>env self. handle_keep_alive_timeout env self ec) s"
| "server_handle cfg inline (Written c ec) s =
     run_callback cfg inline c (\<lambda>env self. on_packet_written env self ec) s"
| "server_handle cfg inline (Last_written c ec) s =
     run_callback cfg inline c (\<lambda>env self. on_last_packet_written env self ec) s"
| "server_handle cfg inline (Stop_run c) s =
     Inr (case srv_objects s c of None \<Rightarrow> s | Some con \<Rightarrow> cm_stop c con s, [])"
| "server_handle cfg inline (Tx_timer cid k) s =
     run_session_timer inline (sm_tx_timeout (cfg_max_retries cfg) cid k) s"
| "server_handle cfg inline (Rx_timer cid k) s =
     run_session_timer inline (sm_rx_timeout (cfg_max_retries cfg) cid k) s"
| "server_handle cfg inline (Released_object c) s =
     Inr (s\<lparr>srv_objects := (srv_objects s)(c := None)\<rparr>, [])"
| "server_handle cfg inline Termination_signal s = Inr (do_close_connections s, [])"

text \<open>The runs of the server from a state, with everything written on the way.\<close>

inductive server_steps :: "config \<Rightarrow> server \<Rightarrow> writes \<Rightarrow> server \<Rightarrow> bool"
  for cfg :: config and start :: server where
  server_stays: "server_steps cfg start [] start"
| server_continues: "\<lbrakk>server_steps cfg start written s; enabled ev s;
      server_handle cfg inline ev s = Inr (s', written')\<rbrakk>
     \<Longrightarrow> server_steps cfg start (written @ written') s'"

definition server_reaches :: "config \<Rightarrow> writes \<Rightarrow> server \<Rightarrow> bool" where
  "server_reaches cfg written s \<longleftrightarrow> server_steps cfg (server_run new_server) written s"

text \<open>A run given by its events, as far as the server gets; \<open>None\<close> if an event cannot occur.\<close>

fun play :: "config \<Rightarrow> (bool \<times> server_event) list \<Rightarrow> server \<Rightarrow> (server \<times> writes) result option" where
  "play cfg [] s = Some (Inr (s, []))"
| "play cfg ((inline, ev) # evs) s =
     (if \<not> enabled ev s then None
      else case server_handle cfg inline ev s of
             Inl e \<Rightarrow> Some (Inl e)
           | Inr (s', written) \<Rightarrow>
               map_option (\<lambda>r. rbind r (\<lambda>(s'', written'). Inr (s'', written @ written')))
                 (play cfg evs s'))"

lemma play_steps:
  assumes "server_steps cfg start written s" "play cfg evs s = Some (Inr (s', written'))"
  shows "server_steps cfg start (written @ written') s'"
  using assms
proof (induction cfg evs s arbitrary: written written' rule: play.induct)
  case (2 cfg inline ev evs s)
  obtain s1 w1 w2 where one: "enabled ev s" "server_handle cfg inline ev s = Inr (s1, w1)"
    and rest: "play cfg evs s1 = Some (Inr (s', w2))" "written' = w1 @ w2"
    using "2.prems"(2) by (auto simp: result_simps split: if_splits sum.splits)
  have "server_steps cfg start (written @ w1) s1"
    using "2.prems"(1) one by (rule server_continues)
  then show ?case
    using "2.IH" [OF _ one(2) refl, of "written @ w1" w2] one(1) rest by simp
qed simp

lemma play_reaches:
  "play cfg evs (server_run new_server) = Some (Inr (s, written)) \<Longrightarrow> server_reaches cfg written s"
  using play_steps [OF server_stays] by (fastforce simp: server_reaches_def)

end
