(* ===== verification/Session_Connections.thy ===== *)
theory Session_Connections
  imports Session_Invariant
begin

text \<open>
  Which connection a session belongs to: no operation of the dispatcher moves a session to another
  connection, and only a CONNECT creates one.
\<close>

definition session_conn :: "session_manager \<Rightarrow> string \<rightharpoonup> conn" where
  "session_conn sm cid = map_option session_connection (sm_sessions sm cid)"

definition sessions_within :: "session_manager \<Rightarrow> session_manager \<Rightarrow> bool" where
  "sessions_within sm sm' \<longleftrightarrow> session_conn sm' \<subseteq>\<^sub>m session_conn sm"

named_theorems within_intros \<open>operations keep the connections of sessions\<close>

lemma sessions_within_refl [simp, within_intros]: "sessions_within sm sm"
  by (simp add: sessions_within_def)

lemma sessions_within_trans [trans]:
  "sessions_within sm1 sm2 \<Longrightarrow> sessions_within sm2 sm3 \<Longrightarrow> sessions_within sm1 sm3"
  unfolding sessions_within_def by (rule map_le_trans)

lemma sessions_withinD:
  "sessions_within sm sm' \<Longrightarrow> session_conn sm' cid = Some c \<Longrightarrow> session_conn sm cid = Some c"
  by (auto simp: sessions_within_def map_le_def dom_def)

lemma session_conn_update [simp]:
  "session_conn (sm\<lparr>sm_subscriptions := subs\<rparr>) = session_conn sm"
  "session_conn (sm\<lparr>sm_retained := ms\<rparr>) = session_conn sm"
  by (simp_all add: session_conn_def fun_eq_iff)

lemma sessions_within_update [simp]:
  "sessions_within sm (sm'\<lparr>sm_subscriptions := subs\<rparr>) = sessions_within sm sm'"
  "sessions_within sm (sm'\<lparr>sm_retained := ms\<rparr>) = sessions_within sm sm'"
  "sessions_within (sm\<lparr>sm_subscriptions := subs\<rparr>) sm' = sessions_within sm sm'"
  by (simp_all add: sessions_within_def)

lemma sessions_within_put [within_intros]:
  "sm_sessions sm cid = Some s \<Longrightarrow> session_connection s' = session_connection s \<Longrightarrow>
   sessions_within sm (put_session cid s' sm)"
  by (simp add: sessions_within_def map_le_def session_conn_def)

lemma sessions_within_destroy [simp, within_intros]:
  "sessions_within sm (sm_destroy cid sm)" "sessions_within sm (sm_destroy_all sm)"
  by (auto simp: sessions_within_def map_le_def session_conn_def sm_destroy_def sm_destroy_all_def dom_def)

lemma session_publish_within:
  "session_publish alive cid p q sm = Inr (sm', p', out) \<Longrightarrow> sessions_within sm sm'"
  by (auto simp: session_publish_def result_simps split: option.splits intro: within_intros)

lemma sm_publish_within:
  assumes "sm_publish alive p sm = Inr (sm', p', out)"
  shows "sessions_within sm sm'"
proof -
  let ?f = "\<lambda>(sm, p, out) (cid, q).
    rbind (session_publish alive cid p q sm) (\<lambda>(sm', p', out'). Inr (sm', p', out @ out'))"
  let ?P = "\<lambda>(sm', p' :: publish, out :: effects). sessions_within sm sm'"
  obtain rs where "fold_result ?f (sm, p, []) rs = Inr (sm', p', out)"
    using assms by (auto simp: sm_publish_def result_simps)
  then have "?P (sm', p', out)"
    by (rule fold_result_invariant [of _ _ _ _ ?P])
      (auto simp: result_simps split: prod.splits dest: session_publish_within intro: sessions_within_trans)
  then show ?thesis
    by simp
qed

lemma session_client_sent_publish_within:
  assumes "session_client_sent_publish alive cid s p sm = Inr (sm', p', out)" "sm_sessions sm cid = Some s"
  shows "sessions_within sm sm'"
proof -
  obtain rx' where "sm' = put_session cid (s\<lparr>session_rx := rx'\<rparr>) sm \<or>
      (\<exists>out. sm_publish alive p (put_session cid (s\<lparr>session_rx := rx'\<rparr>) sm) = Inr (sm', p', out))"
    using assms(1) by (auto simp: session_client_sent_publish_def Let_def result_simps split: if_splits)
  moreover have "sessions_within sm (put_session cid (s\<lparr>session_rx := rx'\<rparr>) sm)"
    using assms(2) by (simp add: sessions_within_put)
  ultimately show ?thesis
    using sm_publish_within sessions_within_trans by blast
qed

lemma sm_client_published_within:
  "sm_client_published alive cid p sm = Inr (sm', out) \<Longrightarrow> sessions_within sm sm'"
  by (auto simp: sm_client_published_def result_simps split: option.splits if_splits
      dest: session_client_sent_publish_within)

lemma session_send_within:
  "session_send alive cid s p sm = (sm', out) \<Longrightarrow> sessions_within sm sm'"
  by (auto simp: session_send_def split: if_splits)

lemma sm_client_subscribed_within:
  assumes "sm_client_subscribed alive cid s sm = Inr (sm', out)"
  shows "sessions_within sm sm'"
proof (cases "sm_sessions sm cid")
  case None
  then show ?thesis
    using assms by (auto simp: sm_client_subscribed_def Let_def split: prod.splits)
next
  case (Some sess)
  let ?P = "\<lambda>(sm', out :: effects). sessions_within sm sm'"
  obtain sm2 out2 matching where one: "session_send alive cid sess (Suback (snd (subscribe_client (sm_subscriptions sm) cid s)))
        (sm\<lparr>sm_subscriptions := fst (subscribe_client (sm_subscriptions sm) cid s)\<rparr>) = (sm2, out2)"
    and fold: "fold_result (publish_retained alive cid) (sm2, out2) matching = Inr (sm', out)"
    using assms Some by (auto simp: sm_client_subscribed_def Let_def result_simps split: prod.splits)
  have "?P (sm2, out2)"
    using session_send_within [OF one] by simp
  from fold this have "?P (sm', out)"
    by (rule fold_result_invariant [of _ _ _ _ ?P])
      (auto simp: publish_retained_def result_simps split: prod.splits
        dest!: session_publish_within intro: sessions_within_trans)
  then show ?thesis
    by simp
qed

lemma sm_client_unsubscribed_within:
  "sm_client_unsubscribed alive cid u sm = (sm', out) \<Longrightarrow> sessions_within sm sm'"
  by (auto simp: sm_client_unsubscribed_def Let_def split: prod.splits option.splits
      dest: session_send_within)

lemma session_events_within:
  "session_acked alive cid ack sm = Inr (sm', out) \<Longrightarrow> sessions_within sm sm'"
  "sm_client_released_publish alive cid ack sm = Inr (sm', out) \<Longrightarrow> sessions_within sm sm'"
  "sm_tx_timeout max_retries cid k sm = Inr (sm', out) \<Longrightarrow> sessions_within sm sm'"
  "sm_rx_timeout max_retries cid k sm = Inr (sm', out) \<Longrightarrow> sessions_within sm sm'"
  by (auto simp: session_acked_def sm_client_released_publish_def sm_tx_timeout_def sm_rx_timeout_def
      result_simps split: option.splits intro: within_intros)

lemma disconnected_ungracefully_within:
  assumes "dispatcher_client_disconnected_ungracefully alive cid sm = Inr (sm', out)"
  shows "sessions_within sm sm'"
proof -
  have "sessions_within (sm_destroy cid sm) sm'" if "publish_last_will alive s (sm_destroy cid sm) = Inr (sm', out)" for s
    using that by (auto simp: publish_last_will_def result_simps split: option.splits dest: sm_publish_within)
  then show ?thesis
    using assms sessions_within_trans [OF sessions_within_destroy(1)]
    by (auto simp: dispatcher_client_disconnected_ungracefully_def sm_client_disconnected_ungracefully_def
        split: option.splits)
qed

lemma disconnected_ungracefully_gone:
  assumes "dispatcher_client_disconnected_ungracefully alive cid sm = Inr (sm', out)"
  shows "session_conn sm' cid = None"
proof -
  have gone: "session_conn (sm_destroy cid sm) cid = None"
    by (simp add: session_conn_def sm_destroy_def)
  have "sessions_within (sm_destroy cid sm) sm'" if "publish_last_will alive s (sm_destroy cid sm) = Inr (sm', out)" for s
    using that by (auto simp: publish_last_will_def result_simps split: option.splits dest: sm_publish_within)
  then show ?thesis
    using assms gone sessions_withinD [of "sm_destroy cid sm" sm' cid]
    by (cases "session_conn sm' cid") (auto simp: dispatcher_client_disconnected_ungracefully_def
        sm_client_disconnected_ungracefully_def session_conn_def split: option.splits)
qed

text \<open>A packet may add the session of its own client, on its own connection, and no other.\<close>

lemma sm_client_connected_conn:
  assumes "sm_client_connected alive conn_client_id con c sm = Inr sm'"
  shows "sessions_within sm sm' \<or>
    (\<exists>cid. conn_client_id c = Some cid \<and> alive c \<and> session_conn sm' = (session_conn sm)(cid \<mapsto> c))"
  using assms
  by (auto simp: sm_client_connected_def session_store_insert_def result_simps session_conn_def
      put_session_def new_client_session_def fun_eq_iff split: option.splits if_splits)

lemma handle_packet_received_conn:
  assumes "handle_packet_received alive conn_client_id pc sm = Inr (sm', out)"
  shows "sessions_within sm sm' \<or>
    (\<exists>cid. conn_client_id (pc_connection pc) = Some cid \<and> alive (pc_connection pc) \<and>
       session_conn sm' = (session_conn sm)(cid \<mapsto> pc_connection pc))"
  using assms
  by (auto simp: handle_packet_received_def Let_def no_effects_def result_simps sm_client_disconnected_def
      sm_client_acked_publish_def sm_client_received_publish_def sm_client_completed_publish_def
      split: packet_type.splits mqtt_packet.splits
      dest: sm_client_connected_conn sm_client_subscribed_within sm_client_unsubscribed_within
        sm_client_published_within session_events_within)

end
