(* ===== verification/Connection_Safety.thy ===== *)
theory Connection_Safety
  imports Connection Session_Connections Codec_Roundtrip
begin

text \<open>
  What the contract of a connection rests on: whatever the decoders accept is what the dispatcher relies
  on, and the frame reader reports frames inside its buffer.
\<close>

section \<open>Decoded packets can be dispatched\<close>

lemma decode_subscriptions_bounds:
  "decode_subscriptions buf i e = Inr subs \<Longrightarrow>
     (\<forall>x \<in> set subs. well_formed_filter (topic_filter x)) \<and> length subs \<le> e - i"
proof (induction buf i e arbitrary: subs rule: decode_subscriptions.induct)
  case (1 buf i e)
  show ?case
  proof (cases "i = e")
    case True
    with "1.prems" show ?thesis
      by (simp add: decode_subscriptions.simps)
  next
    case False
    then obtain j s rest where js: "decode_subscription buf i e = Inr (j, s)"
      "decode_subscriptions buf j e = Inr rest" "subs = s # rest"
      using "1.prems" decode_subscriptions.simps [of buf i e] by (auto simp: result_simps)
    then have "well_formed_filter (topic_filter s)"
      by (auto simp: decode_subscription_def result_simps new_subscription_Inr_iff)
    moreover have "i < j" "j \<le> e"
      using decode_subscription_advances [OF js(1)] by simp_all
    ultimately show ?thesis
      using "1.IH" [OF False js(1)] js by force
  qed
qed

lemma decode_utf8_string_length: "decode_utf8_string buf i e = Inr (j, s) \<Longrightarrow> length s \<le> 65535"
proof -
  assume "decode_utf8_string buf i e = Inr (j, s)"
  then obtain n :: u16 where "length s = unat n"
    by (auto simp: decode_utf8_string_Inr_iff)
  then show ?thesis
    using unat_u16_less [of n] by simp
qed

lemma copy_range_length: "copy_range buf i (i + n) = Inr bs \<Longrightarrow> length bs = n"
  by (auto simp: copy_range_def buf_slice_def split: if_splits)

lemma decode_last_will_lengths:
  "decode_last_will buf cf i e = Inr (j, t, m) \<Longrightarrow> length t \<le> 65535 \<and> length m \<le> 65535"
proof -
  assume *: "decode_last_will buf cf i e = Inr (j, t, m)"
  show ?thesis
  proof (cases "j = i \<and> t = [] \<and> m = []")
    case False
    then obtain i1 i2 and n :: u16 where "decode_utf8_string buf i e = Inr (i1, t)"
      "copy_range buf i2 (i2 + unat n) = Inr m"
      using * by (auto simp: decode_last_will_def result_simps split: if_splits)
    then show ?thesis
      using decode_utf8_string_length [of buf i e i1 t] copy_range_length [of buf i2 "unat n" m] unat_u16_less [of n]
      by simp
  qed simp
qed

lemma length_c_string: "length (c_string s) \<le> length s"
  by (simp add: c_string_def length_takeWhile_le)

lemma decode_connect_lwt_ok:
  assumes "decode_connect buf f = Inr (Connect con)"
  shows "lwt_ok con"
proof -
  obtain cf i j t m where w: "decode_last_will buf cf i (frame_end f) = Inr (j, t, m)"
    and con: "will_topic con = Some (c_string t)" "will_message con = Some m"
    using assms by (auto simp: decode_connect_def result_simps new_connect_def)
  then show ?thesis
    using decode_last_will_lengths [OF w] length_c_string [of t] by (auto simp: lwt_ok_def)
qed

lemma decode_packet_by_class:
  assumes "decode_packet buf f = Inr p"
  shows "case p of Connect con \<Rightarrow> decode_connect buf f = Inr p | Publish q \<Rightarrow> decode_publish buf f = Inr p
    | Subscribe q \<Rightarrow> decode_subscribe buf f = Inr p | _ \<Rightarrow> True"
  using assms unfolding decode_packet_def
  by (cases "frame_type f") (auto simp: decode_packet_defs result_simps Let_def)

definition frame_ok :: "nat \<Rightarrow> frame \<Rightarrow> bool" where
  "frame_ok bufsize f \<longleftrightarrow> 2 \<le> frame_begin f \<and> frame_begin f \<le> frame_end f \<and> frame_end f \<le> bufsize"

lemma frame_ok_bounds:
  assumes "frame_ok bufsize f" "bufsize \<le> 268435455"
  shows "2 \<le> frame_begin f" "frame_end f - frame_begin f < 2 ^ 32" "frame_end f \<le> 268435455"
    "2 \<le> i \<Longrightarrow> frame_end f - i \<le> 268435453"
  using assms unfolding frame_ok_def by auto

lemma decoded_forwardable:
  assumes "decode_packet buf f = Inr (Publish p)" "frame_ok bufsize f" "bufsize \<le> 268435455"
  shows "forwardable p"
proof -
  have "decode_publish buf f = Inr (Publish p)"
    using decode_packet_by_class [OF assms(1)] by simp
  then obtain body where p: "publish_wf p" "publish_acceptable p" "encode_publish_body p = Inr body"
    "frame_end f = frame_begin f + length body"
    using decode_publish_sound [of buf f "Publish p"] frame_ok_bounds(2) [OF assms(2,3)] by auto
  have t: "length (topic p) \<le> 65535"
    using p(2) by (simp add: publish_acceptable_def topic_name_ok_def)
  then have "2 + length (topic p) + length (application_message p) \<le> length body"
    using encode_publish_body_eq [of p] p(1,3) by (auto simp: publish_wf_def)
  then show ?thesis
    using p(1,4) t frame_ok_bounds(1,3) [OF assms(2,3)] by (simp add: forwardable_def)
qed

lemma decoded_dispatchable:
  assumes "decode_packet buf f = Inr p" "frame_ok bufsize f" "bufsize \<le> 268435455"
    and "\<And>con. p = Connect con \<Longrightarrow> conn_client_id self = Some (client_id con)"
  shows "dispatchable conn_client_id \<lparr>pc_client_id = cid, pc_connection = self, pc_packet = p\<rparr>"
proof (cases p)
  case (Connect con)
  then have "lwt_ok con"
    using decode_packet_by_class [OF assms(1)] decode_connect_lwt_ok by simp
  then show ?thesis
    using Connect assms(4) decode_packet_well_typed [OF assms(1)] by (simp add: dispatchable_def)
next
  case (Publish q)
  then show ?thesis
    using decoded_forwardable assms(1-3) decode_packet_well_typed [OF assms(1)]
    by (simp add: dispatchable_def)
next
  case (Subscribe s)
  then have "decode_subscribe buf f = Inr (Subscribe s)"
    using decode_packet_by_class [OF assms(1)] by simp
  then obtain i where i: "decode_subscriptions buf i (frame_end f) = Inr (subscriptions s)" "2 \<le> i"
    using assms(2) by (auto simp: decode_subscribe_def result_simps new_subscribe_def frame_ok_def
        dest!: decode_uint16_advances)
  then have "frame_end f - i \<le> 268435453"
    using frame_ok_bounds(4) [OF assms(2,3)] by blast
  then show ?thesis
    using Subscribe decode_subscriptions_bounds [OF i(1)] decode_packet_well_typed [OF assms(1)]
    by (simp add: dispatchable_def)
qed (use decode_packet_well_typed [OF assms(1)] in \<open>simp_all add: dispatchable_def\<close>)

section \<open>The frame reader on arbitrary bytes\<close>

text \<open>The length field ends before its fifth byte, or the loop throws.\<close>

lemma remaining_length_loop_cases:
  assumes "n \<le> length buf" "1 \<le> i" "remaining_length_loop buf n i acc = r"
  shows "r = Inl (Malformed Remaining_length_too_large) \<or> r = Inr None \<or>
    (\<exists>rlen hlen. r = Inr (Some (rlen, hlen)) \<and> i < hlen \<and> hlen \<le> n)"
  using assms
proof (induction buf n i acc arbitrary: r rule: remaining_length_loop.induct)
  case (1 buf n i acc)
  show ?case
  proof (cases "i < n \<and> \<not> i > 4")
    case True
    then have b: "deref buf i = Inr (buf ! i)"
      using "1.prems"(1) by (simp add: deref_def)
    show ?thesis
    proof (cases "buf ! i AND 0x80 = 0")
      case False
      then have "remaining_length_loop buf n (i + 1) (acc + unat (buf ! i AND NOT 0x80) * 128 ^ (i - 1)) = r"
        using "1.prems"(3) True b by (subst (asm) remaining_length_loop.simps) (simp add: Let_def)
      then show ?thesis
        using "1.IH" [OF _ _ b refl refl False "1.prems"(1)] True by auto
    qed (use "1.prems"(3) True b in \<open>subst (asm) remaining_length_loop.simps, auto simp: Let_def\<close>)
  qed (use "1.prems"(3) in \<open>subst (asm) remaining_length_loop.simps, auto\<close>)
qed

lemma decode_remaining_length_cases:
  assumes "n \<le> length (reader_buffer r)"
  obtains "decode_remaining_length r n = Inl (Malformed Remaining_length_too_large)"
  | "decode_remaining_length r n = Inr None"
  | rlen hlen where "decode_remaining_length r n = Inr (Some (rlen, hlen))" "2 \<le> hlen" "hlen \<le> n"
proof (cases "n < 2")
  case True
  then show ?thesis
    using that(2) by (simp add: decode_remaining_length_def)
next
  case False
  then have "decode_remaining_length r n = remaining_length_loop (reader_buffer r) n 1 0"
    by (simp add: decode_remaining_length_def)
  then show ?thesis
    using remaining_length_loop_cases [OF assms, of 1 0, OF le_refl refl] that by fastforce
qed

lemma frame_reader_call_ok:
  assumes "frame_reader_call False n r = Inr (k, r')" "length (reader_buffer r) \<le> 268435455"
  shows "n \<le> length (reader_buffer r) \<and>
    (if k = 0 then \<exists>f. reader_frame r' = Some f \<and> frame_ok (length (reader_buffer r')) f \<and> frame_end f = n
     else reader_frame r' = reader_frame r)"
proof -
  have n: "n \<le> length (reader_buffer r)"
    using assms(1) by (auto simp: frame_reader_call_def result_simps)
  show ?thesis
    using n assms
    by (cases rule: decode_remaining_length_cases [OF n])
      (auto simp: frame_reader_call_def result_simps Let_def frame_ok_def size_minus_def split: if_splits)
qed

lemma frame_reader_call_fails:
  assumes "n \<le> length (reader_buffer r)"
  shows "fails_only (\<lambda>e. e = Malformed Remaining_length_too_large) (frame_reader_call False n r)"
  using assms
  by (cases rule: decode_remaining_length_cases [OF assms])
    (auto simp: frame_reader_call_def fails_only_def result_simps Let_def split: if_splits)

end
