(* ===== verification/Connection_Contract.thy ===== *)
theory Connection_Contract
  imports Connection_Safety
begin

text \<open>
  The contract between the server and the callbacks of a connection, as the locale \<open>con_callback\<close>: a
  callback that is called in a consistent state leaves a consistent state, keeps the client
  identifier once there is one, does not reopen the connection, moves no session to another connection,
  and fails in known ways only. Every callback of \<^verbatim>\<open>mqtt_connection.cpp\<close> is an interpretation. What the
  server does with callbacks is proved once, from the contract (\<open>Server_Invariant\<close>).
\<close>

section \<open>The contract\<close>

definition connection_ok :: "nat \<Rightarrow> connection \<Rightarrow> bool" where
  "connection_ok bufsize con \<longleftrightarrow>
     length (reader_buffer (con_reader con)) = bufsize \<and> con_transferred con \<le> bufsize \<and>
     (con_reading con \<longrightarrow> reader_frame (con_reader con) = None)"

definition callback_pre :: "surroundings \<Rightarrow> conn \<Rightarrow> connection \<Rightarrow> session_manager \<Rightarrow> bool" where
  "callback_pre env self con sm \<longleftrightarrow> env_alive env self \<and> sm_ok sm \<and>
     env_read_buffer_size env \<le> 268435455 \<and> connection_ok (env_read_buffer_size env) con"

definition own_session_added :: "conn \<Rightarrow> connection \<Rightarrow> session_manager \<Rightarrow> session_manager \<Rightarrow> bool" where
  "own_session_added self con sm sm' \<longleftrightarrow>
     (\<exists>cid. con_client_id con = Some cid \<and> session_conn sm' = (session_conn sm)(cid \<mapsto> self))"

definition callback_post ::
  "surroundings \<Rightarrow> conn \<Rightarrow> connection \<Rightarrow> session_manager \<Rightarrow> connection \<times> session_manager \<times> effects
   \<Rightarrow> bool" where
  "callback_post env self con sm = (\<lambda>(con', sm', out).
     connection_ok (env_read_buffer_size env) con' \<and> sm_ok sm' \<and> good_effects out \<and>
     (con_client_id con \<noteq> None \<longrightarrow> con_client_id con' = con_client_id con) \<and>
     (con_open con' \<longrightarrow> con_open con) \<and>
     (sessions_within sm sm' \<or> own_session_added self con' sm sm'))"

definition keeps_contract ::
  "surroundings \<Rightarrow> conn \<Rightarrow> connection \<Rightarrow> session_manager \<Rightarrow> con_result \<Rightarrow> bool" where
  "keeps_contract env self con sm r \<longleftrightarrow> (\<forall>x. r = Inr x \<longrightarrow> callback_post env self con sm x)"

locale con_callback =
  fixes callback :: "surroundings \<Rightarrow> conn \<Rightarrow> connection \<Rightarrow> session_manager \<Rightarrow> con_result"
    and ready :: "connection \<Rightarrow> bool"
    and failure :: "surroundings \<Rightarrow> connection \<Rightarrow> error \<Rightarrow> bool"
  assumes keeps: "callback_pre env self con sm \<Longrightarrow> ready con \<Longrightarrow>
      keeps_contract env self con sm (callback env self con sm)"
    and fails: "callback_pre env self con sm \<Longrightarrow> ready con \<Longrightarrow>
      fails_only (failure env con) (callback env self con sm)"

text \<open>A callback that can only fail by an assertion.\<close>

locale asserting_callback =
  fixes callback :: "surroundings \<Rightarrow> conn \<Rightarrow> connection \<Rightarrow> session_manager \<Rightarrow> con_result"
    and ready :: "connection \<Rightarrow> bool"
  assumes keeps': "callback_pre env self con sm \<Longrightarrow> ready con \<Longrightarrow>
      keeps_contract env self con sm (callback env self con sm)"
    and asserts: "callback_pre env self con sm \<Longrightarrow> ready con \<Longrightarrow> asserts_only (callback env self con sm)"

sublocale asserting_callback \<subseteq> con_callback callback ready "\<lambda>env con e. e = Assertion_failed"
  by unfold_locales (auto simp: keeps' asserts)

section \<open>Rules for the contract\<close>

lemma keeps_contract_Inl [simp]: "keeps_contract env self con sm (Inl e)"
  by (simp add: keeps_contract_def)

lemma keeps_contract_Inr [simp]:
  "keeps_contract env self con sm (Inr x) \<longleftrightarrow> callback_post env self con sm x"
  by (simp add: keeps_contract_def)

lemma callback_post_unchanged:
  "callback_pre env self con sm \<Longrightarrow> connection_ok (env_read_buffer_size env) con' \<Longrightarrow>
   con_client_id con' = con_client_id con \<Longrightarrow> con_open con' = con_open con \<Longrightarrow>
   callback_post env self con sm (con', sm, [])"
  by (simp add: callback_post_def callback_pre_def)

lemma connection_ok_updates [simp]:
  "connection_ok n (con\<lparr>con_keep_alive := ka\<rparr>) = connection_ok n con"
  "connection_ok n (con\<lparr>con_keep_alive_timer := b\<rparr>) = connection_ok n con"
  "connection_ok n (con\<lparr>con_connect_timer := b\<rparr>) = connection_ok n con"
  "connection_ok n (con\<lparr>con_client_id := i\<rparr>) = connection_ok n con"
  "connection_ok n (con\<lparr>con_close_after_write := r\<rparr>) = connection_ok n con"
  "connection_ok n (con\<lparr>con_stop_requested := b\<rparr>) = connection_ok n con"
  "connection_ok n (con\<lparr>con_socket := k\<rparr>) = connection_ok n con"
  "connection_ok n (con\<lparr>con_description := d\<rparr>) = connection_ok n con"
  by (simp_all add: connection_ok_def)

lemma connection_ok_stop [simp]: "connection_ok n (stop_connection inline con) = connection_ok n con"
  by (simp add: stop_connection_def do_stop_def Let_def)

lemma connection_ok_keep_alive [simp]:
  "connection_ok n (close_on_keep_alive_timeout con) = connection_ok n con"
  by (simp add: close_on_keep_alive_timeout_def split: option.split)

lemma client_id_updates [simp]:
  "con_client_id (stop_connection inline con) = con_client_id con"
  "con_client_id (close_on_keep_alive_timeout con) = con_client_id con"
  "con_client_id (read_frame con) = con_client_id con"
  by (simp_all add: stop_connection_def do_stop_def close_on_keep_alive_timeout_def read_frame_def Let_def
      split: option.split)

lemma con_open_updates [simp]:
  "con_socket (close_on_keep_alive_timeout con) = con_socket con"
  "con_socket (read_frame con) = con_socket con"
  "con_open (stop_connection inline con) \<longleftrightarrow> con_open con \<and> \<not> inline"
  by (simp_all add: stop_connection_def do_stop_def close_on_keep_alive_timeout_def read_frame_def Let_def
      split: option.split)

lemma connection_ok_read_frame:
  "connection_ok n con \<Longrightarrow> reader_frame (con_reader con) = None \<Longrightarrow> connection_ok n (read_frame con)"
  by (simp add: connection_ok_def read_frame_def)

lemma connection_ok_new: "new_connection n socket = Inr con \<Longrightarrow> connection_ok n con"
  by (auto simp: connection_ok_def new_connection_def new_frame_reader_def result_simps)

section \<open>Closing and dispatching\<close>

lemma disconnected_ungracefully_ok:
  assumes "sm_ok sm"
  shows "asserts_only (dispatcher_client_disconnected_ungracefully alive cid sm)"
    and "dispatcher_client_disconnected_ungracefully alive cid sm = Inr (sm', out) \<Longrightarrow>
      sm_ok sm' \<and> good_effects out \<and> sessions_within sm sm'"
  using asserts_only_disconnected_ungracefully [OF assms] disconnected_ungracefully_within
    sm_client_disconnected_ungracefully_ok [of alive cid sm sm' out] assms
  by (simp_all add: dispatcher_client_disconnected_ungracefully_def)

lemma dispatch_to_ok:
  assumes "sm_ok sm" "con_client_id con = Some cid"
    and "dispatchable ((env_client_id env)(self \<mapsto> cid)) \<lparr>pc_client_id = cid, pc_connection = self, pc_packet = p\<rparr>"
  shows "asserts_only (dispatch_to env self p con sm)"
    and "dispatch_to env self p con sm = Inr (sm', out) \<Longrightarrow> sm_ok sm' \<and> good_effects out \<and>
      (sessions_within sm sm' \<or> session_conn sm' = (session_conn sm)(cid \<mapsto> self))"
  using handle_packet_received_ok [OF assms(1,3), of "env_alive env"] assms(2)
    handle_packet_received_conn [of "env_alive env" "(env_client_id env)(self \<mapsto> cid)"
      "\<lparr>pc_client_id = cid, pc_connection = self, pc_packet = p\<rparr>" sm sm' out]
  by (auto simp: dispatch_to_def)

lemma dispatch_disconnect_packet_eq:
  "con_client_id con = Some cid \<Longrightarrow> dispatch_disconnect_packet env self con sm =
     Inr (stop_connection (env_inline env) con, sm_destroy cid sm, [])"
  "con_client_id con = None \<Longrightarrow> dispatch_disconnect_packet env self con sm = Inl Undefined_behaviour"
  by (simp_all add: dispatch_disconnect_packet_def dispatch_to_def handle_packet_received_def
      sm_client_disconnected_def packet_type_def new_disconnect_def header_type_def)

lemma connection_close_requested_ok:
  assumes "callback_pre env self con sm"
  shows "asserts_only (connection_close_requested env self reason con sm)"
    and "keeps_contract env self con sm (connection_close_requested env self reason con sm)"
proof -
  have pre: "sm_ok sm" "connection_ok (env_read_buffer_size env) con"
    using assms by (simp_all add: callback_pre_def)
  show "asserts_only (connection_close_requested env self reason con sm)"
    using disconnected_ungracefully_ok(1) [OF pre(1)]
    by (auto simp: connection_close_requested_def dispatch_disconnect_packet_eq
        split: option.split intro!: fails_intros)
  show "keeps_contract env self con sm (connection_close_requested env self reason con sm)"
    using pre by (auto simp: connection_close_requested_def keeps_contract_def callback_post_def
        dispatch_disconnect_packet_eq result_simps split: option.splits if_splits
        dest: disconnected_ungracefully_ok(2) [OF pre(1)])
qed

section \<open>Timers, failed reads, finished writes\<close>

lemma callback_pre_update:
  "callback_pre env self con sm \<Longrightarrow> connection_ok (env_read_buffer_size env) con' \<Longrightarrow>
   callback_pre env self con' sm"
  by (simp add: callback_pre_def)

lemma keeps_contract_update:
  "keeps_contract env self con' sm r \<Longrightarrow> con_client_id con' = con_client_id con \<Longrightarrow>
   con_open con' = con_open con \<Longrightarrow> keeps_contract env self con sm r"
  by (simp only: keeps_contract_def callback_post_def)

lemma connection_ok_reading_done:
  "connection_ok n con \<Longrightarrow> connection_ok n (con\<lparr>con_reading := False\<rparr>)"
  by (simp add: connection_ok_def)

text \<open>Nothing happens.\<close>

lemma callback_post_same: "callback_pre env self con sm \<Longrightarrow> callback_post env self con sm (con, sm, [])"
  by (simp add: callback_post_def callback_pre_def)

lemmas close_ok = connection_close_requested_ok callback_post_same fails_only_Inr

interpretation connect_timer:
  asserting_callback "\<lambda>env self. connect_timeout_expired env self ec" "\<lambda>con. True" for ec
  by unfold_locales (simp_all add: connect_timeout_expired_def close_ok)

interpretation written:
  asserting_callback "\<lambda>env self. on_packet_written env self ec" "\<lambda>con. True" for ec
  by unfold_locales (simp_all add: on_packet_written_def close_ok)

lemma handle_keep_alive_timeout_ok:
  assumes "callback_pre env self con sm"
  shows "keeps_contract env self con sm (handle_keep_alive_timeout env self ec con sm)"
    and "asserts_only (handle_keep_alive_timeout env self ec con sm)"
proof -
  have "callback_post env self con sm (close_on_keep_alive_timeout con, sm, [])"
    using assms by (simp add: callback_post_def callback_pre_def)
  then show "keeps_contract env self con sm (handle_keep_alive_timeout env self ec con sm)"
    using assms by (cases ec) (simp_all add: handle_keep_alive_timeout_def close_ok)
  show "asserts_only (handle_keep_alive_timeout env self ec con sm)"
    using assms by (cases ec) (simp_all add: handle_keep_alive_timeout_def close_ok fails_only_Inl)
qed

interpretation keep_alive_timer:
  asserting_callback "\<lambda>env self. handle_keep_alive_timeout env self ec" "\<lambda>con. True" for ec
  by unfold_locales (rule handle_keep_alive_timeout_ok, assumption)+

lemma on_last_packet_written_ok:
  assumes "callback_pre env self con sm"
  shows "keeps_contract env self con sm (on_last_packet_written env self ec con sm)"
    and "asserts_only (on_last_packet_written env self ec con sm)"
proof -
  let ?con = "con\<lparr>con_close_after_write := None\<rparr>"
  have pre: "callback_pre env self ?con sm"
    using assms by (simp add: callback_pre_def)
  show "keeps_contract env self con sm (on_last_packet_written env self ec con sm)"
    using assms keeps_contract_update [OF connection_close_requested_ok(2) [OF pre]]
    by (simp add: on_last_packet_written_def callback_post_same split: option.split)
  show "asserts_only (on_last_packet_written env self ec con sm)"
    using connection_close_requested_ok(1) [OF pre]
    by (simp add: on_last_packet_written_def fails_only_Inr split: option.split)
qed

interpretation last_written:
  asserting_callback "\<lambda>env self. on_last_packet_written env self ec" "\<lambda>con. True" for ec
  by unfold_locales (simp_all add: on_last_packet_written_ok)

lemma on_read_failed_ok:
  assumes "callback_pre env self con sm"
  shows "keeps_contract env self con sm (on_read_failed env self ec con sm)"
    and "asserts_only (on_read_failed env self ec con sm)"
  using assms by (cases "ec = Success"; simp add: on_read_failed_def close_ok fails_only_Inl)+

interpretation read_failed:
  asserting_callback "\<lambda>env self. on_frame_read env self ec" "\<lambda>con. ec \<noteq> Success" for ec
proof unfold_locales
  fix env self sm and con :: connection
  let ?con = "con\<lparr>con_reading := False, con_keep_alive_timer := False\<rparr>"
  assume pre: "callback_pre env self con sm" and ec: "ec \<noteq> Success"
  have pre': "callback_pre env self ?con sm"
    using pre by (simp add: callback_pre_def connection_ok_reading_done)
  show "keeps_contract env self con sm (on_frame_read env self ec con sm)"
    using keeps_contract_update [OF on_read_failed_ok(1) [OF pre']] ec by (simp add: on_frame_read_def)
  show "asserts_only (on_frame_read env self ec con sm)"
    using on_read_failed_ok(2) [OF pre'] ec by (simp add: on_frame_read_def)
qed

section \<open>Processing a decoded packet\<close>

lemma connection_close_requested_reader:
  "connection_close_requested env self reason con sm = Inr (con', sm', out) \<Longrightarrow>
   con' = stop_connection (env_inline env) con"
  by (auto simp: connection_close_requested_def dispatch_disconnect_packet_def result_simps
      split: option.splits if_splits)

lemma con_reader_updates [simp]:
  "con_reader (stop_connection inline con) = con_reader con"
  "con_reader (close_on_keep_alive_timeout con) = con_reader con"
  by (simp_all add: stop_connection_def do_stop_def close_on_keep_alive_timeout_def Let_def
      split: option.split)

lemma keeps_contract_read_frame:
  assumes "keeps_contract env self con sm r"
    and "\<And>con' sm' out. r = Inr (con', sm', out) \<Longrightarrow> reader_frame (con_reader con') = None"
  shows "keeps_contract env self con sm (rbind r (\<lambda>(con', sm', out). Inr (read_frame con', sm', out)))"
  using assms connection_ok_read_frame
  by (auto simp: keeps_contract_def callback_post_def own_session_added_def result_simps)

lemma asserts_only_read_frame:
  "fails_only E r \<Longrightarrow> fails_only E (rbind r (\<lambda>(con', sm', out). Inr (read_frame con', sm', out)))"
  by (intro fails_intros)

text \<open>The state of the connection once its client is authenticated; \<open>d\<close> is its new description.\<close>

definition authenticated :: "connect \<Rightarrow> string \<Rightarrow> connection \<Rightarrow> connection" where
  "authenticated con d c =
     (let c = c\<lparr>con_connect_timer := False, con_client_id := Some (client_id con), con_description := d\<rparr>
      in if keep_alive_secs con > 0
         then close_on_keep_alive_timeout (c\<lparr>con_keep_alive := Some (keep_alive_secs con)\<rparr>) else c)"

lemma authenticated_simps [simp]:
  "con_client_id (authenticated con d c) = Some (client_id con)"
  "con_reader (authenticated con d c) = con_reader c"
  "con_socket (authenticated con d c) = con_socket c"
  "connection_ok n (authenticated con d c) = connection_ok n c"
  by (simp_all add: authenticated_def Let_def)

lemma process_connect_packet_eq:
  "process_connect_packet env self con c sm =
     (case con_client_id c of
        Some _ \<Rightarrow> connection_close_requested env self protocol_violation c sm
      | None \<Rightarrow>
          rbind (remote_endpoint (con_socket c)) (\<lambda>peer.
          if \<not> env_authenticate env (ep_address peer) (username con) (password con) then
            let (c', out) = write_packet_and_close_connection self
                  (Connack (new_connack False BAD_USERNAME_OR_PASSWORD)) authentication_failed c
            in Inr (c', sm, out)
          else rbind (connection_description (con_socket c) (client_id con)) (\<lambda>d.
               rbind (dispatch_to env self (Connect con) (authenticated con d c) sm) (\<lambda>(sm', out).
               Inr (authenticated con d c, sm',
                    out @ [(self, Send (Connack (new_connack False CONNECTION_ACCEPTED)))])))))"
  unfolding process_connect_packet_def authenticated_def Let_def by (rule refl)

lemma good_effects_connack: "good_effects [(self, Send (Connack (new_connack b rc)))]"
  by (simp add: good_effects_def del: sendable.simps)

text \<open>CONNECT on a socket whose peer asio does not know (any more).\<close>

definition peer_lost :: "connection \<Rightarrow> bool" where
  "peer_lost c \<longleftrightarrow> con_client_id c = None \<and> \<not> peer_known (con_socket c)"

definition connect_failure :: "connection \<Rightarrow> error \<Rightarrow> bool" where
  "connect_failure c e \<longleftrightarrow> e = Assertion_failed \<or> e = System_error \<and> peer_lost c"

lemma process_connect_packet_fails:
  assumes "callback_pre env self c sm"
    and dispatch: "\<And>d. asserts_only (dispatch_to env self (Connect con) (authenticated con d c) sm)"
  shows "fails_only (connect_failure c) (process_connect_packet env self con c sm)"
proof (cases "con_client_id c")
  case None
  show ?thesis
  proof (cases "peer_known (con_socket c)")
    case True
    obtain peer d where "remote_endpoint (con_socket c) = Inr peer"
      "connection_description (con_socket c) (client_id con) = Inr d"
      using remote_endpoint_cases(1) [OF True] connection_description_known(1) [OF True] by blast
    then have "asserts_only (process_connect_packet env self con c sm)"
      unfolding process_connect_packet_eq using None dispatch
      by (auto intro!: fails_intros split: prod.split)
    then show ?thesis
      by (simp add: fails_only_def connect_failure_def)
  next
    case False
    then show ?thesis
      using None by (simp add: process_connect_packet_eq remote_endpoint_cases(2) fails_only_def
          connect_failure_def peer_lost_def)
  qed
next
  case (Some cid)
  then show ?thesis
    using connection_close_requested_ok(1) [OF assms(1)]
    by (auto simp: process_connect_packet_eq fails_only_def connect_failure_def)
qed

lemma process_connect_packet_ok:
  assumes "callback_pre env self c sm" "lwt_ok con" "well_typed (Connect con)"
  shows "keeps_contract env self c sm (process_connect_packet env self con c sm)"
    and "fails_only (connect_failure c) (process_connect_packet env self con c sm)"
    and "process_connect_packet env self con c sm = Inr (c', sm', out) \<Longrightarrow> con_reader c' = con_reader c"
proof -
  have pre: "sm_ok sm" "connection_ok (env_read_buffer_size env) c"
    using assms(1) by (simp_all add: callback_pre_def)
  have "dispatchable ((env_client_id env)(self \<mapsto> client_id con))
      \<lparr>pc_client_id = client_id con, pc_connection = self, pc_packet = Connect con\<rparr>"
    using assms(2,3) by (simp add: dispatchable_def)
  note dispatch = dispatch_to_ok [of sm "authenticated con d c" "client_id con" env self for d, OF pre(1) _ this, simplified]
  show "keeps_contract env self c sm (process_connect_packet env self con c sm)"
  proof (cases "con_client_id c")
    case None
    then show ?thesis
      using pre by (auto simp: process_connect_packet_eq write_packet_and_close_connection_def good_effects_connack
          keeps_contract_def callback_post_def own_session_added_def result_simps dest: dispatch(2))
  qed (simp add: process_connect_packet_eq connection_close_requested_ok [OF assms(1)])
  show "fails_only (connect_failure c) (process_connect_packet env self con c sm)"
    by (rule process_connect_packet_fails [OF assms(1) dispatch(1)])
  show "process_connect_packet env self con c sm = Inr (c', sm', out) \<Longrightarrow> con_reader c' = con_reader c"
    by (auto simp: process_connect_packet_eq write_packet_and_close_connection_def result_simps
        dest: connection_close_requested_reader split: option.splits if_splits)
qed

lemma decoded_connect_lwt_ok: "decode_packet buf f = Inr (Connect con) \<Longrightarrow> lwt_ok con"
  using decode_packet_by_class [of buf f "Connect con"] decode_connect_lwt_ok by simp

text \<open>Before CONNECT there is no client identifier to dispatch a packet with.\<close>

definition needs_client_id :: "packet_type \<Rightarrow> bool" where
  "needs_client_id t \<longleftrightarrow> t \<noteq> CONNECT \<and> t \<noteq> PINGREQ"

definition processing_failure :: "packet_type \<Rightarrow> connection \<Rightarrow> error \<Rightarrow> bool" where
  "processing_failure t c e \<longleftrightarrow> e = Assertion_failed \<or>
     (e = System_error \<and> t = CONNECT \<and> peer_lost c) \<or>
     (e = Undefined_behaviour \<and> con_client_id c = None \<and> needs_client_id t)"

lemma dispatch_to_None: "con_client_id c = None \<Longrightarrow> dispatch_to env self p c sm = Inl Undefined_behaviour"
  by (simp add: dispatch_to_def)

lemma dispatch_decoded_ok:
  assumes "callback_pre env self c sm" "decode_packet buf f = Inr p"
    and "frame_ok (env_read_buffer_size env) f" "needs_client_id (packet_type p)"
  shows "keeps_contract env self c sm (rbind (dispatch_to env self p c sm) (\<lambda>(sm', out). Inr (c, sm', out)))"
    and "fails_only (processing_failure (packet_type p) c) (dispatch_to env self p c sm)"
proof -
  have pre: "sm_ok sm" "connection_ok (env_read_buffer_size env) c" "env_read_buffer_size env \<le> 268435455"
    using assms(1) by (simp_all add: callback_pre_def)
  have no_connect: "p \<noteq> Connect con" for con
    using assms(2,4) decode_packet_well_typed [OF assms(2)] by (auto simp: needs_client_id_def well_typed_def)
  have "dispatchable ((env_client_id env)(self \<mapsto> cid)) \<lparr>pc_client_id = cid, pc_connection = self, pc_packet = p\<rparr>"
    for cid
    by (intro decoded_dispatchable [OF assms(2,3) pre(3)]) (simp add: no_connect)
  note dispatch = dispatch_to_ok [of sm c _ env self, OF pre(1) _ this]
  show "keeps_contract env self c sm (rbind (dispatch_to env self p c sm) (\<lambda>(sm', out). Inr (c, sm', out)))"
    using pre by (cases "con_client_id c") (auto simp: dispatch_to_None keeps_contract_def callback_post_def
        own_session_added_def result_simps dest: dispatch(2))
  show "fails_only (processing_failure (packet_type p) c) (dispatch_to env self p c sm)"
    using dispatch(1) assms(4) by (cases "con_client_id c")
      (auto simp: dispatch_to_def processing_failure_def fails_only_def)
qed

abbreviation processed_well :: "surroundings \<Rightarrow> conn \<Rightarrow> mqtt_packet \<Rightarrow> connection \<Rightarrow> session_manager \<Rightarrow> bool" where
  "processed_well env self p c sm \<equiv>
     keeps_contract env self c sm (process_decoded_packet env self p c sm) \<and>
     fails_only (processing_failure (packet_type p) c) (process_decoded_packet env self p c sm)"

lemma process_connect_well:
  assumes "callback_pre env self c sm" "decode_packet buf f = Inr p" "reader_frame (con_reader c) = None"
    and "packet_type p = CONNECT"
  shows "processed_well env self p c sm"
proof -
  have wt: "well_typed p"
    using decode_packet_well_typed [OF assms(2)] by simp
  then obtain con where p: "p = Connect con"
    using assms(4) by (cases p) (simp_all add: well_typed_def)
  note connect = process_connect_packet_ok [OF assms(1) decoded_connect_lwt_ok, OF assms(2) [unfolded p] wt [unfolded p]]
  have "fails_only (processing_failure (packet_type p) c) (process_connect_packet env self con c sm)"
    using connect(2) assms(4) by (auto simp: fails_only_def processing_failure_def connect_failure_def)
  moreover have "keeps_contract env self c sm
      (rbind (process_connect_packet env self con c sm) (\<lambda>(c', sm', out). Inr (read_frame c', sm', out)))"
    using keeps_contract_read_frame [OF connect(1)] connect(3) assms(3) by simp
  ultimately show ?thesis
    using asserts_only_read_frame assms(4) p by (simp add: process_decoded_packet_def)
qed

lemma process_dispatched_well:
  assumes "callback_pre env self c sm" "decode_packet buf f = Inr p"
    and "frame_ok (env_read_buffer_size env) f" "reader_frame (con_reader c) = None"
    and "needs_client_id (packet_type p)" "packet_type p \<noteq> DISCONNECT"
  shows "processed_well env self p c sm"
proof -
  note dispatch = dispatch_decoded_ok [OF assms(1-3)]
  let ?d = "rbind (dispatch_to env self p c sm) (\<lambda>(sm', out). Inr (c, sm', out))"
  have "keeps_contract env self c sm (rbind ?d (\<lambda>(c', sm', out). Inr (read_frame c', sm', out)))"
    using keeps_contract_read_frame [OF dispatch(1) [OF assms(5)]] assms(4) by (auto simp: result_simps)
  then have "keeps_contract env self c sm (rbind (dispatch_to env self p c sm) (\<lambda>(sm', out). Inr (read_frame c, sm', out)))"
    by (simp add: rbind_assoc case_prod_unfold)
  moreover have "fails_only (processing_failure (packet_type p) c)
      (rbind (dispatch_to env self p c sm) (\<lambda>(sm', out). Inr (read_frame c, sm', out)))"
    by (intro fails_intros dispatch(2) assms(5))
  ultimately show ?thesis
    using assms(5,6) by (auto simp: process_decoded_packet_def needs_client_id_def
        fails_only_Inl processing_failure_def Let_def)
qed

lemma process_decoded_packet_ok:
  assumes "callback_pre env self c sm" "decode_packet buf f = Inr p"
    and "frame_ok (env_read_buffer_size env) f" "reader_frame (con_reader c) = None"
  shows "keeps_contract env self c sm (process_decoded_packet env self p c sm)"
    and "fails_only (processing_failure (packet_type p) c) (process_decoded_packet env self p c sm)"
proof -
  have pre: "sm_ok sm" "connection_ok (env_read_buffer_size env) c"
    using assms(1) by (simp_all add: callback_pre_def)
  consider "packet_type p = CONNECT" | "packet_type p = PINGREQ" | "packet_type p = DISCONNECT"
    | "needs_client_id (packet_type p)" "packet_type p \<noteq> DISCONNECT"
    by (auto simp: needs_client_id_def)
  then have "processed_well env self p c sm"
  proof cases
    case 1
    then show ?thesis
      by (rule process_connect_well [OF assms(1,2,4)])
  next
    case 2
    then show ?thesis
      using pre assms(4) connection_ok_read_frame by (simp add: process_decoded_packet_def callback_post_def Let_def
          good_effects_def fails_only_Inr del: sendable.simps)
  next
    case 3
    then show ?thesis
      using pre by (cases "con_client_id c") (auto simp: process_decoded_packet_def dispatch_disconnect_packet_eq
          callback_post_def fails_only_def processing_failure_def needs_client_id_def)
  next
    case 4
    then show ?thesis
      by (rule process_dispatched_well [OF assms])
  qed
  then show "keeps_contract env self c sm (process_decoded_packet env self p c sm)"
    and "fails_only (processing_failure (packet_type p) c) (process_decoded_packet env self p c sm)"
    by simp_all
qed

section \<open>Decoding a frame\<close>

lemma fails_only_weaken: "fails_only E r \<Longrightarrow> (\<And>e. E e \<Longrightarrow> E' e) \<Longrightarrow> fails_only E' r"
  by (simp add: fails_only_def)

definition decoding_failure :: "byte list \<Rightarrow> frame \<Rightarrow> error \<Rightarrow> bool" where
  "decoding_failure buf f e \<longleftrightarrow> (\<exists>m. e = Malformed m) \<or>
     (e = Invalid_argument \<and> \<not> client_sent (frame_type f)) \<or>
     (e = Undefined_behaviour \<and> frame_type f = CONNECT \<and> length buf < frame_end f + 2)"

lemma decode_connect_fails:
  assumes "in_bounds buf f" "frame_type f = CONNECT"
  shows "fails_only (\<lambda>e. (\<exists>m. e = Malformed m) \<or> e = Undefined_behaviour) (decode_connect buf f)"
  unfolding decode_connect_def
  by (intro fails_intros fails_only_weaken [OF graceful_utf8_string] fails_only_weaken [OF graceful_uint16]
      fails_only_weaken [OF graceful_last_will] fails_only_weaken [OF graceful_optional_string])
    (use assms in \<open>auto simp: in_bounds_def fails_only_def deref_def\<close>)

lemma decode_packet_fails:
  assumes "in_bounds buf f"
  shows "fails_only (decoding_failure buf f) (decode_packet buf f)"
proof (cases "client_sent (frame_type f)")
  case False
  then show ?thesis
    by (simp add: decode_packet_unsupported fails_only_def decoding_failure_def)
next
  case True
  show ?thesis
  proof (cases "frame_type f = CONNECT \<longrightarrow> frame_end f + 2 \<le> length buf")
    case True
    then show ?thesis
      by (intro fails_only_weaken [OF decode_packet_graceful [OF assms \<open>client_sent (frame_type f)\<close>]])
        (simp_all add: decoding_failure_def)
  next
    case False
    then have "fails_only (\<lambda>e. (\<exists>m. e = Malformed m) \<or> e = Undefined_behaviour) (decode_packet buf f)"
      using decode_connect_fails [OF assms] by (simp add: decode_packet_def)
    then show ?thesis
      by (rule fails_only_weaken) (use False in \<open>auto simp: decoding_failure_def\<close>)
  qed
qed

text \<open>What a complete frame can do to the process, besides failing an assertion.\<close>

definition frame_failure :: "nat \<Rightarrow> connection \<Rightarrow> frame \<Rightarrow> error \<Rightarrow> bool" where
  "frame_failure bufsize c f e \<longleftrightarrow> e = Assertion_failed \<or>
     (e = System_error \<and> frame_type f = CONNECT \<and> peer_lost c) \<or>
     (e = Invalid_argument \<and> \<not> client_sent (frame_type f)) \<or>
     (e = Undefined_behaviour \<and>
        (frame_type f = CONNECT \<and> bufsize < frame_end f + 2 \<or>
         con_client_id c = None \<and> needs_client_id (frame_type f)))"

lemma length_resize_buffer [simp]: "length (resize_buffer n buf) = n"
  by (simp add: resize_buffer_def)

lemma decode_and_process_ok:
  assumes "callback_pre env self c sm" "get_frame (con_reader c) = Some f" "\<not> con_reading c"
    and "frame_ok (env_read_buffer_size env) f"
  shows "keeps_contract env self c sm (decode_and_process env self c sm)"
    and "fails_only (frame_failure (env_read_buffer_size env) c f) (decode_and_process env self c sm)"
proof -
  let ?buf = "reader_buffer (con_reader c)"
  let ?c = "c\<lparr>con_reader := (reset_frame_reader (con_reader c))\<lparr>reader_buffer :=
      resize_buffer (env_read_buffer_size env) (reader_buffer (reset_frame_reader (con_reader c)))\<rparr>\<rparr>"
  let ?close = "connection_close_requested env self protocol_violation c sm"
  let ?r = "rbind (decode_packet ?buf f) (\<lambda>p. process_decoded_packet env self p ?c sm)"
  have buf: "length ?buf = env_read_buffer_size env"
    using assms(1) by (simp add: callback_pre_def connection_ok_def)
  have bounds: "in_bounds ?buf f"
    using assms(4) buf by (simp add: in_bounds_def frame_ok_def)
  have pre: "callback_pre env self ?c sm"
    using assms(1,3) by (simp add: callback_pre_def connection_ok_def)
  have idle: "reader_frame (con_reader ?c) = None"
    by (simp add: reset_frame_reader_def)
  have eq: "decode_and_process env self c sm = (case ?r of Inl (Malformed m) \<Rightarrow> ?close | r \<Rightarrow> r)"
    using assms(2) by (simp add: decode_and_process_def Let_def)
  have "keeps_contract env self ?c sm ?r"
    using process_decoded_packet_ok(1) [OF pre _ assms(4) idle] by (auto simp: keeps_contract_def result_simps)
  then have "keeps_contract env self c sm ?r"
    by (rule keeps_contract_update) simp_all
  then show "keeps_contract env self c sm (decode_and_process env self c sm)"
    unfolding eq using connection_close_requested_ok(2) [OF assms(1)] by (auto split: sum.split error.split)
  have "fails_only (\<lambda>e. (\<exists>m. e = Malformed m) \<or> frame_failure (env_read_buffer_size env) c f e) ?r"
  proof (rule fails_only_rbind)
    show "fails_only (\<lambda>e. (\<exists>m. e = Malformed m) \<or> frame_failure (env_read_buffer_size env) c f e) (decode_packet ?buf f)"
      by (rule fails_only_weaken [OF decode_packet_fails [OF bounds]])
        (auto simp: decoding_failure_def frame_failure_def buf)
    fix p assume p: "decode_packet ?buf f = Inr p"
    have "packet_type p = frame_type f"
      using decode_packet_class [OF p] decode_packet_well_typed [OF p] by (simp add: well_typed_def)
    then show "fails_only (\<lambda>e. (\<exists>m. e = Malformed m) \<or> frame_failure (env_read_buffer_size env) c f e)
        (process_decoded_packet env self p ?c sm)"
      by (intro fails_only_weaken [OF process_decoded_packet_ok(2) [OF pre p assms(4) idle]])
        (auto simp: processing_failure_def frame_failure_def peer_lost_def)
  qed
  then show "fails_only (frame_failure (env_read_buffer_size env) c f) (decode_and_process env self c sm)"
    unfolding eq using connection_close_requested_ok(1) [OF assms(1)]
    by (auto simp: fails_only_def frame_failure_def split: sum.splits error.splits)
qed

section \<open>Receiving bytes\<close>

text \<open>
  What a chunk of bytes can do to the process: the completion condition throws, it grows the buffer
  under the read in progress, or the frame the chunk completes fails.
\<close>

definition bytes_failure :: "byte list \<Rightarrow> surroundings \<Rightarrow> connection \<Rightarrow> error \<Rightarrow> bool" where
  "bytes_failure chunk env c e \<longleftrightarrow>
     (case frame_reader_call False (con_transferred c + length chunk)
             (store_chunk (con_transferred c) chunk (con_reader c)) of
        Inl e' \<Rightarrow> e = e'
      | Inr (k, r') \<Rightarrow>
          e = Assertion_failed \<or>
          (e = Undefined_behaviour \<and> length (reader_buffer r') \<noteq> env_read_buffer_size env) \<or>
          (k = 0 \<and> (\<exists>f. reader_frame r' = Some f \<and> frame_failure (env_read_buffer_size env) c f e)))"

lemma bytes_wanted_le:
  "connection_ok n c \<Longrightarrow> length chunk \<le> bytes_wanted c \<Longrightarrow> con_transferred c + length chunk \<le> n"
  by (auto simp: bytes_wanted_def connection_ok_def split: sum.splits)

lemma length_store_chunk:
  "n + length chunk \<le> length (reader_buffer r) \<Longrightarrow>
   length (reader_buffer (store_chunk n chunk r)) = length (reader_buffer r)"
  by (simp add: store_chunk_def)

lemma store_chunk_frame [simp]: "reader_frame (store_chunk n chunk r) = reader_frame r"
  by (simp add: store_chunk_def)

text \<open>The frame reader has answered and the buffer kept its size: the frame is complete, or more is read.\<close>

definition reader_answered :: "byte list \<Rightarrow> connection \<Rightarrow> nat \<Rightarrow> frame_reader \<Rightarrow> bool" where
  "reader_answered chunk c k r' \<longleftrightarrow>
     frame_reader_call False (con_transferred c + length chunk)
       (store_chunk (con_transferred c) chunk (con_reader c)) = Inr (k, r')"

lemma bytes_received_answered:
  assumes "reader_answered chunk c k r'" "length (reader_buffer r') = length (reader_buffer (con_reader c))"
    and "con_transferred c + length chunk \<le> length (reader_buffer (con_reader c))"
  shows "bytes_received env self chunk c sm =
    (let c' = c\<lparr>con_reader := r', con_transferred := con_transferred c + length chunk\<rparr>
     in if k = 0 \<or> con_transferred c + length chunk = length (reader_buffer r')
        then decode_and_process env self (c'\<lparr>con_reading := False, con_keep_alive_timer := False\<rparr>) sm
        else Inr (c', sm, []))"
  using assms by (simp add: reader_answered_def bytes_received_def on_frame_read_def Let_def length_store_chunk)

lemma frame_received_ok:
  assumes "callback_pre env self c sm" "con_transferred c + length chunk \<le> env_read_buffer_size env"
    and "reader_answered chunk c 0 r'" "length (reader_buffer r') = env_read_buffer_size env"
    and "reader_frame r' = Some f" "frame_ok (env_read_buffer_size env) f"
  shows "keeps_contract env self c sm (bytes_received env self chunk c sm) \<and>
    fails_only (bytes_failure chunk env c) (bytes_received env self chunk c sm)"
proof -
  let ?c' = "c\<lparr>con_reader := r', con_transferred := con_transferred c + length chunk, con_reading := False,
    con_keep_alive_timer := False\<rparr>"
  have size: "length (reader_buffer (con_reader c)) = env_read_buffer_size env"
    using assms(1) by (simp add: callback_pre_def connection_ok_def)
  have eq: "bytes_received env self chunk c sm = decode_and_process env self ?c' sm"
    using bytes_received_answered [OF assms(3)] assms(2,4) size by simp
  have "callback_pre env self ?c' sm"
    using assms(1,2,4) by (simp add: callback_pre_def connection_ok_def)
  moreover have "get_frame (con_reader ?c') = Some f" "\<not> con_reading ?c'"
    using assms(5) by (simp_all add: get_frame_def)
  ultimately have decoded: "keeps_contract env self ?c' sm (decode_and_process env self ?c' sm)"
    "fails_only (frame_failure (env_read_buffer_size env) ?c' f) (decode_and_process env self ?c' sm)"
    using decode_and_process_ok assms(6) by blast+
  have "keeps_contract env self c sm (decode_and_process env self ?c' sm)"
    by (rule keeps_contract_update [OF decoded(1)]) simp_all
  moreover have "fails_only (bytes_failure chunk env c) (decode_and_process env self ?c' sm)"
    by (rule fails_only_weaken [OF decoded(2)])
      (use assms(3-5) in \<open>auto simp: reader_answered_def bytes_failure_def frame_failure_def peer_lost_def\<close>)
  ultimately show ?thesis
    by (simp add: eq)
qed

lemma more_bytes_wanted_ok:
  assumes "callback_pre env self c sm" "con_reading c" "con_transferred c + length chunk \<le> env_read_buffer_size env"
    and "reader_answered chunk c k r'" "length (reader_buffer r') = env_read_buffer_size env"
    and "k \<noteq> 0" "reader_frame r' = None"
  shows "keeps_contract env self c sm (bytes_received env self chunk c sm) \<and>
    fails_only (bytes_failure chunk env c) (bytes_received env self chunk c sm)"
proof -
  let ?c = "c\<lparr>con_reader := r', con_transferred := con_transferred c + length chunk\<rparr>"
  have pre: "sm_ok sm" "length (reader_buffer (con_reader c)) = env_read_buffer_size env"
    using assms(1) by (simp_all add: callback_pre_def connection_ok_def)
  have "decode_and_process env self (?c\<lparr>con_reading := False, con_keep_alive_timer := False\<rparr>) sm = Inl Assertion_failed"
    using assms(7) by (simp add: decode_and_process_def get_frame_def)
  moreover have "callback_post env self c sm (?c, sm, [])"
    using assms(1,3,5,7) by (simp add: callback_pre_def callback_post_def connection_ok_def)
  moreover have "bytes_failure chunk env c Assertion_failed"
    using assms(4) by (simp add: reader_answered_def bytes_failure_def)
  ultimately show ?thesis
    using bytes_received_answered [OF assms(4)] assms(3,5) pre(2) by (simp add: fails_only_def Let_def)
qed

lemma bytes_received_ok:
  assumes "callback_pre env self c sm" "con_reading c" "length chunk \<le> bytes_wanted c"
  shows "keeps_contract env self c sm (bytes_received env self chunk c sm)"
    and "fails_only (bytes_failure chunk env c) (bytes_received env self chunk c sm)"
proof -
  let ?n = "con_transferred c + length chunk" and ?bufsize = "env_read_buffer_size env"
  let ?r = "store_chunk (con_transferred c) chunk (con_reader c)"
  have pre: "?bufsize \<le> 268435455" "length (reader_buffer (con_reader c)) = ?bufsize" "reader_frame (con_reader c) = None"
    using assms(1,2) by (auto simp: callback_pre_def connection_ok_def)
  have n: "?n \<le> ?bufsize"
    using assms(1,3) bytes_wanted_le by (auto simp: callback_pre_def)
  then have r: "length (reader_buffer ?r) = ?bufsize"
    using pre(2) by (simp add: length_store_chunk)
  have "keeps_contract env self c sm (bytes_received env self chunk c sm) \<and>
    fails_only (bytes_failure chunk env c) (bytes_received env self chunk c sm)"
  proof (cases "frame_reader_call False ?n ?r")
    case (Inl e)
    then show ?thesis
      by (simp add: bytes_received_def fails_only_def bytes_failure_def)
  next
    case (Inr kr)
    then obtain k r' where call: "frame_reader_call False ?n ?r = Inr (k, r')"
      by (cases kr) simp
    then have answered: "reader_answered chunk c k r'"
      by (simp add: reader_answered_def)
    note read = frame_reader_call_ok [OF call, unfolded r, OF pre(1)]
    consider "length (reader_buffer r') \<noteq> ?bufsize" | "length (reader_buffer r') = ?bufsize" "k = 0"
      | "length (reader_buffer r') = ?bufsize" "k \<noteq> 0"
      by blast
    then show ?thesis
    proof cases
      case 1
      then show ?thesis
        using call r by (simp add: bytes_received_def Let_def fails_only_def bytes_failure_def)
    next
      case 2
      then obtain f where "reader_frame r' = Some f" "frame_ok ?bufsize f"
        using read by auto
      then show ?thesis
        using frame_received_ok [OF assms(1) n] answered 2 by blast
    next
      case 3
      then have "reader_frame r' = None"
        using read pre(3) by simp
      then show ?thesis
        by (rule more_bytes_wanted_ok [OF assms(1,2) n answered 3])
    qed
  qed
  then show "keeps_contract env self c sm (bytes_received env self chunk c sm)"
    and "fails_only (bytes_failure chunk env c) (bytes_received env self chunk c sm)"
    by simp_all
qed

interpretation received:
  con_callback "\<lambda>env self. bytes_received env self chunk"
    "\<lambda>c. con_reading c \<and> length chunk \<le> bytes_wanted c" "bytes_failure chunk" for chunk
  by unfold_locales (simp_all add: bytes_received_ok)

end
