(* ===== verification/Server_Invariant.thy ===== *)
theory Server_Invariant
  imports Server Connection_Contract
begin

text \<open>
  The invariant of the server, and what keeps it. The callbacks of connections enter through their
  contract only: the lemmas about \<open>run_callback\<close> are proved once, inside the locale.
\<close>

section \<open>The invariant\<close>

text \<open>
  Every connection object is consistent, the manager keeps existing objects only, and a session belongs
  to the connection that authenticated with its identifier, if that still exists.
\<close>

definition objects_ok :: "config \<Rightarrow> server \<Rightarrow> bool" where
  "objects_ok cfg s \<longleftrightarrow>
     (\<forall>c con. srv_objects s c = Some con \<longrightarrow>
        connection_ok (cfg_read_buffer_size cfg) con \<and> c < srv_next_connection s) \<and>
     (\<forall>c \<in> srv_connections s. srv_objects s c \<noteq> None)"

definition owners_ok :: "server \<Rightarrow> bool" where
  "owners_ok s \<longleftrightarrow> (\<forall>cid c. session_conn (srv_sessions s) cid = Some c \<longrightarrow>
     c < srv_next_connection s \<and>
     (\<forall>con. srv_objects s c = Some con \<longrightarrow> con_client_id con = Some cid))"

definition server_ok :: "config \<Rightarrow> server \<Rightarrow> bool" where
  "server_ok cfg s \<longleftrightarrow> sm_ok (srv_sessions s) \<and> objects_ok cfg s \<and> owners_ok s"

lemma server_ok_object:
  "server_ok cfg s \<Longrightarrow> srv_objects s c = Some con \<Longrightarrow>
   connection_ok (cfg_read_buffer_size cfg) con \<and> c < srv_next_connection s"
  by (simp add: server_ok_def objects_ok_def)

text \<open>Replacing an object by one with the same client identifier.\<close>

lemma server_ok_put:
  assumes "server_ok cfg s" "srv_objects s c = Some con"
    and "connection_ok (cfg_read_buffer_size cfg) con'" "con_client_id con' = con_client_id con"
  shows "server_ok cfg (put_connection c con' s)"
  using assms by (auto simp: server_ok_def objects_ok_def owners_ok_def put_connection_def)

text \<open>Replacing it and the sessions, as a callback that keeps the contract does.\<close>

lemma server_ok_callback:
  assumes "server_ok cfg s" "srv_objects s c = Some con"
    and "callback_post (surroundings_of cfg inline c s) c con (srv_sessions s) (con', sm', out)"
  shows "server_ok cfg (put_connection c con' (s\<lparr>srv_sessions := sm'\<rparr>))"
proof -
  have post: "connection_ok (cfg_read_buffer_size cfg) con'" "sm_ok sm'"
    "con_client_id con \<noteq> None \<longrightarrow> con_client_id con' = con_client_id con"
    "sessions_within (srv_sessions s) sm' \<or> own_session_added c con' (srv_sessions s) sm'"
    using assms(3) by (auto simp: callback_post_def surroundings_of_def)
  have objects: "objects_ok cfg (put_connection c con' (s\<lparr>srv_sessions := sm'\<rparr>))"
    using assms(1,2) post(1) by (auto simp: server_ok_def objects_ok_def put_connection_def)
  have kept: "c' < srv_next_connection s \<and> (\<forall>con2. ((srv_objects s)(c \<mapsto> con')) c' = Some con2 \<longrightarrow>
      con_client_id con2 = Some cid)"
    if "session_conn (srv_sessions s) cid = Some c'" for cid c'
    using assms(1,2) post(3) that by (auto simp: server_ok_def owners_ok_def)
  have "c' < srv_next_connection s \<and> (\<forall>con2. ((srv_objects s)(c \<mapsto> con')) c' = Some con2 \<longrightarrow>
      con_client_id con2 = Some cid)" if "session_conn sm' cid = Some c'" for cid c'
    using post(4)
  proof
    assume "sessions_within (srv_sessions s) sm'"
    then show ?thesis
      using kept sessions_withinD that by blast
  next
    assume "own_session_added c con' (srv_sessions s) sm'"
    then show ?thesis
      using kept that server_ok_object [OF assms(1,2)]
      by (auto simp: own_session_added_def split: if_splits)
  qed
  then show ?thesis
    using post(2) objects by (simp add: server_ok_def owners_ok_def put_connection_def)
qed

section \<open>Performing effects\<close>

text \<open>Every packet is encoded, and the state stays consistent.\<close>

definition encodings :: "writes \<Rightarrow> bool" where
  "encodings written \<longleftrightarrow> (\<forall>(c, bytes) \<in> set written.
     \<exists>p. sendable p \<and> encode_packet p (unat (packet_total_length p)) = Inr bytes)"

lemma encodings_simps [simp]:
  "encodings []" "encodings (xs @ ys) \<longleftrightarrow> encodings xs \<and> encodings ys"
  "encodings ((c, bytes) # xs) \<longleftrightarrow>
     (\<exists>p. sendable p \<and> encode_packet p (unat (packet_total_length p)) = Inr bytes) \<and> encodings xs"
  by (simp_all add: encodings_def ball_Un)

lemma write_sendable:
  assumes "sendable p"
  shows "\<exists>bytes. write_packet p con = Inr bytes \<and>
    (con_open con \<longrightarrow> encode_packet p (unat (packet_total_length p)) = Inr bytes)"
  using encode_packet_exact [OF assms] by (auto simp: write_packet_def)

lemma perform_ok:
  assumes "good_effects out" "server_ok cfg s"
  shows "\<exists>s' written. perform inline out s = Inr (s', written) \<and> server_ok cfg s' \<and> encodings written \<and>
    srv_sessions s' = srv_sessions s"
  using assms
proof (induction inline out s rule: perform.induct)
  case (2 inline c p out s)
  then have p: "sendable p" and out: "good_effects out"
    by (auto simp: good_effects_def)
  show ?case
  proof (cases "srv_objects s c")
    case (Some con)
    obtain bytes where "write_packet p con = Inr bytes"
      "con_open con \<longrightarrow> encode_packet p (unat (packet_total_length p)) = Inr bytes"
      using write_sendable [OF p] by blast
    moreover obtain s' w where "perform inline out s = Inr (s', w)" "server_ok cfg s'" "encodings w"
      "srv_sessions s' = srv_sessions s"
      using "2.IH"(2) [OF Some _ out "2.prems"(2)] calculation by blast
    ultimately show ?thesis
      using p by (cases "con_open con") (auto simp: Some)
  qed (use 2 out in auto)
next
  case (3 inline c out s)
  then have out: "good_effects out"
    by (auto simp: good_effects_def)
  show ?case
  proof (cases "srv_objects s c")
    case (Some con)
    have "server_ok cfg (put_connection c (stop_connection inline con) s)"
      by (rule server_ok_put [OF "3.prems"(2) Some])
        (use server_ok_object [OF "3.prems"(2) Some] in simp_all)
    then show ?thesis
      using "3.IH"(2) [OF Some out] Some by (auto simp: put_connection_def)
  qed (use 3 out in auto)
qed (auto simp: good_effects_def)

section \<open>Open connections\<close>

text \<open>No step opens a connection that exists already, and bytes go to open connections only.\<close>

definition open_in :: "server \<Rightarrow> conn \<Rightarrow> bool" where
  "open_in s d \<longleftrightarrow> (\<exists>con. srv_objects s d = Some con \<and> con_open con)"

lemma open_in_sessions [simp]: "open_in (s\<lparr>srv_sessions := sm\<rparr>) d = open_in s d"
  by (simp add: open_in_def)

definition opens_none :: "server \<Rightarrow> server \<times> writes \<Rightarrow> bool" where
  "opens_none s = (\<lambda>(s', written).
     srv_next_connection s' = srv_next_connection s \<and>
     (\<forall>d. open_in s' d \<longrightarrow> open_in s d) \<and> (\<forall>d \<in> fst ` set written. open_in s d))"

lemma opens_none_put:
  assumes "opens_none (put_connection c con' s) x" "srv_objects s c = Some con" "con_open con' \<longrightarrow> con_open con"
  shows "opens_none s x"
proof -
  have "open_in s d" if "open_in (put_connection c con' s) d" for d
    using that assms(2,3) by (auto simp: open_in_def put_connection_def split: if_splits)
  then show ?thesis
    using assms(1) by (auto simp: opens_none_def put_connection_def)
qed

lemma perform_opens_none: "perform inline out s = Inr x \<Longrightarrow> opens_none s x"
proof (induction inline out s arbitrary: x rule: perform.induct)
  case (2 inline c p out s)
  then show ?case
    by (fastforce simp: result_simps opens_none_def open_in_def split: option.splits if_splits)
next
  case (3 inline c out s)
  show ?case
  proof (cases "srv_objects s c")
    case None
    then show ?thesis
      using 3 by simp
  next
    case (Some con)
    then have "opens_none (put_connection c (stop_connection inline con) s) x"
      using "3.IH"(2) [OF Some] "3.prems" by simp
    then show ?thesis
      by (rule opens_none_put [OF _ Some]) simp
  qed
qed (auto simp: opens_none_def)

section \<open>Callbacks\<close>

context con_callback begin

lemma run_callback_pre:
  assumes "cfg_read_buffer_size cfg \<le> 268435455" "server_ok cfg s" "srv_objects s c = Some con"
  shows "callback_pre (surroundings_of cfg inline c s) c con (srv_sessions s)"
  using assms server_ok_object [OF assms(2,3)]
  by (simp add: callback_pre_def surroundings_of_def server_ok_def)

lemma run_callback_keeps:
  assumes "cfg_read_buffer_size cfg \<le> 268435455" "server_ok cfg s" "srv_objects s c = Some con" "ready con"
    and "run_callback cfg inline c callback s = Inr (s', written)"
  shows "server_ok cfg s' \<and> encodings written \<and> opens_none s (s', written)"
proof -
  let ?env = "surroundings_of cfg inline c s"
  obtain con' sm' out where r: "callback ?env c con (srv_sessions s) = Inr (con', sm', out)"
    and p: "perform inline out (put_connection c con' (s\<lparr>srv_sessions := sm'\<rparr>)) = Inr (s', written)"
    using assms(3,5) by (auto simp: run_callback_def result_simps)
  have post: "callback_post ?env c con (srv_sessions s) (con', sm', out)"
    using keeps [OF run_callback_pre [OF assms(1-3)] assms(4)] r by (simp add: keeps_contract_def)
  then have "good_effects out" "con_open con' \<longrightarrow> con_open con"
    by (auto simp: callback_post_def)
  moreover have "opens_none (s\<lparr>srv_sessions := sm'\<rparr>) (s', written)"
    using opens_none_put [OF perform_opens_none [OF p], of con] assms(3) calculation(2) by simp
  ultimately show ?thesis
    using perform_ok [OF _ server_ok_callback [OF assms(2,3) post], of out inline] p
    by (auto simp: opens_none_def)
qed

text \<open>Performing the effects does not fail, so a failure is one of the callback.\<close>

lemma run_callback_failed:
  assumes "cfg_read_buffer_size cfg \<le> 268435455" "server_ok cfg s" "srv_objects s c = Some con" "ready con"
    and "run_callback cfg inline c callback s = Inl e"
  shows "callback (surroundings_of cfg inline c s) c con (srv_sessions s) = Inl e"
proof (cases "callback (surroundings_of cfg inline c s) c con (srv_sessions s)")
  case (Inl e')
  then show ?thesis
    using assms(3,5) by (simp add: run_callback_def)
next
  case (Inr x)
  then obtain con' sm' out where r: "callback (surroundings_of cfg inline c s) c con (srv_sessions s) = Inr (con', sm', out)"
    by (cases x) auto
  have post: "callback_post (surroundings_of cfg inline c s) c con (srv_sessions s) (con', sm', out)"
    using keeps [OF run_callback_pre [OF assms(1-3)] assms(4)] r by (simp add: keeps_contract_def)
  then show ?thesis
    using perform_ok [OF _ server_ok_callback [OF assms(2,3) post], of out inline] assms(3,5) r
    by (auto simp: run_callback_def callback_post_def)
qed

lemma run_callback_fails:
  assumes "cfg_read_buffer_size cfg \<le> 268435455" "server_ok cfg s" "srv_objects s c = Some con" "ready con"
  shows "fails_only (failure (surroundings_of cfg inline c s) con) (run_callback cfg inline c callback s)"
  using fails [OF run_callback_pre [OF assms(1-3)] assms(4)] run_callback_failed [OF assms]
  by (simp add: fails_only_def)

end

section \<open>Events\<close>

lemma server_ok_sessions:
  "server_ok cfg s \<Longrightarrow> sm_ok sm' \<Longrightarrow> sessions_within (srv_sessions s) sm' \<Longrightarrow>
   server_ok cfg (s\<lparr>srv_sessions := sm'\<rparr>)"
  by (auto simp: server_ok_def objects_ok_def owners_ok_def dest: sessions_withinD)

lemma run_session_timer_ok:
  assumes "server_ok cfg s" "timer (srv_sessions s) = Inr (sm', out)"
    and "sm_ok sm'" "good_effects out" "sessions_within (srv_sessions s) sm'"
  shows "\<exists>s' written. run_session_timer inline timer s = Inr (s', written) \<and> server_ok cfg s' \<and>
    encodings written \<and> opens_none s (s', written)"
proof -
  obtain s' written where p: "perform inline out (s\<lparr>srv_sessions := sm'\<rparr>) = Inr (s', written)"
    "server_ok cfg s'" "encodings written"
    using perform_ok [OF assms(4) server_ok_sessions [OF assms(1,3,5)], of inline] by blast
  then show ?thesis
    using assms(2) perform_opens_none [OF p(1)] by (auto simp: run_session_timer_def opens_none_def)
qed

lemma session_timers_ok:
  assumes "server_ok cfg s"
  shows "\<exists>s' written. run_session_timer inline (sm_tx_timeout m cid k) s = Inr (s', written) \<and>
      server_ok cfg s' \<and> encodings written \<and> opens_none s (s', written)"
    and "\<exists>s' written. run_session_timer inline (sm_rx_timeout m cid k) s = Inr (s', written) \<and>
      server_ok cfg s' \<and> encodings written \<and> opens_none s (s', written)"
proof -
  have sm: "sm_ok (srv_sessions s)"
    using assms by (simp add: server_ok_def)
  show "\<exists>s' written. run_session_timer inline (sm_tx_timeout m cid k) s = Inr (s', written) \<and>
      server_ok cfg s' \<and> encodings written \<and> opens_none s (s', written)"
    using sm_timeouts_ok(1) [OF sm, of m cid k] session_events_within(3) run_session_timer_ok [OF assms] by blast
  show "\<exists>s' written. run_session_timer inline (sm_rx_timeout m cid k) s = Inr (s', written) \<and>
      server_ok cfg s' \<and> encodings written \<and> opens_none s (s', written)"
    using sm_timeouts_ok(2) [OF sm, of m cid k] session_events_within(4) run_session_timer_ok [OF assms] by blast
qed

definition opens_new_only :: "server \<Rightarrow> server \<times> writes \<Rightarrow> bool" where
  "opens_new_only s = (\<lambda>(s', written).
     srv_next_connection s \<le> srv_next_connection s' \<and>
     (\<forall>d < srv_next_connection s. open_in s' d \<longrightarrow> open_in s d) \<and>
     (\<forall>d \<in> fst ` set written. open_in s d))"

lemma opens_none_new_only: "opens_none s x \<Longrightarrow> opens_new_only s x"
  by (auto simp: opens_none_def opens_new_only_def)

lemma start_connection_simps [simp]:
  "con_client_id (start_connection con) = con_client_id con"
  "con_socket (start_connection con) = con_socket con"
  by (simp_all add: start_connection_def close_on_connect_timeout_def)

lemma new_connection_ok:
  assumes "new_connection n socket = Inr con"
  shows "connection_ok n (start_connection con)" "con_client_id con = None" "con_socket con = socket"
  using assms by (auto simp: new_connection_def connection_ok_def start_connection_def close_on_connect_timeout_def
      read_frame_def new_frame_reader_def result_simps)

lemma new_connection_fails: "new_connection n socket = Inl e \<Longrightarrow> e = System_error \<and> sock_open socket \<and> sock_remote socket = None"
  by (auto simp: new_connection_def result_simps descriptions_throw_iff)

lemma on_accepted_cases:
  assumes "on_accepted cfg result s = Inr s'"
  obtains (not_created) "s' = s\<lparr>srv_accepting := srv_acceptor_open s\<rparr>"
    | (created) socket con where "srv_acceptor_open s" "result = Socket_accepted socket"
        "new_connection (cfg_read_buffer_size cfg) socket = Inr con"
        "s' = (cm_start (srv_next_connection s) con (s\<lparr>srv_next_connection := srv_next_connection s + 1\<rparr>))
          \<lparr>srv_accepting := True\<rparr>"
  using assms by (cases result)
    (auto simp: on_accepted_def do_accept_def create_connection_def cm_start_def put_connection_def Let_def
      result_simps split: if_splits)

lemma on_accepted_fails:
  "on_accepted cfg result s = Inl e \<Longrightarrow>
   e = System_error \<and> (\<exists>socket. result = Socket_accepted socket \<and> sock_remote socket = None)"
  by (auto simp: on_accepted_def create_connection_def Let_def result_simps dest: new_connection_fails
      split: if_splits accept_result.splits)

lemma on_accepted_ok:
  assumes "server_ok cfg s" "on_accepted cfg result s = Inr s'"
  shows "server_ok cfg s' \<and> opens_new_only s (s', [])"
  using assms(2)
proof (cases rule: on_accepted_cases)
  case not_created
  then show ?thesis
    using assms by (auto simp: server_ok_def objects_ok_def owners_ok_def opens_new_only_def open_in_def)
next
  case (created socket con)
  have fresh: "session_conn (srv_sessions s) cid \<noteq> Some (srv_next_connection s)" for cid
    using assms by (auto simp: server_ok_def owners_ok_def)
  then show ?thesis
    using assms(1) created new_connection_ok [OF created(3)]
    by (auto simp: cm_start_def put_connection_def server_ok_def objects_ok_def owners_ok_def opens_new_only_def
        open_in_def less_Suc_eq)
qed

lemma peer_reset_ok:
  assumes "server_ok cfg s" "srv_objects s c = Some con"
  shows "server_ok cfg (peer_reset c con s) \<and> opens_new_only s (peer_reset c con s, [])"
proof
  show "server_ok cfg (peer_reset c con s)"
    unfolding peer_reset_def
    by (rule server_ok_put [OF assms]) (use server_ok_object [OF assms] in simp_all)
  show "opens_new_only s (peer_reset c con s, [])"
    using assms(2) by (auto simp: peer_reset_def put_connection_def opens_new_only_def open_in_def split: if_splits)
qed

lemma do_stop_simps [simp]:
  "connection_ok n (do_stop con) = connection_ok n con" "con_client_id (do_stop con) = con_client_id con"
  "\<not> con_open (do_stop con)"
  by (simp_all add: do_stop_def)

lemma stopping_ok:
  assumes "server_ok cfg s"
  shows "srv_objects s c = Some con \<Longrightarrow>
      server_ok cfg (cm_stop c con s) \<and> opens_new_only s (cm_stop c con s, [])"
    and "server_ok cfg (do_close_connections s) \<and> opens_new_only s (do_close_connections s, [])"
    and "c \<notin> srv_connections s \<Longrightarrow> server_ok cfg (s\<lparr>srv_objects := (srv_objects s)(c := None)\<rparr>) \<and>
      opens_new_only s (s\<lparr>srv_objects := (srv_objects s)(c := None)\<rparr>, [])"
  using assms by (auto simp: cm_stop_def do_close_connections_def cm_stop_all_def put_connection_def server_ok_def
      objects_ok_def owners_ok_def opens_new_only_def open_in_def split: if_splits)

text \<open>What every event keeps.\<close>

definition step_ok :: "config \<Rightarrow> server \<Rightarrow> server \<times> writes \<Rightarrow> bool" where
  "step_ok cfg s = (\<lambda>(s', written).
     server_ok cfg s' \<and> encodings written \<and> opens_new_only s (s', written))"

lemma server_handle_keeps:
  assumes "cfg_read_buffer_size cfg \<le> 268435455" "server_ok cfg s" "enabled ev s"
    and "server_handle cfg inline ev s = Inr x"
  shows "step_ok cfg s x"
proof -
  obtain s' written where x: "x = (s', written)"
    by (cases x) auto
  have callback: "step_ok cfg s x"
    if "server_ok cfg s' \<and> encodings written \<and> opens_none s (s', written)"
    using that opens_none_new_only by (simp add: step_ok_def x)
  note step = assms(3,4) x callback and ok = assms(1,2)
  show ?thesis
  proof (cases ev)
    case (Accepted result)
    then show ?thesis
      using step on_accepted_ok [OF assms(2)] by (auto simp: step_ok_def result_simps)
  next
    case (Received c chunk)
    then show ?thesis
      using step received.run_callback_keeps [OF ok, of c _ chunk inline s' written] by (auto split: option.splits)
  next
    case (Read_failed c ec)
    then show ?thesis
      using step read_failed.run_callback_keeps [OF ok, of c _ ec inline s' written] by (auto split: option.splits)
  next
    case (Connect_timer c ec)
    then show ?thesis
      using step connect_timer.run_callback_keeps [OF ok, of c _ inline ec s' written] by auto
  next
    case (Keep_alive_timer c ec)
    then show ?thesis
      using step keep_alive_timer.run_callback_keeps [OF ok, of c _ inline ec s' written] by (auto split: option.splits)
  next
    case (Written c ec)
    then show ?thesis
      using step written.run_callback_keeps [OF ok, of c _ inline ec s' written] by auto
  next
    case (Last_written c ec)
    then show ?thesis
      using step last_written.run_callback_keeps [OF ok, of c _ inline ec s' written] by auto
  next
    case (Tx_timer cid k)
    then show ?thesis
      using step session_timers_ok(1) [OF assms(2), of inline "cfg_max_retries cfg" cid k] by auto
  next
    case (Rx_timer cid k)
    then show ?thesis
      using step session_timers_ok(2) [OF assms(2), of inline "cfg_max_retries cfg" cid k] by auto
  qed (use assms(2-4) peer_reset_ok [OF assms(2)] stopping_ok [OF assms(2)] in
      \<open>auto simp: step_ok_def split: option.splits\<close>)
qed

text \<open>What can end the process.\<close>

definition step_failure :: "config \<Rightarrow> bool \<Rightarrow> server_event \<Rightarrow> server \<Rightarrow> error \<Rightarrow> bool" where
  "step_failure cfg inline ev s e \<longleftrightarrow> e = Assertion_failed \<or>
     (e = System_error \<and> (\<exists>socket. ev = Accepted (Socket_accepted socket) \<and> sock_remote socket = None)) \<or>
     (\<exists>c chunk con. ev = Received c chunk \<and> srv_objects s c = Some con \<and>
        bytes_failure chunk (surroundings_of cfg inline c s) con e)"

lemma server_handle_fails:
  assumes "cfg_read_buffer_size cfg \<le> 268435455" "server_ok cfg s" "enabled ev s"
  shows "fails_only (step_failure cfg inline ev s) (server_handle cfg inline ev s)"
proof -
  note ok = assms(1,2)
  show ?thesis
  proof (cases ev)
    case (Received c chunk)
    then show ?thesis
      using assms(3) received.run_callback_fails [OF ok, of c _ chunk inline]
      by (auto simp: step_failure_def fails_only_def split: option.splits)
  next
    case (Read_failed c ec)
    then show ?thesis
      using assms(3) read_failed.run_callback_fails [OF ok, of c _ ec inline]
      by (auto simp: step_failure_def fails_only_def split: option.splits)
  next
    case (Connect_timer c ec)
    then show ?thesis
      using assms(3) connect_timer.run_callback_fails [OF ok, of c _ inline ec]
      by (auto simp: step_failure_def fails_only_def)
  next
    case (Keep_alive_timer c ec)
    then show ?thesis
      using assms(3) keep_alive_timer.run_callback_fails [OF ok, of c _ inline ec]
      by (auto simp: step_failure_def fails_only_def split: option.splits)
  next
    case (Written c ec)
    then show ?thesis
      using assms(3) written.run_callback_fails [OF ok, of c _ inline ec]
      by (auto simp: step_failure_def fails_only_def)
  next
    case (Last_written c ec)
    then show ?thesis
      using assms(3) last_written.run_callback_fails [OF ok, of c _ inline ec]
      by (auto simp: step_failure_def fails_only_def)
  next
    case (Tx_timer cid k)
    then show ?thesis
      using session_timers_ok(1) [OF assms(2), of inline "cfg_max_retries cfg" cid k] by (auto simp: fails_only_def)
  next
    case (Rx_timer cid k)
    then show ?thesis
      using session_timers_ok(2) [OF assms(2), of inline "cfg_max_retries cfg" cid k] by (auto simp: fails_only_def)
  next
    case (Accepted result)
    then show ?thesis
      by (auto simp: step_failure_def fails_only_def result_simps dest: on_accepted_fails)
  qed (simp_all add: fails_only_Inr)
qed

section \<open>Runs\<close>

lemma server_ok_start: "server_ok cfg (server_run new_server)"
  by (simp add: server_ok_def objects_ok_def owners_ok_def server_run_def new_server_def do_accept_def
      sm_ok_new session_conn_def) (simp add: new_session_manager_def)

lemma server_steps_ok:
  assumes "cfg_read_buffer_size cfg \<le> 268435455"
    and "server_steps cfg start written s" "server_ok cfg start"
  shows "server_ok cfg s \<and> encodings written \<and> srv_next_connection start \<le> srv_next_connection s"
  using assms(2,3)
proof induction
  case (server_continues written s ev inline s' written')
  then show ?case
    using server_handle_keeps [OF assms(1), of s ev inline "(s', written')"]
    by (auto simp: step_ok_def opens_new_only_def)
qed simp_all

lemma server_reaches_ok:
  "cfg_read_buffer_size cfg \<le> 268435455 \<Longrightarrow> server_reaches cfg written s \<Longrightarrow> server_ok cfg s \<and> encodings written"
  using server_steps_ok [OF _ _ server_ok_start] by (auto simp: server_reaches_def)

lemma closed_stays_closed:
  assumes "cfg_read_buffer_size cfg \<le> 268435455" "server_steps cfg start written s"
    and "server_ok cfg start" "d < srv_next_connection start" "\<not> open_in start d"
  shows "\<not> open_in s d \<and> d \<notin> fst ` set written"
  using assms(2-5)
proof induction
  case (server_continues written s ev inline s' written')
  have "server_ok cfg s" "srv_next_connection start \<le> srv_next_connection s"
    using server_steps_ok [OF assms(1) server_continues.hyps(1) assms(3)] by auto
  then have "step_ok cfg s (s', written')"
    using server_handle_keeps [OF assms(1)] server_continues.hyps by blast
  then show ?case
    using server_continues.IH [OF assms(3-5)] assms(4) \<open>srv_next_connection start \<le> srv_next_connection s\<close>
    by (auto simp: step_ok_def opens_new_only_def)
qed auto

end
