(* ===== verification/Delivery.thy ===== *)
theory Delivery
  imports Session_Invariant
begin

text \<open>
  Who receives what: the properties of the dispatcher that span its components. A PUBLISH reaches
  each session with a matching subscription once, with the highest quality of service it subscribed
  with; retained messages and the last will take the same road.
\<close>

section \<open>What a connection receives\<close>

fun publishes_to :: "conn \<Rightarrow> effects \<Rightarrow> publish list" where
  "publishes_to c [] = []"
| "publishes_to c ((d, Send (Publish p)) # out) =
     (if d = c then p # publishes_to c out else publishes_to c out)"
| "publishes_to c (_ # out) = publishes_to c out"

lemma publishes_to_append [simp]: "publishes_to c (xs @ ys) = publishes_to c xs @ publishes_to c ys"
  by (induction c xs rule: publishes_to.induct) auto

lemma publishes_to_other [simp]: "d \<noteq> c \<Longrightarrow> publishes_to c (to_conn d acts) = []"
proof (induction acts)
  case (Cons a acts)
  then show ?case
    by (cases a; cases "case a of Send p \<Rightarrow> p | _ \<Rightarrow> Pingreq new_pingreq") (simp_all add: to_conn_def)
qed (simp add: to_conn_def)

text \<open>The packet a subscriber gets for a published one.\<close>

definition copy_for :: "QoS \<Rightarrow> publish \<Rightarrow> publish \<Rightarrow> bool" where
  "copy_for q p o1 \<longleftrightarrow> publish_qos o1 = q \<and> same_publication p o1"

lemma copy_for_same: "same_publication p p' \<Longrightarrow> copy_for q p' o1 \<Longrightarrow> copy_for q p o1"
  by (auto simp: copy_for_def intro: same_publication_trans)

lemma tx_publish_sends:
  assumes "tx_publish True p q s = Inr (s', p', acts)" "forwardable p" "q \<noteq> QOS_RESERVED"
  shows "\<exists>o1. publishes_to c (to_conn c acts) = [o1] \<and> copy_for q p o1"
proof -
  obtain p0 where p0: "publish_using_qos0 p s = Inr (s, p0, [Send (Publish p0)])"
    "publish_qos p0 = AT_MOST_ONCE" "topic p0 = topic p"
    "application_message p0 = application_message p" "publish_retain p0 = publish_retain p"
    "publish_dup p0 = publish_dup p"
    using publish_using_qos0_ok [OF assms(2)] by metis
  obtain o1 where o1: "outgoing AT_LEAST_ONCE (tx_next_packet_identifier s + 1) p o1"
    "\<And>s' p' acts. publish_using_qos1 p s = Inr (s', p', acts) \<Longrightarrow>
       acts = [Send (Publish o1), Start_timer (tx_next_packet_identifier s + 1)]"
    by (rule publish_using_qos1_cases [OF assms(2), of s]) (simp split: if_splits)
  obtain o2 where o2: "outgoing EXACTLY_ONCE (tx_next_packet_identifier s + 1) p o2"
    "\<And>s' p' acts. publish_using_qos2 p s = Inr (s', p', acts) \<Longrightarrow>
       acts = [Send (Publish o2), Start_timer (tx_next_packet_identifier s + 1)]"
    by (rule publish_using_qos2_cases [OF assms(2), of s]) (simp split: if_splits)
  show ?thesis
    using assms(1,3) p0 o1 o2
    by (cases q) (auto simp: tx_publish_def to_conn_def copy_for_def same_publication_def outgoing_def)
qed

lemma session_publish_to:
  assumes "session_publish alive cid p q sm = Inr (sm', p', out)" "sm_sessions sm cid = Some s"
    and "alive (session_connection s)" "forwardable p" "q \<noteq> QOS_RESERVED"
  shows "\<exists>o1. publishes_to (session_connection s) out = [o1] \<and> copy_for q p o1"
  using assms tx_publish_sends [OF _ assms(4,5)]
  by (auto simp: session_publish_def result_simps)

lemma session_publish_keeps:
  assumes "session_publish alive cid p q sm = Inr (sm', p', out)"
  shows "map_option session_connection (sm_sessions sm' j) = map_option session_connection (sm_sessions sm j)"
  using assms by (auto simp: session_publish_def result_simps split: option.splits)

lemma session_publish_elsewhere:
  assumes "session_publish alive j p q sm = Inr (sm', p', out)"
    and "\<And>s. sm_sessions sm j = Some s \<Longrightarrow> session_connection s \<noteq> c"
  shows "publishes_to c out = []"
  using assms by (auto simp: session_publish_def result_simps split: option.splits)

text \<open>
  The loop over the resolved subscribers, seen from one session whose connection no other session
  shares.
\<close>

abbreviation publish_to_subscriber where
  "publish_to_subscriber alive \<equiv> \<lambda>(sm, p, out) (cid, q).
     rbind (session_publish alive cid p q sm) (\<lambda>(sm', p', out'). Inr (sm', p', out @ out'))"

definition sole_session :: "session_manager \<Rightarrow> string \<Rightarrow> conn \<Rightarrow> bool" where
  "sole_session sm cid c \<longleftrightarrow> map_option session_connection (sm_sessions sm cid) = Some c \<and>
     (\<forall>j. j \<noteq> cid \<longrightarrow> map_option session_connection (sm_sessions sm j) \<noteq> Some c)"

lemma publish_loop_delivers:
  assumes "fold_result (publish_to_subscriber alive) (sm, p, out) rs = Inr (sm', p', out')"
    and "sm_ok sm" "forwardable p" "distinct (map fst rs)" "sole_session sm cid c" "alive c"
  shows "\<exists>new. publishes_to c out' = publishes_to c out @ new \<and>
    (case map_of rs cid of
       None \<Rightarrow> new = []
     | Some q \<Rightarrow> q \<noteq> QOS_RESERVED \<longrightarrow> (\<exists>o1. new = [o1] \<and> copy_for q p o1))"
  using assms
proof (induction rs arbitrary: sm p out)
  case (Cons r rs)
  obtain j q where r: "r = (j, q)"
    by (cases r)
  obtain sm1 p1 out1 where one: "session_publish alive j p q sm = Inr (sm1, p1, out1)"
    and rest: "fold_result (publish_to_subscriber alive) (sm1, p1, out @ out1) rs = Inr (sm', p', out')"
    using Cons.prems(1) by (auto simp: r result_simps)
  have ok: "sm_ok sm1" "forwardable p1" "same_publication p p1"
    using session_publish_ok [OF one Cons.prems(2,3)] by auto
  have "sole_session sm1 cid c"
    using Cons.prems(5) session_publish_keeps [OF one] by (simp add: sole_session_def)
  from Cons.IH [OF rest ok(1,2) _ this Cons.prems(6)] Cons.prems(4)
  obtain new where new: "publishes_to c out' = publishes_to c (out @ out1) @ new"
    "case map_of rs cid of None \<Rightarrow> new = []
     | Some q \<Rightarrow> q \<noteq> QOS_RESERVED \<longrightarrow> (\<exists>o1. new = [o1] \<and> copy_for q p1 o1)"
    by auto
  show ?case
  proof (cases "j = cid")
    case True
    then have "map_of rs cid = None"
      using Cons.prems(4) by (auto simp: r map_of_eq_None_iff)
    then have "new = []"
      using new(2) by simp
    moreover obtain s where "sm_sessions sm cid = Some s" "session_connection s = c"
      using Cons.prems(5) by (auto simp: sole_session_def)
    then have "q \<noteq> QOS_RESERVED \<Longrightarrow> \<exists>o1. publishes_to c out1 = [o1] \<and> copy_for q p o1"
      using session_publish_to [of alive cid p q sm sm1 p1 out1 s] one Cons.prems(3,6) True by simp
    ultimately show ?thesis
      using new(1) True by (simp add: r)
  next
    case False
    then have "publishes_to c out1 = []"
      using session_publish_elsewhere [OF one, of c] Cons.prems(5) by (fastforce simp: sole_session_def)
    then show ?thesis
      using new False copy_for_same [OF ok(3)] by (auto simp: r split: option.splits)
  qed
qed simp

lemma publish_loop_keeps_absent:
  assumes "fold_result (publish_to_subscriber alive) (sm, p, out) rs = Inr (sm', p', out')"
    and "sm_sessions sm j = None"
  shows "sm_sessions sm' j = None"
  using assms
proof (induction rs arbitrary: sm p out)
  case (Cons r rs)
  then obtain sm1 p1 out1 where "session_publish alive (fst r) p (snd r) sm = Inr (sm1, p1, out1)"
    "fold_result (publish_to_subscriber alive) (sm1, p1, out @ out1) rs = Inr (sm', p', out')"
    by (auto simp: result_simps split: prod.splits)
  then show ?case
    using Cons.IH [of sm1 p1 "out @ out1"] session_publish_keeps [of alive "fst r" p "snd r" sm sm1 p1 out1 j]
      Cons.prems(2) by simp
qed simp

text \<open>The qualities of service with which a client subscribed to a topic.\<close>

definition subscribed_qos :: "session_manager \<Rightarrow> string \<Rightarrow> string \<Rightarrow> QoS set" where
  "subscribed_qos sm cid t =
     {sc_maximum_qos x |x. x \<in> set (sm_subscriptions sm) \<and> sc_client_id x = cid \<and>
                          topic_filter_matches_topic (sc_topic_filter x) t = Inr True}"

lemma finite_subscribed_qos: "finite (subscribed_qos sm cid t)"
  by (simp add: subscribed_qos_def)

lemma resolve_subscribers_map:
  assumes "subscriptions_ok (sm_subscriptions sm)"
  shows "\<exists>rs. resolve_subscribers (sm_subscriptions sm) p = Inr rs \<and> distinct (map fst rs) \<and>
    (\<forall>cid. map_of rs cid = (if subscribed_qos sm cid (topic p) = {} then None
                            else Some (Max (subscribed_qos sm cid (topic p)))))"
proof -
  let ?hits = "subscribers.hits (topic p) (set (sm_subscriptions sm))"
  obtain rs where rs: "resolve_subscribers (sm_subscriptions sm) p = Inr rs" "resolves_to ?hits rs"
    using subscribers.resolve_correct [of "sm_subscriptions sm" "topic p"] sc_matches_total [OF assms]
    by (auto simp: resolve_subscribers_def)
  have hits: "(cid, q) \<in> ?hits \<longleftrightarrow> q \<in> subscribed_qos sm cid (topic p)" for cid q
    unfolding subscribers.hits_def by (auto simp: subscribed_qos_def sc_matches_def)
  have dist: "distinct (map fst rs)"
    and mem: "\<And>cid q. (cid, q) \<in> set rs \<longleftrightarrow> q \<in> subscribed_qos sm cid (topic p) \<and>
      (\<forall>q' \<in> subscribed_qos sm cid (topic p). q' \<le> q)"
    using rs(2) by (auto simp: resolves_to_def hits)
  have "map_of rs cid = (if subscribed_qos sm cid (topic p) = {} then None
      else Some (Max (subscribed_qos sm cid (topic p))))" for cid
  proof (cases "subscribed_qos sm cid (topic p) = {}")
    case True
    then have "map_of rs cid = None"
      using mem by (force simp: map_of_eq_None_iff)
    then show ?thesis
      using True by simp
  next
    case False
    then have "(cid, Max (subscribed_qos sm cid (topic p))) \<in> set rs"
      using finite_subscribed_qos by (simp add: mem)
    then show ?thesis
      using dist False by simp
  qed
  then show ?thesis
    using rs(1) dist by blast
qed

lemma sm_publish_delivers:
  assumes "sm_ok sm" "forwardable p" "sm_publish alive p sm = Inr (sm', p', out)"
    and "sole_session sm cid c" "alive c" "QOS_RESERVED \<notin> subscribed_qos sm cid (topic p)"
  shows "if subscribed_qos sm cid (topic p) = {} then publishes_to c out = []
    else \<exists>o1. publishes_to c out = [o1] \<and> copy_for (Max (subscribed_qos sm cid (topic p))) p o1"
proof -
  have "subscriptions_ok (sm_subscriptions sm)"
    using assms(1) by (simp add: sm_ok_def)
  then obtain rs where rs: "resolve_subscribers (sm_subscriptions sm) p = Inr rs" "distinct (map fst rs)"
    "map_of rs cid = (if subscribed_qos sm cid (topic p) = {} then None
                      else Some (Max (subscribed_qos sm cid (topic p))))"
    using resolve_subscribers_map by blast
  have loop: "fold_result (publish_to_subscriber alive) (sm, p, []) rs = Inr (sm', p', out)"
    using assms(3) rs(1) by (simp add: sm_publish_def)
  have "Max (subscribed_qos sm cid (topic p)) \<noteq> QOS_RESERVED" if "subscribed_qos sm cid (topic p) \<noteq> {}"
    using Max_in [OF finite_subscribed_qos that] assms(6) by metis
  then show ?thesis
    using publish_loop_delivers [OF loop assms(1,2) rs(2) assms(4,5)] rs(3)
    by (auto split: if_splits)
qed

section \<open>Properties\<close>

text \<open>
  C4. The invariant of the broker: in every state reachable by any interleaving of packets, lost
  connections, timers and shutdown, the stores of all sessions are consistent, all filters passed
  validation, every retained message is filed under its topic; and every packet sent to any connection
  on the way is encoded without an exception, an assertion or a write outside the buffer.
\<close>

theorem broker_invariant:
  assumes "broker_run max_retries out sm"
  shows "sm_ok sm \<and> (\<forall>c p. (c, Send p) \<in> set out \<longrightarrow>
    (\<exists>bytes. encode_packet p (unat (packet_total_length p)) = Inr bytes))"
proof -
  have ok: "sm_ok sm" "good_effects out"
    using broker_run_ok [OF assms] by auto
  have "\<exists>bytes. encode_packet p (unat (packet_total_length p)) = Inr bytes"
    if "(c, Send p) \<in> set out" for c p
  proof -
    have "sendable p"
      using ok(2) that by (auto simp: good_effects_def)
    then show ?thesis
      using encode_packet_exact by blast
  qed
  with ok(1) show ?thesis
    by blast
qed

definition sample_connect :: connect where
  "sample_connect = new_connect 20 ''MQTT'' 4 2 60 ''c1'' (Some []) [] (Some []) (Some [])"

definition sample_subscribe :: subscribe where
  "sample_subscribe = new_subscribe 6 1 [\<lparr>topic_filter = ''t'', maximum_qos = AT_LEAST_ONCE\<rparr>]"

definition sample_manager :: session_manager where
  "sample_manager =
     \<lparr>sm_sessions = [''c1'' \<mapsto> new_client_session sample_connect 1],
      sm_subscriptions = [\<lparr>sc_topic_filter = ''t'', sc_maximum_qos = AT_LEAST_ONCE, sc_client_id = ''c1''\<rparr>],
      sm_retained = []\<rparr>"

lemma sample_connect_simps [simp]:
  "client_id sample_connect = ''c1''" "connect_contains_last_will sample_connect = False"
  by (simp_all add: sample_connect_def new_connect_def c_string_def connect_contains_last_will_def
      cf_contains_last_will_def)

lemma dispatchable_sample_connect:
  "dispatchable [1 \<mapsto> ''c1''] \<lparr>pc_client_id = ''c1'', pc_connection = 1, pc_packet = Connect sample_connect\<rparr>"
  by (simp add: dispatchable_def) (simp add: sample_connect_def)

lemma sample_connect_handled:
  "handle_packet_received (\<lambda>_. True) [1 \<mapsto> ''c1'']
      \<lparr>pc_client_id = ''c1'', pc_connection = 1, pc_packet = Connect sample_connect\<rparr> new_session_manager
   = Inr (put_session ''c1'' (new_client_session sample_connect 1) new_session_manager, [])"
proof -
  have "packet_type (Connect sample_connect) = CONNECT"
    by (simp add: packet_type_def header_type_def sample_connect_def new_connect_def)
  then show ?thesis
    by (simp add: handle_packet_received_def no_effects_def sm_client_connected_def
        session_store_insert_def new_session_manager_def)
qed

lemma sm_ok_sample: "sm_ok sample_manager"
  by (simp add: sm_ok_def sample_manager_def subscriptions_ok_def retained_ok_def well_formed_filter_def
      plain_level_def session_ok_def new_client_session_def tx_ok_new rx.store_ok_empty)

theorem broker_invariant_witness:
  "\<exists>sm. broker_run 3 [] sm \<and> sm_sessions sm ''c1'' \<noteq> None \<and> sm_ok sm"
proof -
  let ?sm = "put_session ''c1'' (new_client_session sample_connect 1) new_session_manager"
  have "broker_run 3 ([] @ []) ?sm"
    by (rule broker_continue [OF broker_start broker_packet
          [OF dispatchable_sample_connect sample_connect_handled]])
  then have run: "broker_run 3 [] ?sm"
    by simp
  from broker_invariant [OF run] run show ?thesis
    by (intro exI [of _ ?sm]) simp
qed

text \<open>
  In a reachable state the dispatcher handles every packet the decoders can produce, or fails one
  of its assertions; it never throws, never reads an empty optional and never casts wrongly.
\<close>

lemma dispatcher_fails_only_by_assertion:
  assumes "broker_run max_retries out sm" "dispatchable conn_client_id pc"
    and "handle_packet_received alive conn_client_id pc sm = Inl e"
  shows "e = Assertion_failed"
proof -
  have "sm_ok sm"
    using broker_run_ok [OF assms(1)] by simp
  then show ?thesis
    using handle_packet_received_ok [OF _ assms(2), of sm alive] assms(3) by (auto dest: fails_onlyD)
qed


lemma subscribed_qos_sample: "subscribed_qos sample_manager ''c1'' ''t'' = {AT_LEAST_ONCE}"
  by (auto simp: subscribed_qos_def sample_manager_def topic_filter_matches_topic_def)

lemma sole_session_sample: "sole_session sample_manager ''c1'' 1"
  by (simp add: sole_session_def sample_manager_def new_client_session_def)


lemma sm_publish_keeps_absent:
  "\<lbrakk>sm_publish alive p sm = Inr (sm', p', out); sm_sessions sm j = None\<rbrakk> \<Longrightarrow> sm_sessions sm' j = None"
  using publish_loop_keeps_absent by (auto simp: sm_publish_def result_simps)

text \<open>A last will with the reserved quality of service can only be published if nobody receives it.\<close>

lemma reserved_last_will:
  assumes "publish_last_will alive s sm = Inr (sm', out)" "session_lwt s = Some con" "subscriptions_ok (sm_subscriptions sm)"
    and "will_topic con = Some t" "will_message con = Some m" "connect_last_will_qos con = QOS_RESERVED"
    and "sole_session sm cid c" "alive c" "QOS_RESERVED \<notin> subscribed_qos sm cid t"
  shows "subscribed_qos sm cid t = {} \<and> sm' = sm \<and> out = []"
proof -
  obtain p where p: "publish_create False QOS_RESERVED False t 0 m = Inr p" "header_type p = PUBLISH"
    "publish_qos p = QOS_RESERVED" "topic p = t"
    using publish_create_reserved by blast
  obtain rs where rs: "resolve_subscribers (sm_subscriptions sm) p = Inr rs"
    "map_of rs cid = (if subscribed_qos sm cid t = {} then None else Some (Max (subscribed_qos sm cid t)))"
    using resolve_subscribers_map [OF assms(3), of p] p(4) by auto
  have "Max (subscribed_qos sm cid t) \<noteq> QOS_RESERVED" if "subscribed_qos sm cid t \<noteq> {}"
    using Max_in [OF finite_subscribed_qos that] assms(9) by metis
  moreover have "(cid, q) \<in> set rs \<Longrightarrow> deliverable alive sm (cid, q) \<longleftrightarrow> q \<noteq> QOS_RESERVED" for q
    using assms(7,8) by (auto simp: deliverable_def sole_session_def)
  ultimately show ?thesis
    using assms(1,2,4-6) p(1) sm_publish_reserved [OF p(2,3) rs(1), of alive] rs(2)
    by (auto simp: publish_last_will_def result_simps split: if_splits dest!: map_of_SomeD)
qed

lemma last_will_is_published:
  assumes "publish_last_will alive s sm = Inr (sm', out)" "session_lwt s = Some con"
    and "will_topic con = Some t" "will_message con = Some m" "length t \<le> 65535" "length m \<le> 65535"
    and "connect_last_will_qos con \<noteq> QOS_RESERVED"
  shows "\<exists>p p'. sm_publish alive p sm = Inr (sm', p', out) \<and> forwardable p \<and> topic p = t \<and>
    application_message p = m \<and> \<not> publish_retain p"
proof -
  obtain p where p: "publish_create False (connect_last_will_qos con) False t 0 m = Inr p" "publish_wf p"
    "topic p = t" "application_message p = m" "\<not> publish_retain p"
    using publish_create_wf [OF assms(7), of t m False False 0] assms(5,6) by auto
  moreover have "forwardable p"
    using assms(5,6) p by (simp add: forwardable_def)
  ultimately show ?thesis
    using assms(1-4) by (fastforce simp: publish_last_will_def result_simps)
qed


text \<open>Client \<open>c2\<close>, whose last will goes to the topic \<open>c1\<close> has subscribed to, loses its connection.\<close>

definition sample_will :: connect where
  "sample_will = new_connect 30 ''MQTT'' 4 0x0C 0 ''c2'' (Some ''t'') [104, 105] None None"

definition manager_with_will :: session_manager where
  "manager_with_will =
     put_session ''c2'' ((new_client_session sample_connect 2)\<lparr>session_client_id := ''c2'', session_lwt := Some sample_will\<rparr>)
       sample_manager"

lemma sample_will_handled:
  "map_sum id snd (sm_client_disconnected_ungracefully (\<lambda>_. True) ''c2'' manager_with_will) =
     Inr [(1, Send (Publish \<lparr>type_and_flags = 0x32, remaining_length = 7, topic = ''t'', packet_identifier = 1,
                             application_message = [104, 105]\<rparr>)), (1, Start_timer 1)]"
  by code_simp

lemma sm_ok_manager_with_will: "sm_ok manager_with_will"
  unfolding manager_with_will_def
  by (intro sm_ok_put_session sm_ok_sample)
    (simp add: session_ok_def new_client_session_def tx_ok_new rx.store_ok_empty lwt_ok_def sample_will_def
      new_connect_def c_string_def)


text \<open>
  C36. CONNECT with an identifier that already has a session: the old session stays, with its old
  connection, and nothing of the new one is stored. MQTT-3.1.4-2 demands the opposite, to disconnect
  the old client. When the new connection ends, the session of the old one is destroyed.
\<close>

theorem connect_does_not_take_over_session:
  assumes "sm_sessions sm cid = Some s" "conn_client_id c = Some cid"
  shows "sm_client_connected alive conn_client_id con c sm = Inr sm \<and>
    sm_sessions (sm_client_disconnected cid sm) cid = None"
  using assms
  by (simp_all add: sm_client_connected_def session_store_insert_def sm_client_disconnected_def sm_destroy_def)

theorem connect_does_not_take_over_session_witness:
  "sm_client_connected (\<lambda>_. True) [2 \<mapsto> ''c1''] sample_connect 2 sample_manager = Inr sample_manager"
  using connect_does_not_take_over_session
    [of sample_manager "''c1''" "new_client_session sample_connect 1" "[2 \<mapsto> ''c1'']" 2]
  by (simp add: sample_manager_def)

text \<open>
  A CONNECT packet with a retained last will, which every client may send, fails the dispatcher's
  assertion and aborts the server, in every state. Any other CONNECT of an authenticated connection
  is handled.
\<close>

lemma retained_last_will_aborts_the_server:
  assumes "well_typed (Connect con)" "conn_client_id c = Some cid"
  shows "handle_packet_received alive conn_client_id
      \<lparr>pc_client_id = cid, pc_connection = c, pc_packet = Connect con\<rparr> sm = Inl e \<longleftrightarrow>
    connect_contains_last_will con \<and> connect_retain_last_will con \<and> e = Assertion_failed"
proof -
  have "packet_type (Connect con) = CONNECT"
    using assms(1) by (simp add: well_typed_def)
  then show ?thesis
    using assms(2) by (auto simp: handle_packet_received_def no_effects_def sm_client_connected_def
        session_store_insert_def result_simps)
qed

end
