(* ===== verification/Codec_Properties.thy ===== *)
theory Codec_Properties
  imports Frame_Reading Decoder_Safety
begin

text \<open>
  The properties of the codec that span its parts: encoder, frame reader and decoders together, and
  the decoders on arbitrary input.
\<close>

section \<open>From one end of a connection to the other\<close>

lemma encoded_frame:
  assumes "sendable p" "encode_packet p (unat (packet_total_length p)) = Inr bytes"
  shows "\<exists>body. encode_body p = Inr body \<and> length body = unat (packet_remaining_length p) \<and>
    bytes = frame_bytes (packet_type_and_flags p) (packet_remaining_length p) body \<and>
    length bytes = unat (packet_total_length p)"
  using encode_packet_exact [OF assms(1)] assms(2) by (auto simp: frame_bytes_def)

lemma holds_at_frame_body:
  assumes "reader_buffer r = frame_bytes tf rl body @ junk"
  shows "holds_at (reader_buffer r) (frame_begin (frame_of tf rl body)) body"
  using holds_at_self [of "tf # encode_remaining_length_loop rl" body junk] assms
  by (simp add: frame_bytes_def frame_of_def)

lemma reading_complete:
  assumes "reading fr rest capacity (r, n, stream)" "n = length fr"
  shows "\<exists>junk. reader_buffer r = fr @ junk" "stream = rest"
proof -
  have "take n (reader_buffer r) = fr" "stream = rest"
    using assms by (auto simp: reading_def)
  then show "\<exists>junk. reader_buffer r = fr @ junk" "stream = rest"
    by (metis append_take_drop_id)+
qed

text \<open>
  C1. A packet crosses the wire unchanged. Encode a PUBLISH the decoder would accept or an
  acknowledgement, send its bytes in front of anything else, receive them in pieces of arbitrary size
  into a read buffer at least as long as the packet: when the frame reader says it is done, exactly
  the bytes of this packet were consumed, and decoding the frame yields the packet that was encoded.
\<close>

theorem packet_crosses_the_wire:
  assumes "relayed p" "encode_packet p (unat (packet_total_length p)) = Inr bytes"
    and "length bytes \<le> length buffer"
    and "(read_step (length buffer))\<^sup>*\<^sup>* (new_frame_reader buffer, 0, bytes @ rest) (r, n, stream)"
    and "frame_reader_call False n r = Inr (0, r')"
  shows "stream = rest \<and> n = length bytes \<and>
    (\<exists>f. get_frame r' = Some f \<and> decode_packet (reader_buffer r') f = Inr p)"
proof -
  let ?rl = "packet_remaining_length p" and ?tf = "packet_type_and_flags p"
  have s: "sendable p"
    using assms(1) by (rule relayed_sendable)
  obtain body where body: "encode_body p = Inr body" "length body = unat ?rl"
    "bytes = frame_bytes ?tf ?rl body"
    using encoded_frame [OF s assms(2)] by blast
  have rl: "?rl \<le> MAX_ALLOWED_PACKET_LENGTH"
    using s by (rule sendable_remaining_length)
  have fits: "length (frame_bytes ?tf ?rl body) \<le> length buffer"
    using assms(3) body(3) by simp
  have inv: "reading (frame_bytes ?tf ?rl body) rest (length buffer) (r, n, stream)"
    using read_steps_reading [OF rl body(2) fits assms(4)] reading_start [OF refl] body(3) by simp
  then have parts: "n \<le> length (frame_bytes ?tf ?rl body)" "length (reader_buffer r) = length buffer"
    "take n (reader_buffer r) = take n (frame_bytes ?tf ?rl body)"
    by (auto simp: reading_def)
  have n: "n = length (frame_bytes ?tf ?rl body)" and r': "r' = r\<lparr>reader_frame := Some (frame_of ?tf ?rl body)\<rparr>"
    using assms(5) parts fits frame_reader_call_frame [OF rl body(2) _ parts(1) _ parts(3)]
    by (auto split: if_splits)
  obtain junk where junk: "reader_buffer r = frame_bytes ?tf ?rl body @ junk"
    using reading_complete(1) [OF inv n] by blast
  let ?f = "frame_of ?tf ?rl body"
  have "decode_packet (reader_buffer r) ?f = Inr p"
    using assms(1) body(1) holds_at_frame_body [OF junk]
    by (rule decode_packet_of_body) (simp_all add: frame_of_def frame_bytes_def)
  then show ?thesis
    using reading_complete(2) [OF inv n] n body(3) by (simp add: r' get_frame_def)
qed

theorem packet_crosses_the_wire_witness:
  "\<exists>r r'. (read_step 8)\<^sup>*\<^sup>* (new_frame_reader (replicate 8 0), 0, [0x40, 0x02, 0x12, 0x34] @ [0xC0]) (r, 4, [0xC0]) \<and>
    frame_reader_call False 4 r = Inr (0, r') \<and>
    (\<exists>f. get_frame r' = Some f \<and> decode_packet (reader_buffer r') f = Inr (Puback (new_puback 0x1234)))"
proof -
  let ?fr = "frame_bytes 0x40 2 [0x12, 0x34]"
  have loop: "encode_remaining_length_loop 2 = [2]"
    by (subst encode_remaining_length_loop.simps) simp
  then have fr: "?fr = [0x40, 0x02, 0x12, 0x34]"
    by (simp add: frame_bytes_def)
  have len: "length ?fr = 4"
    by (simp add: fr)
  have hyps: "(2 :: u32) \<le> MAX_ALLOWED_PACKET_LENGTH" "length [0x12, 0x34 :: byte] = unat (2 :: u32)"
    "length ?fr \<le> 8"
    by (simp_all add: MAX_ALLOWED_PACKET_LENGTH_def fr)
  obtain r where "(read_step 8)\<^sup>*\<^sup>* (new_frame_reader (replicate 8 0), 0, ?fr @ [0xC0]) (r, length ?fr, [0xC0])"
    and "reading ?fr [0xC0] 8 (r, length ?fr, [0xC0])"
    using read_reaches_end [OF hyps reading_start [OF length_replicate], where rest = "[0xC0]"] by blast
  then have steps: "(read_step 8)\<^sup>*\<^sup>* (new_frame_reader (replicate 8 0), 0, ?fr @ [0xC0]) (r, 4, [0xC0])"
    and inv: "reading ?fr [0xC0] 8 (r, 4, [0xC0])"
    unfolding len by simp_all
  obtain r' where r': "frame_reader_call False 4 r = Inr (0, r')"
    using frame_reader_call_frame [OF hyps(1,2), where n = 4 and r = r and tf = "0x40"] inv
    by (auto simp: reading_def fr loop)
  let ?p = "Puback (new_puback 0x1234)"
  have p: "packet_type_and_flags ?p = 0x40" "packet_remaining_length ?p = 2"
    by (simp_all add: packet_type_and_flags_def packet_remaining_length_def type_and_flags_new_ack)
      (simp add: new_packet_defs mqtt_ack_def)
  have "sendable ?p"
    by (simp add: new_packet_defs mqtt_ack_def header_type_def)
  then have enc: "encode_packet ?p (unat (packet_total_length ?p)) = Inr [0x40, 0x02, 0x12, 0x34]"
    using encode_packet_exact [of ?p] by (auto simp: p loop encode_uint16_def)
  have "relayed ?p"
    by simp
  from packet_crosses_the_wire [OF this enc, where buffer = "replicate 8 0" and rest = "[0xC0]"] steps r'
  show ?thesis
    unfolding fr by auto
qed

text \<open>
  C10. The frame reader neither reads too much nor gets stuck: while a frame that fits the read buffer
  is being received in arbitrary pieces, its completion condition never throws, never asks for bytes
  beyond the frame, and asks for none exactly when the frame is complete; until then another
  piece can always be received, and every piece brings the end nearer.
\<close>

theorem frame_reader_reads_exactly_one_frame:
  assumes "rl \<le> MAX_ALLOWED_PACKET_LENGTH" "length body = unat rl"
    and "length (frame_bytes tf rl body) \<le> length buffer"
    and "(read_step (length buffer))\<^sup>*\<^sup>*
           (new_frame_reader buffer, 0, frame_bytes tf rl body @ rest) (r, n, stream)"
  shows "n \<le> length (frame_bytes tf rl body) \<and>
    (\<exists>k r'. frame_reader_call False n r = Inr (k, r') \<and> k \<le> length (frame_bytes tf rl body) - n \<and>
       (k = 0 \<longleftrightarrow> n = length (frame_bytes tf rl body)) \<and>
       (k = 0 \<longrightarrow> get_frame r' = Some (frame_of tf rl body))) \<and>
    (n < length (frame_bytes tf rl body) \<longrightarrow> (\<exists>s'. read_step (length buffer) (r, n, stream) s')) \<and>
    (\<forall>r2 n2 stream2. read_step (length buffer) (r, n, stream) (r2, n2, stream2) \<longrightarrow>
       n < n2 \<and> n2 \<le> length (frame_bytes tf rl body))"
proof -
  let ?fr = "frame_bytes tf rl body"
  have inv: "reading ?fr rest (length buffer) (r, n, stream)"
    using read_steps_reading [OF assms] reading_start [OF refl] by simp
  then have parts: "n \<le> length ?fr" "length (reader_buffer r) = length buffer"
    "take n (reader_buffer r) = take n ?fr"
    by (auto simp: reading_def)
  have call: "frame_reader_call False n r =
    (if n < 1 + length (encode_remaining_length_loop rl) then Inr (1, r)
     else if n < length ?fr then Inr (length ?fr - n, r)
     else Inr (0, r\<lparr>reader_frame := Some (frame_of tf rl body)\<rparr>))"
    using parts assms(3) by (intro frame_reader_call_frame assms) simp_all
  have "\<exists>k r'. frame_reader_call False n r = Inr (k, r') \<and> k \<le> length ?fr - n \<and>
      (k = 0 \<longleftrightarrow> n = length ?fr) \<and> (k = 0 \<longrightarrow> get_frame r' = Some (frame_of tf rl body))"
    unfolding call using parts(1) by (auto simp: get_frame_def frame_bytes_def)
  moreover have "n < n2 \<and> n2 \<le> length ?fr" if "read_step (length buffer) (r, n, stream) (r2, n2, stream2)"
    for r2 n2 stream2
    using read_step_reading [OF assms(1-3) that inv] by (auto simp: reading_def)
  ultimately show ?thesis
    using parts(1) read_progress [OF assms(1-3) inv] by blast
qed

theorem frame_reader_reads_exactly_one_frame_witness:
  "\<exists>k r'. frame_reader_call False 0 (new_frame_reader (replicate 8 0)) = Inr (k, r') \<and> k \<le> 2 \<and> k \<noteq> 0"
proof -
  have loop: "encode_remaining_length_loop 0 = [0]"
    by (subst encode_remaining_length_loop.simps) simp
  have "(0 :: u32) \<le> MAX_ALLOWED_PACKET_LENGTH" "length ([] :: byte list) = unat (0 :: u32)"
    "length (frame_bytes 0xC0 0 []) \<le> length (replicate 8 (0 :: byte))"
    by (simp_all add: frame_bytes_def loop)
  from frame_reader_reads_exactly_one_frame [OF this rtranclp.rtrancl_refl, of "[]"]
  show ?thesis
    by (auto simp: frame_bytes_def loop)
qed

section \<open>Decoders on arbitrary input\<close>

text \<open>
  C11. On every frame inside the read buffer the decoders of the packets a client sends terminate and
  either return a packet or throw \<^verbatim>\<open>malformed_mqtt_packet\<close>: no read outside the buffer, no failed
  assertion, no other exception. For CONNECT this needs two bytes of buffer behind the frame. A packet
  of any other type throws \<^verbatim>\<open>std::invalid_argument\<close>, which its caller does not catch.
\<close>

theorem decoders_fail_gracefully:
  assumes "in_bounds buf f" "decode_packet buf f = Inl e"
    and "frame_type f = CONNECT \<Longrightarrow> frame_end f + 2 \<le> length buf"
  shows "if client_sent (frame_type f) then \<exists>m. e = Malformed m else e = Invalid_argument"
  using assms decode_packet_graceful [of buf f] decode_packet_unsupported [of f buf]
  by (auto dest: fails_onlyD)

theorem decoders_fail_gracefully_witness:
  "\<exists>e. decode_packet [0x82, 0x01, 0x00] \<lparr>frame_type_and_flags = 0x82, frame_begin = 2, frame_end = 3\<rparr> = Inl e \<and>
     (\<exists>m. e = Malformed m)"
proof -
  let ?f = "\<lparr>frame_type_and_flags = 0x82, frame_begin = 2, frame_end = 3\<rparr>"
  have f: "frame_type ?f = SUBSCRIBE" "client_sent SUBSCRIBE"
    by (simp_all add: frame_type_def client_sent_def)
  have "in_bounds [0x82, 0x01, 0x00] ?f"
    by (simp add: in_bounds_def)
  moreover have e: "decode_packet [0x82, 0x01, 0x00] ?f = Inl (Malformed Uint16_truncated)"
    by (simp add: decode_packet_def f decode_subscribe_def decode_uint16_def)
  ultimately have "if client_sent (frame_type ?f) then \<exists>m. Malformed Uint16_truncated = Malformed m
      else Malformed Uint16_truncated = Invalid_argument"
    by (rule decoders_fail_gracefully) (simp add: f)
  then show ?thesis
    using e by (auto simp: f)
qed

text \<open>
  The CONNECT decoder reads outside the buffer: for a frame that ends the buffer right after its
  protocol name, or one byte behind it, the unchecked reads of protocol level and connect flags leave
  the buffer. The client chooses the length of the frame, so it chooses whether this happens.
\<close>

lemma connect_decoder_reads_outside_buffer:
  assumes "encode_utf8_string nm = Inr bytes" "nm \<noteq> []" "length extra \<le> 1"
  shows "decode_packet (pre @ bytes @ extra)
      \<lparr>frame_type_and_flags = 0x10, frame_begin = length pre, frame_end = length (pre @ bytes @ extra)\<rparr>
    = Inl Undefined_behaviour"
proof (rule decode_connect_overread)
  let ?buf = "pre @ bytes @ extra"
  show "decode_utf8_string ?buf
      (frame_begin \<lparr>frame_type_and_flags = 0x10, frame_begin = length pre, frame_end = length ?buf\<rparr>)
      (frame_end \<lparr>frame_type_and_flags = 0x10, frame_begin = length pre, frame_end = length ?buf\<rparr>)
    = Inr (length pre + length bytes, nm)"
    using utf8_string.dec_enc [OF assms(1) holds_at_self [of pre bytes extra]] by simp
qed (use assms in simp_all)

text \<open>
  C37. A decoded packet is an instance of the class that its type bits name, which is the type of the
  frame, so no later cast of it fails.
\<close>

theorem decoded_packets_are_well_typed:
  assumes "decode_packet buf f = Inr p"
  shows "class_type p = frame_type f \<and> packet_type p = frame_type f"
  using decode_packet_class [OF assms] decode_packet_well_typed [OF assms] by (simp add: well_typed_def)

theorem decoded_packets_are_well_typed_witness:
  "class_type (Pingreq new_pingreq) =
     frame_type \<lparr>frame_type_and_flags = 0xC0, frame_begin = 2, frame_end = 2\<rparr>"
proof -
  let ?f = "\<lparr>frame_type_and_flags = 0xC0, frame_begin = 2, frame_end = 2\<rparr>"
  have "frame_type ?f = PINGREQ"
    by (simp add: frame_type_def)
  then have "decode_packet [0xC0, 0x00] ?f = Inr (Pingreq new_pingreq)"
    by (simp add: decode_packet_def decode_pingreq_def frame_remaining_length_def distance_def)
  from decoded_packets_are_well_typed [OF this] show ?thesis
    by simp
qed

text \<open>
  C12. PUBLISH is decoded exactly: the decoder returns a packet if and only if the frame's bytes are
  the encoding of a well formed one (valid topic name, no DUP with quality of service 0, not the
  reserved quality of service, identifier 0 without one on the wire), and then it returns that packet.
\<close>

theorem publish_decoder_is_exact:
  assumes "frame_end f - frame_begin f \<le> 268435455" "frame_type f = PUBLISH"
  shows "decode_packet buf f = Inr (Publish p) \<longleftrightarrow>
    publish_wf p \<and> publish_acceptable p \<and> type_and_flags p = frame_type_and_flags f \<and>
    (\<exists>body. encode_publish_body p = Inr body \<and> holds_at buf (frame_begin f) body \<and>
       frame_end f = frame_begin f + length body)"
proof -
  have small: "frame_end f - frame_begin f < 2 ^ 32"
    using assms(1) by simp
  show ?thesis
    unfolding decode_packet_publish [OF assms(2)]
    using decode_publish_sound [OF _ small, of buf "Publish p"] decode_publish_of_encoding [of p _ buf f]
    by auto
qed

theorem publish_decoder_is_exact_witness:
  "\<exists>p. decode_packet [0x30, 0x04, 0x00, 0x01, 0x74, 0x41]
     \<lparr>frame_type_and_flags = 0x30, frame_begin = 2, frame_end = 6\<rparr> = Inr (Publish p)"
proof -
  let ?f = "\<lparr>frame_type_and_flags = 0x30, frame_begin = 2, frame_end = 6\<rparr>"
  let ?buf = "[0x30, 0x04, 0x00, 0x01, 0x74, 0x41] :: byte list"
  have t: "frame_type ?f = PUBLISH"
    by (simp add: frame_type_def type_of_def)
  have wf: "publish_wf sample_publish" "header_type sample_publish = PUBLISH"
    using forwardable_sample by (simp_all add: forwardable_def publish_wf_def)
  have acc: "publish_acceptable sample_publish" "type_and_flags sample_publish = 0x30"
    by (simp_all add: publish_acceptable_def topic_name_ok_def plain_level_def sample_publish_def
        publish_dup_def dup_of_def)
  have qos: "publish_qos sample_publish = AT_MOST_ONCE"
    by (simp add: sample_publish_def publish_qos_def qos_of_def)
  have "encode_publish_body sample_publish = Inr [0x00, 0x01, 0x74, 0x41]"
    using encode_publish_body_eq [OF wf(2)] qos
    by (simp add: has_packet_identifier_def) (simp add: sample_publish_def encode_uint16_def byte_of_char_def)
  moreover have "holds_at ?buf 2 [0x00, 0x01, 0x74, 0x41]"
    by (simp add: holds_at_def)
  ultimately have "decode_packet ?buf ?f = Inr (Publish sample_publish)"
    using publish_decoder_is_exact [of ?f ?buf sample_publish] t wf acc by simp
  then show ?thesis
    by blast
qed

text \<open>
  C38. SUBSCRIBE: from the bytes a client writes for a list of filters with their qualities of service
  the decoder recovers the packet identifier and the list, in order, nothing lost and nothing added.
\<close>

theorem subscribe_decoder_recovers_filters:
  assumes "enc_list wire_subscription subs = Inr bytes" "subs \<noteq> []"
  shows "decode_packet (pre @ encode_uint16 pktid @ bytes @ post)
      \<lparr>frame_type_and_flags = 0x82, frame_begin = length pre,
       frame_end = length pre + 2 + length bytes\<rparr>
    = Inr (Subscribe (new_subscribe (word_of_nat (2 + length bytes)) pktid subs))"
  using holds_at_self [of pre "encode_uint16 pktid @ bytes" post]
  by (intro decode_subscribe_wire assms) simp_all

theorem subscribe_decoder_recovers_filters_witness:
  "decode_packet [0x82, 0x06, 0x00, 0x07, 0x00, 0x01, 0x61, 0x02]
     \<lparr>frame_type_and_flags = 0x82, frame_begin = 2, frame_end = 8\<rparr>
   = Inr (Subscribe (new_subscribe 6 7 [\<lparr>topic_filter = ''a'', maximum_qos = EXACTLY_ONCE\<rparr>]))"
proof -
  let ?s = "\<lparr>topic_filter = ''a'', maximum_qos = EXACTLY_ONCE\<rparr>"
  have "enc_list wire_subscription [?s] = Inr [0x00, 0x01, 0x61, 0x02]"
    by (simp add: wire_subscription_def well_formed_filter_def plain_level_def encode_utf8_string_eq
        encode_uint16_def byte_of_char_def)
  from subscribe_decoder_recovers_filters [OF this, of "[0x82, 0x06]" 7 "[]"]
  show ?thesis
    by (simp add: encode_uint16_def) (simp add: numeral_eq_Suc)
qed

text \<open>
  UNSUBSCRIBE: likewise, the decoder recovers the packet identifier and the list of filters.
\<close>

lemma unsubscribe_decoder_recovers_filters:
  assumes "enc_list encode_utf8_string filters = Inr bytes" "filters \<noteq> []"
  shows "decode_packet (pre @ encode_uint16 pktid @ bytes @ post)
      \<lparr>frame_type_and_flags = 0xA2, frame_begin = length pre,
       frame_end = length pre + 2 + length bytes\<rparr>
    = Inr (Unsubscribe (new_unsubscribe (word_of_nat (2 + length bytes)) pktid filters))"
  using holds_at_self [of pre "encode_uint16 pktid @ bytes" post]
  by (intro decode_unsubscribe_wire assms) simp_all

end
