(* ===== verification/Server_Delivery.thy ===== *)
theory Server_Delivery
  imports Server_Invariant Delivery Codec_Properties
begin

text \<open>
  From the bytes of one client to the bytes for another: the effects of a publication consist of
  PUBLISH packets, \<open>perform\<close> turns the packets for a connection into their encodings in order, and a
  chunk that completes an encoded PUBLISH is received as that packet.
\<close>

section \<open>The effects of a publication\<close>

definition publications_only :: "effects \<Rightarrow> bool" where
  "publications_only out \<longleftrightarrow>
     (\<forall>(d, a) \<in> set out. a \<noteq> Stop \<and> (\<forall>x. a = Send x \<longrightarrow> (\<exists>q. x = Publish q)))"

lemma publications_only_simps [simp]:
  "publications_only []"
  "publications_only (xs @ ys) \<longleftrightarrow> publications_only xs \<and> publications_only ys"
  by (simp_all add: publications_only_def ball_Un)

lemma tx_publish_publications:
  assumes "tx_publish alive p q s = Inr (s', p', acts)" "forwardable p"
  shows "publications_only (to_conn c acts)"
proof -
  obtain p0 where p0: "publish_using_qos0 p s = Inr (s, p0, [Send (Publish p0)])"
    using publish_using_qos0_ok [OF assms(2)] by metis
  obtain o1 where o1: "\<And>s' p' acts. publish_using_qos1 p s = Inr (s', p', acts) \<Longrightarrow>
       acts = [Send (Publish o1), Start_timer (tx_next_packet_identifier s + 1)]"
    by (rule publish_using_qos1_cases [OF assms(2), of s]) (simp split: if_splits)
  obtain o2 where o2: "\<And>s' p' acts. publish_using_qos2 p s = Inr (s', p', acts) \<Longrightarrow>
       acts = [Send (Publish o2), Start_timer (tx_next_packet_identifier s + 1)]"
    by (rule publish_using_qos2_cases [OF assms(2), of s]) (simp split: if_splits)
  show ?thesis
    using assms(1) p0 o1 o2
    by (auto simp: tx_publish_def to_conn_def publications_only_def split: if_splits)
qed

lemma session_publish_publications:
  "session_publish alive cid p q sm = Inr (sm', p', out) \<Longrightarrow> forwardable p \<Longrightarrow> publications_only out"
  by (auto simp: session_publish_def result_simps tx_publish_publications split: option.splits)

lemma sm_publish_publications:
  assumes "sm_publish alive p sm = Inr (sm', p', out)" "sm_ok sm" "forwardable p"
  shows "publications_only out"
proof -
  let ?P = "\<lambda>(sm', p', out). sm_ok sm' \<and> forwardable p' \<and> publications_only out"
  obtain rs where "fold_result (publish_to_subscriber alive) (sm, p, []) rs = Inr (sm', p', out)"
    using assms(1) by (auto simp: sm_publish_def result_simps)
  then have "?P (sm', p', out)"
    by (rule fold_result_invariant [of _ _ _ _ ?P])
      (use assms(2,3) in \<open>auto simp: result_simps split: prod.splits
        dest: session_publish_ok session_publish_publications\<close>)
  then show ?thesis
    by simp
qed

section \<open>The packets for a connection\<close>

fun sent_to :: "conn \<Rightarrow> effects \<Rightarrow> mqtt_packet list" where
  "sent_to d [] = []"
| "sent_to d ((c, Send p) # out) = (if c = d then p # sent_to d out else sent_to d out)"
| "sent_to d (_ # out) = sent_to d out"

lemma sent_to_append [simp]: "sent_to d (xs @ ys) = sent_to d xs @ sent_to d ys"
  by (induction d xs rule: sent_to.induct) auto

lemma sent_to_other [simp]: "d \<noteq> c \<Longrightarrow> sent_to d (to_conn c acts) = []"
proof (induction acts)
  case (Cons a acts)
  then show ?case
    by (cases a) (simp_all add: to_conn_def)
qed (simp add: to_conn_def)

lemma sent_to_publications: "publications_only out \<Longrightarrow> sent_to d out = map Publish (publishes_to d out)"
  by (induction d out rule: publishes_to.induct) (auto simp: publications_only_def)

definition bytes_to :: "conn \<Rightarrow> writes \<Rightarrow> byte list list" where
  "bytes_to d written = map snd (filter (\<lambda>(c, _). c = d) written)"

lemma bytes_to_simps [simp]:
  "bytes_to d [] = []"
  "bytes_to d ((c, bytes) # written) = (if c = d then bytes # bytes_to d written else bytes_to d written)"
  "bytes_to d (xs @ ys) = bytes_to d xs @ bytes_to d ys"
  by (simp_all add: bytes_to_def)

definition encodes :: "mqtt_packet \<Rightarrow> byte list \<Rightarrow> bool" where
  "encodes p bytes \<longleftrightarrow> encode_packet p (unat (packet_total_length p)) = Inr bytes"

lemma open_in_put_stop [simp]:
  "c \<noteq> d \<Longrightarrow> open_in (put_connection c con s) d = open_in s d"
  by (simp add: open_in_def put_connection_def)

lemma perform_bytes:
  assumes "perform inline out s = Inr (s', written)" "open_in s d" "(d, Stop) \<notin> set out"
  shows "list_all2 encodes (sent_to d out) (bytes_to d written)"
  using assms
proof (induction inline out s arbitrary: written rule: perform.induct)
  case (2 inline c p out s)
  show ?case
  proof (cases "srv_objects s c")
    case None
    then show ?thesis
      using 2 by (auto simp: open_in_def)
  next
    case (Some con)
    then obtain bytes w where w: "write_packet p con = Inr bytes" "perform inline out s = Inr (s', w)"
      "written = (if con_open con then (c, bytes) # w else w)"
      using "2.prems"(1) by (auto simp: result_simps)
    have "c = d \<Longrightarrow> con_open con"
      using "2.prems"(2) Some by (auto simp: open_in_def)
    then show ?thesis
      using "2.IH"(2) [OF Some w(1,2)] "2.prems"(2,3) w
      by (auto simp: encodes_def write_packet_def)
  qed
next
  case (3 inline c out s)
  then show ?case
    by (cases "srv_objects s c") auto
qed auto

section \<open>Receiving an encoded packet\<close>

text \<open>The chunk completes a frame: what the reader makes of it.\<close>

definition completed_frame :: "connection \<Rightarrow> byte list \<Rightarrow> (byte list \<times> frame) option" where
  "completed_frame c chunk =
     (case frame_reader_call False (con_transferred c + length chunk)
             (store_chunk (con_transferred c) chunk (con_reader c)) of
        Inr (0, r') \<Rightarrow>
          if length (reader_buffer r') = length (reader_buffer (con_reader c))
          then map_option (Pair (reader_buffer r')) (get_frame r') else None
      | _ \<Rightarrow> None)"

text \<open>What has arrived of the frame being read, with the new chunk.\<close>

definition received_so_far :: "connection \<Rightarrow> byte list \<Rightarrow> byte list" where
  "received_so_far c chunk = take (con_transferred c) (reader_buffer (con_reader c)) @ chunk"

lemma completed_frame_encoded:
  assumes "relayed p" "encodes p bytes" "received_so_far c chunk = bytes"
    and "length bytes \<le> length (reader_buffer (con_reader c))" "con_transferred c \<le> length (reader_buffer (con_reader c))"
  shows "\<exists>buf f. completed_frame c chunk = Some (buf, f) \<and> decode_packet buf f = Inr p \<and>
    frame_ok (length buf) f"
proof -
  let ?rl = "packet_remaining_length p" and ?tf = "packet_type_and_flags p"
  let ?r = "store_chunk (con_transferred c) chunk (con_reader c)"
  have s: "sendable p"
    using assms(1) by (rule relayed_sendable)
  obtain body where body: "encode_body p = Inr body" "length body = unat ?rl" "bytes = frame_bytes ?tf ?rl body"
    using encoded_frame [OF s] assms(2) by (auto simp: encodes_def)
  have rl: "?rl \<le> MAX_ALLOWED_PACKET_LENGTH"
    using s by (rule sendable_remaining_length)
  have n: "con_transferred c + length chunk = length bytes"
    using arg_cong [OF assms(3), of length] assms(5) by (simp add: received_so_far_def)
  then have len: "length (reader_buffer ?r) = length (reader_buffer (con_reader c))"
    using assms(4) by (simp add: length_store_chunk)
  have "reader_buffer ?r = bytes @ drop (length bytes) (reader_buffer (con_reader c))"
    using assms(3) by (simp add: store_chunk_def received_so_far_def flip: n)
  then have buf: "reader_buffer ?r = frame_bytes ?tf ?rl body @ drop (length bytes) (reader_buffer (con_reader c))"
    unfolding body(3) .
  let ?f = "frame_of ?tf ?rl body"
  have "decode_packet (reader_buffer ?r) ?f = Inr p"
    using assms(1) body(1) holds_at_frame_body [OF buf]
    by (rule decode_packet_of_body) (simp_all add: frame_of_def frame_bytes_def)
  moreover have "frame_reader_call False (length bytes) ?r = Inr (0, ?r\<lparr>reader_frame := Some ?f\<rparr>)"
    using frame_reader_call_frame [OF rl body(2), of "length bytes" ?r ?tf] assms(4) len buf body(3)
    by (simp add: frame_bytes_def)
  moreover have "frame_ok (length (reader_buffer ?r)) ?f"
    using assms(4) len encode_remaining_length_loop_pos [of ?rl] body(3)
    by (auto simp: frame_ok_def frame_of_def frame_bytes_def Suc_le_eq)
  ultimately show ?thesis
    using len by (simp add: completed_frame_def n get_frame_def)
qed

text \<open>The connection while the packet that completed its frame is processed.\<close>

definition after_frame :: "nat \<Rightarrow> byte list \<Rightarrow> byte list \<Rightarrow> connection \<Rightarrow> connection" where
  "after_frame bufsize buf chunk c =
     c\<lparr>con_reader := \<lparr>reader_buffer = resize_buffer bufsize buf, reader_frame = None\<rparr>,
       con_transferred := con_transferred c + length chunk, con_reading := False,
       con_keep_alive_timer := False\<rparr>"

lemma after_frame_simps [simp]:
  "con_client_id (after_frame n buf chunk c) = con_client_id c"
  "con_socket (after_frame n buf chunk c) = con_socket c"
  "con_connect_timer (after_frame n buf chunk c) = con_connect_timer c"
  "con_stop_requested (after_frame n buf chunk c) = con_stop_requested c"
  "reader_frame (con_reader (after_frame n buf chunk c)) = None"
  "\<not> con_reading (after_frame n buf chunk c)"
  by (simp_all add: after_frame_def)

lemma completed_frame_call:
  assumes "completed_frame c chunk = Some (buf, f)"
  shows "\<exists>r'. frame_reader_call False (con_transferred c + length chunk)
      (store_chunk (con_transferred c) chunk (con_reader c)) = Inr (0, r') \<and>
    reader_buffer r' = buf \<and> reader_frame r' = Some f \<and> length buf = length (reader_buffer (con_reader c))"
  using assms by (auto simp: completed_frame_def get_frame_def split: sum.splits nat.splits if_splits)

lemma completed_frame_ok:
  assumes "callback_pre env self c sm" "length chunk \<le> bytes_wanted c" "completed_frame c chunk = Some (buf, f)"
  shows "frame_ok (env_read_buffer_size env) f \<and> length buf = env_read_buffer_size env"
proof -
  have pre: "env_read_buffer_size env \<le> 268435455" "connection_ok (env_read_buffer_size env) c"
    "length (reader_buffer (con_reader c)) = env_read_buffer_size env"
    using assms(1) by (auto simp: callback_pre_def connection_ok_def)
  then have r: "length (reader_buffer (store_chunk (con_transferred c) chunk (con_reader c))) =
      env_read_buffer_size env"
    using bytes_wanted_le [OF pre(2) assms(2)] by (simp add: length_store_chunk)
  obtain r' where r': "frame_reader_call False (con_transferred c + length chunk)
      (store_chunk (con_transferred c) chunk (con_reader c)) = Inr (0, r')"
    "reader_buffer r' = buf" "reader_frame r' = Some f" "length buf = length (reader_buffer (con_reader c))"
    using completed_frame_call [OF assms(3)] by blast
  show ?thesis
    using frame_reader_call_ok [OF r'(1)] r pre(1,3) r'(2-4) by auto
qed

lemma bytes_received_packet:
  assumes "callback_pre env self c sm" "length chunk \<le> bytes_wanted c"
    and "completed_frame c chunk = Some (buf, f)" "decode_packet buf f = Inr p"
  shows "bytes_received env self chunk c sm =
    process_decoded_packet env self p (after_frame (env_read_buffer_size env) buf chunk c) sm"
proof -
  let ?c = "after_frame (env_read_buffer_size env) buf chunk c"
  obtain r' where r': "frame_reader_call False (con_transferred c + length chunk)
      (store_chunk (con_transferred c) chunk (con_reader c)) = Inr (0, r')"
    "reader_buffer r' = buf" "reader_frame r' = Some f" "length buf = length (reader_buffer (con_reader c))"
    using completed_frame_call [OF assms(3)] by blast
  have n: "con_transferred c + length chunk \<le> length (reader_buffer (con_reader c))"
    using assms(1) bytes_wanted_le [OF _ assms(2), of "env_read_buffer_size env"]
    by (auto simp: callback_pre_def connection_ok_def)
  have pre: "callback_pre env self ?c sm"
    using assms(1) n by (auto simp: callback_pre_def connection_ok_def after_frame_def)
  have "\<nexists>m. process_decoded_packet env self p ?c sm = Inl (Malformed m)"
    using process_decoded_packet_ok(2) [OF pre assms(4)] completed_frame_ok [OF assms(1-3)]
    by (auto simp: fails_only_def processing_failure_def)
  then have "(case process_decoded_packet env self p ?c sm of
      Inl (Malformed m) \<Rightarrow> x | r \<Rightarrow> r) = process_decoded_packet env self p ?c sm" for x
    by (auto split: sum.splits error.splits)
  moreover have "c\<lparr>con_transferred := con_transferred c + length chunk, con_reading := False,
      con_keep_alive_timer := False, con_reader := r'\<lparr>reader_frame := None,
      reader_buffer := resize_buffer (env_read_buffer_size env) buf\<rparr>\<rparr> = ?c"
    by (cases c; cases r') (simp add: after_frame_def)
  ultimately show ?thesis
    using r' n assms(4)
    by (simp add: bytes_received_def on_frame_read_def Let_def length_store_chunk decode_and_process_def
        get_frame_def reset_frame_reader_def)
qed

text \<open>If the decoder rejects the frame, the connection is closed.\<close>

lemma bytes_received_malformed:
  assumes "callback_pre env self c sm" "length chunk \<le> bytes_wanted c"
    and "completed_frame c chunk = Some (buf, f)" "decode_packet buf f = Inl (Malformed m)"
  shows "\<exists>c'. con_client_id c' = con_client_id c \<and> con_open c' = con_open c \<and> \<not> con_reading c' \<and>
    bytes_received env self chunk c sm = connection_close_requested env self protocol_violation c' sm"
proof -
  obtain r' where r': "frame_reader_call False (con_transferred c + length chunk)
      (store_chunk (con_transferred c) chunk (con_reader c)) = Inr (0, r')"
    "reader_buffer r' = buf" "reader_frame r' = Some f" "length buf = length (reader_buffer (con_reader c))"
    using completed_frame_call [OF assms(3)] by blast
  have n: "con_transferred c + length chunk \<le> length (reader_buffer (con_reader c))"
    using assms(1) bytes_wanted_le [OF _ assms(2), of "env_read_buffer_size env"]
    by (auto simp: callback_pre_def connection_ok_def)
  show ?thesis
    using r' n assms(4)
    by (intro exI [of _ "c\<lparr>con_reader := r', con_transferred := con_transferred c + length chunk,
          con_reading := False, con_keep_alive_timer := False\<rparr>"])
      (simp add: bytes_received_def on_frame_read_def Let_def length_store_chunk decode_and_process_def get_frame_def)
qed

section \<open>A published packet\<close>

lemma sm_client_published_publishes:
  assumes "sm_client_published alive cid p sm = Inr (sm', out)" "sm_sessions sm cid = Some sess"
    and "session_rx sess (packet_identifier p) = None" "forwardable p"
  shows "\<exists>acts rx' p0 sm2 p' out'. out = to_conn (session_connection sess) acts @ out' \<and>
    sm_publish alive p0 (put_session cid (sess\<lparr>session_rx := rx'\<rparr>) sm) = Inr (sm2, p', out') \<and>
    (\<forall>a \<in> set acts. a \<noteq> Stop) \<and>
    forwardable p0 \<and> topic p0 = topic p \<and> application_message p0 = application_message p \<and> \<not> publish_retain p0 \<and>
    rx_client_sent_publish (alive (session_connection sess)) p0 (session_rx sess) = Inr (rx', acts, True)"
proof -
  define p0 where "p0 = (if publish_retain p then publish_set_retain False p else p)"
  obtain sm1 p1 where one: "session_client_sent_publish alive cid sess p0 sm = Inr (sm1, p1, out)"
    using assms(1,2) by (cases "publish_retain p") (auto simp: p0_def sm_client_published_def result_simps)
  have p: "packet_identifier p0 = packet_identifier p" "forwardable p0" "topic p0 = topic p"
    "application_message p0 = application_message p" "\<not> publish_retain p0"
    using assms(4) by (cases "publish_retain p"; simp add: p0_def)+
  obtain rx' acts d where rx: "rx_client_sent_publish (alive (session_connection sess)) p0 (session_rx sess) = Inr (rx', acts, d)"
    using one by (auto simp: session_client_sent_publish_def result_simps)
  then have d: "d" "\<forall>a \<in> set acts. a \<noteq> Stop"
    using assms(3) p(1) by (auto simp: rx_client_sent_publish_eq Let_def split: if_splits)
  obtain out' where "sm_publish alive p0 (put_session cid (sess\<lparr>session_rx := rx'\<rparr>) sm) = Inr (sm1, p1, out')"
    "out = to_conn (session_connection sess) acts @ out'"
    using one rx d(1) by (auto simp: session_client_sent_publish_def Let_def result_simps)
  then show ?thesis
    using p d rx
    by (intro exI [of _ acts] exI [of _ rx'] exI [of _ p0] exI [of _ sm1] exI [of _ p1] exI [of _ out'] conjI)
      simp_all
qed

section \<open>A published packet at the server\<close>

lemma server_ok_sole_session:
  assumes "server_ok cfg s" "session_conn (srv_sessions s) cid = Some c" "srv_objects s c \<noteq> None"
  shows "sole_session (srv_sessions s) cid c"
proof -
  obtain con where con: "srv_objects s c = Some con"
    using assms(3) by blast
  have owner: "con_client_id con = Some j" if "session_conn (srv_sessions s) j = Some c" for j
    using assms(1) that con by (auto simp: server_ok_def owners_ok_def)
  have "j = cid" if "session_conn (srv_sessions s) j = Some c" for j
    using owner [OF that] owner [OF assms(2)] by simp
  then show ?thesis
    using assms(2) unfolding sole_session_def session_conn_def by blast
qed

lemma received_callback:
  assumes "server_ok cfg s" "cfg_read_buffer_size cfg \<le> 268435455" "enabled (Received c chunk) s"
    and "srv_objects s c = Some con" "completed_frame con chunk = Some (buf, f)" "decode_packet buf f = Inr p"
  shows "server_handle cfg inline (Received c chunk) s =
    rbind (process_decoded_packet (surroundings_of cfg inline c s) c p
        (after_frame (cfg_read_buffer_size cfg) buf chunk con) (srv_sessions s)) (\<lambda>(con', sm', out).
    perform inline out (put_connection c con' (s\<lparr>srv_sessions := sm'\<rparr>)))"
proof -
  have pre: "callback_pre (surroundings_of cfg inline c s) c con (srv_sessions s)"
    by (rule received.run_callback_pre [OF assms(2,1,4)])
  have "length chunk \<le> bytes_wanted con"
    using assms(3,4) by simp
  from bytes_received_packet [OF pre this assms(5,6)] show ?thesis
    using assms(4) by (simp add: run_callback_def surroundings_of_def)
qed

lemma process_publish:
  assumes "header_type p = PUBLISH" "con_client_id c = Some cid"
  shows "process_decoded_packet env self (Publish p) c sm =
    rbind (sm_client_published (env_alive env) cid p sm) (\<lambda>(sm', out). Inr (read_frame c, sm', out))"
  using assms by (simp add: process_decoded_packet_def packet_type_def dispatch_to_def
      handle_packet_received_def)

lemma client_publish_effects:
  assumes "sm_ok sm" "sm_sessions sm cid = Some sess" "session_rx sess (packet_identifier p) = None" "forwardable p"
    and "sm_client_published alive cid p sm = Inr (sm', out)"
    and "sole_session sm cid2 c2" "alive c2" "cid2 \<noteq> cid" "QOS_RESERVED \<notin> subscribed_qos sm cid2 (topic p)"
  shows "(c2, Stop) \<notin> set out \<and> (\<exists>ps. sent_to c2 out = map Publish ps \<and>
    (if subscribed_qos sm cid2 (topic p) = {} then ps = []
     else \<exists>o1. ps = [o1] \<and> publish_qos o1 = Max (subscribed_qos sm cid2 (topic p)) \<and> topic o1 = topic p \<and>
       application_message o1 = application_message p \<and> \<not> publish_retain o1))"
proof -
  obtain acts rx' p0 sm2 p' out' where out: "out = to_conn (session_connection sess) acts @ out'"
    and publ: "sm_publish alive p0 (put_session cid (sess\<lparr>session_rx := rx'\<rparr>) sm) = Inr (sm2, p', out')"
    and acts: "\<forall>a \<in> set acts. a \<noteq> Stop"
    and p0: "forwardable p0" "topic p0 = topic p" "application_message p0 = application_message p" "\<not> publish_retain p0"
    and rx: "rx_client_sent_publish (alive (session_connection sess)) p0 (session_rx sess) = Inr (rx', acts, True)"
    using sm_client_published_publishes [OF assms(5,2,3,4)] by blast
  let ?sm1 = "put_session cid (sess\<lparr>session_rx := rx'\<rparr>) sm"
  have sm1: "sm_ok ?sm1"
    using rx_client_sent_publish_ok [of "session_rx sess" "alive (session_connection sess)" p0] rx assms(1)
      sm_ok_session [OF assms(1,2)]
    by (auto intro!: sm_ok_put_session session_ok_update simp: session_ok_def)
  have other: "session_connection sess \<noteq> c2"
    using assms(2,6,8) by (auto simp: sole_session_def)
  have subs: "subscribed_qos ?sm1 cid2 (topic p0) = subscribed_qos sm cid2 (topic p)"
    using p0(2) by (simp add: subscribed_qos_def)
  have "sole_session ?sm1 cid2 c2"
    using assms(6,8) other by (auto simp: sole_session_def)
  from sm_publish_delivers [OF sm1 p0(1) publ this assms(7)]
  have pubs: "if subscribed_qos sm cid2 (topic p) = {} then publishes_to c2 out' = []
    else \<exists>o1. publishes_to c2 out' = [o1] \<and> copy_for (Max (subscribed_qos sm cid2 (topic p))) p0 o1"
    using assms(9) unfolding subs by blast
  have only: "publications_only out'"
    by (rule sm_publish_publications [OF publ sm1 p0(1)])
  then have "sent_to c2 out = map Publish (publishes_to c2 out')"
    using other out by (simp add: sent_to_publications)
  moreover have "(c2, Stop) \<notin> set out"
    using only acts by (auto simp: out publications_only_def to_conn_def)
  moreover have "if subscribed_qos sm cid2 (topic p) = {} then publishes_to c2 out' = []
    else \<exists>o1. publishes_to c2 out' = [o1] \<and> publish_qos o1 = Max (subscribed_qos sm cid2 (topic p)) \<and>
      topic o1 = topic p \<and> application_message o1 = application_message p \<and> \<not> publish_retain o1"
    using pubs p0 by (auto simp: copy_for_def same_publication_def split: if_splits)
  ultimately show ?thesis
    by blast
qed

lemma published_bytes_delivered:
  assumes "server_ok cfg s" "cfg_read_buffer_size cfg \<le> 268435455" "enabled (Received c chunk) s"
    and "srv_objects s c = Some con" "con_client_id con = Some cid"
    and "sm_sessions (srv_sessions s) cid = Some sess" "session_rx sess (packet_identifier p) = None"
    and "completed_frame con chunk = Some (buf, f)" "decode_packet buf f = Inr (Publish p)"
    and "server_handle cfg inline (Received c chunk) s = Inr (s', written)"
    and "session_conn (srv_sessions s) cid2 = Some c2" "cid2 \<noteq> cid" "open_in s c2"
    and "QOS_RESERVED \<notin> subscribed_qos (srv_sessions s) cid2 (topic p)"
  shows "if subscribed_qos (srv_sessions s) cid2 (topic p) = {} then bytes_to c2 written = []
    else \<exists>o1 bytes2. bytes_to c2 written = [bytes2] \<and> encodes (Publish o1) bytes2 \<and>
      publish_qos o1 = Max (subscribed_qos (srv_sessions s) cid2 (topic p)) \<and> topic o1 = topic p \<and>
      application_message o1 = application_message p \<and> \<not> publish_retain o1"
proof -
  let ?env = "surroundings_of cfg inline c s" and ?sm = "srv_sessions s"
  let ?con = "after_frame (cfg_read_buffer_size cfg) buf chunk con"
  have wanted: "length chunk \<le> bytes_wanted con"
    using assms(3,4) by simp
  have pre: "callback_pre ?env c con ?sm"
    by (rule received.run_callback_pre [OF assms(2,1,4)])
  have f: "forwardable p"
    using decoded_forwardable [OF assms(9) _ assms(2)] completed_frame_ok [OF pre wanted assms(8)]
    by (simp add: surroundings_of_def)
  then have ty: "header_type p = PUBLISH"
    by (auto simp: forwardable_def publish_wf_def)
  obtain sm' out where pub: "sm_client_published (env_alive ?env) cid p ?sm = Inr (sm', out)"
    and perf: "perform inline out (put_connection c (read_frame ?con) (s\<lparr>srv_sessions := sm'\<rparr>)) = Inr (s', written)"
    using assms(10) unfolding received_callback [OF assms(1-4,8,9)]
    by (auto simp: process_publish [OF ty] assms(5) result_simps)
  obtain con2 where con2: "srv_objects s c2 = Some con2" "con_open con2"
    using assms(13) by (auto simp: open_in_def)
  have sm: "sm_ok ?sm" "sole_session ?sm cid2 c2" "env_alive ?env c2"
    using assms(1) server_ok_sole_session [OF assms(1,11)] con2 by (simp_all add: server_ok_def surroundings_of_def)
  from client_publish_effects [OF sm(1) assms(6,7) f pub sm(2,3) assms(12,14)]
  obtain ps where ps: "(c2, Stop) \<notin> set out" "sent_to c2 out = map Publish ps"
    "if subscribed_qos ?sm cid2 (topic p) = {} then ps = []
     else \<exists>o1. ps = [o1] \<and> publish_qos o1 = Max (subscribed_qos ?sm cid2 (topic p)) \<and> topic o1 = topic p \<and>
       application_message o1 = application_message p \<and> \<not> publish_retain o1"
    by blast
  have "c2 \<noteq> c"
    using assms(1,4,5,11,12) con2 by (auto simp: server_ok_def owners_ok_def)
  then have "open_in (put_connection c (read_frame ?con) (s\<lparr>srv_sessions := sm'\<rparr>)) c2"
    using assms(13) by (simp add: open_in_def put_connection_def)
  then have "list_all2 encodes (map Publish ps) (bytes_to c2 written)"
    using perform_bytes [OF perf, of c2] ps(1) unfolding ps(2) by blast
  then show ?thesis
    using ps(3) by (auto simp: list_all2_Cons1 split: if_splits)
qed

section \<open>What a callback leaves of its connection\<close>

lemma stop_stop [simp]: "stop_connection inline (stop_connection inline con) = stop_connection inline con"
  by (simp add: stop_connection_def do_stop_def Let_def)

lemma perform_object:
  assumes "perform inline out s = Inr (s', written)" "srv_objects s c = Some con"
  shows "\<exists>con'. srv_objects s' c = Some con' \<and> (con' = con \<or> con' = stop_connection inline con)"
  using assms
proof (induction inline out s arbitrary: written con rule: perform.induct)
  case (2 inline d p out s)
  then show ?case
    by (cases "srv_objects s d") (auto simp: result_simps)
next
  case (3 inline d out s)
  show ?case
  proof (cases "srv_objects s d")
    case None
    then show ?thesis
      using 3 by simp
  next
    case (Some con2)
    let ?s = "put_connection d (stop_connection inline con2) s"
    have "perform inline out ?s = Inr (s', written)"
      using "3.prems"(1) Some by simp
    moreover have "srv_objects ?s c = Some (if c = d then stop_connection inline con2 else con)"
      using "3.prems"(2) by (simp add: put_connection_def)
    ultimately show ?thesis
      using "3.IH"(2) [OF Some] Some "3.prems"(2) by (fastforce split: if_splits)
  qed
qed auto

lemma perform_sessions: "perform inline out s = Inr (s', written) \<Longrightarrow> srv_sessions s' = srv_sessions s"
proof (induction inline out s arbitrary: written rule: perform.induct)
  case (2 inline d p out s)
  then show ?case
    by (cases "srv_objects s d") (auto simp: result_simps)
next
  case (3 inline d out s)
  then show ?case
    by (cases "srv_objects s d") (auto simp: put_connection_def)
qed auto

lemma callback_pre_of:
  "server_ok cfg s \<Longrightarrow> cfg_read_buffer_size cfg \<le> 268435455 \<Longrightarrow> srv_objects s c = Some con \<Longrightarrow>
   callback_pre (surroundings_of cfg inline c s) c con (srv_sessions s)"
  using server_ok_object [of cfg s c con]
  by (simp add: callback_pre_def surroundings_of_def server_ok_def)

section \<open>Input that ends the process\<close>

text \<open>The first four length bytes, unrolled.\<close>

lemma remaining_length_loop_continued:
  assumes "i < n" "i \<le> 4" "n \<le> length buf" "buf ! i AND 0x80 \<noteq> 0"
  shows "\<exists>acc'. remaining_length_loop buf n i acc = remaining_length_loop buf n (i + 1) acc'"
  using assms by (subst remaining_length_loop.simps) (auto simp: deref_def Let_def)

lemma remaining_length_loop_throws:
  assumes "n \<le> length buf" "remaining_length_loop buf n i acc = Inl e" "i \<le> 5"
  shows "6 \<le> n \<and> (\<forall>j \<in> {i..4}. buf ! j AND 0x80 \<noteq> 0)"
  using assms
proof (induction buf n i acc rule: remaining_length_loop.induct)
  case (1 buf n i acc)
  show ?case
  proof (cases "i \<le> 4")
    case False
    then show ?thesis
      using "1.prems" by (subst (asm) remaining_length_loop.simps) (auto split: if_splits)
  next
    case True
    have lt: "i < n"
      using "1.prems"(2) by (subst (asm) remaining_length_loop.simps) (auto split: if_splits)
    then have b: "deref buf i = Inr (buf ! i)"
      using "1.prems"(1) by (simp add: deref_def)
    have more: "buf ! i AND 0x80 \<noteq> 0"
      "remaining_length_loop buf n (i + 1) (acc + unat (buf ! i AND NOT 0x80) * 128 ^ (i - 1)) = Inl e"
      using "1.prems"(2) lt True b by (subst (asm) remaining_length_loop.simps, auto simp: Let_def split: if_splits)+
    have "6 \<le> n \<and> (\<forall>j \<in> {i + 1..4}. buf ! j AND 0x80 \<noteq> 0)"
      using "1.IH" [OF lt _ b refl refl more(1) "1.prems"(1) more(2)] True by simp
    moreover have "{i..4} = insert i {i + 1..4}"
      using True by auto
    ultimately show ?thesis
      using more(1) by simp
  qed
qed

lemma remaining_length_loop_too_long:
  assumes "n \<le> length buf" "6 \<le> n" "\<And>j. j \<in> {1..4} \<Longrightarrow> buf ! j AND 0x80 \<noteq> 0"
  shows "remaining_length_loop buf n 1 0 = Inl (Malformed Remaining_length_too_large)"
proof -
  have step: "\<exists>acc'. remaining_length_loop buf n i acc = remaining_length_loop buf n (i + 1) acc'"
    if "i \<in> {1..4}" for i acc
    using that assms by (intro remaining_length_loop_continued) auto
  obtain a1 where a1: "remaining_length_loop buf n 1 0 = remaining_length_loop buf n 2 a1"
    using step [of 1 0] by (auto simp: numeral_2_eq_2)
  obtain a2 where a2: "remaining_length_loop buf n 2 a1 = remaining_length_loop buf n 3 a2"
    using step [of 2 a1] by auto
  obtain a3 where a3: "remaining_length_loop buf n 3 a2 = remaining_length_loop buf n 4 a3"
    using step [of 3 a2] by auto
  obtain a4 where a4: "remaining_length_loop buf n 4 a3 = remaining_length_loop buf n 5 a4"
    using step [of 4 a3] by auto
  show ?thesis
    unfolding a1 a2 a3 a4 using assms(2) by (subst remaining_length_loop.simps) simp
qed

text \<open>What has been received so far is in the read buffer.\<close>

lemma store_chunk_take:
  assumes "con_transferred c + length chunk \<le> length (reader_buffer (con_reader c))"
  shows "take (con_transferred c + length chunk)
      (reader_buffer (store_chunk (con_transferred c) chunk (con_reader c))) = received_so_far c chunk"
    and "length (received_so_far c chunk) = con_transferred c + length chunk"
  using assms by (simp_all add: store_chunk_def received_so_far_def)

lemma received_nth:
  assumes "con_transferred c + length chunk \<le> length (reader_buffer (con_reader c))"
    and "j < con_transferred c + length chunk"
  shows "reader_buffer (store_chunk (con_transferred c) chunk (con_reader c)) ! j = received_so_far c chunk ! j"
  using store_chunk_take(1) [OF assms(1)] assms(2) by (metis nth_take)

definition length_field_too_long :: "byte list \<Rightarrow> bool" where
  "length_field_too_long bytes \<longleftrightarrow> 6 \<le> length bytes \<and> (\<forall>j \<in> {1..4}. bytes ! j AND 0x80 \<noteq> 0)"

lemma frame_reader_throws_iff:
  assumes "con_transferred c + length chunk \<le> length (reader_buffer (con_reader c))"
  shows "frame_reader_call False (con_transferred c + length chunk)
      (store_chunk (con_transferred c) chunk (con_reader c)) = Inl e \<longleftrightarrow>
    e = Malformed Remaining_length_too_large \<and> length_field_too_long (received_so_far c chunk)"
proof -
  let ?n = "con_transferred c + length chunk"
  let ?r = "store_chunk (con_transferred c) chunk (con_reader c)"
  have le: "?n \<le> length (reader_buffer ?r)"
    using assms by (simp add: length_store_chunk)
  have bytes: "reader_buffer ?r ! j = received_so_far c chunk ! j" if "6 \<le> ?n" "j \<in> {1..4}" for j
    using that by (intro received_nth [OF assms]) auto
  show ?thesis
  proof (cases "length_field_too_long (received_so_far c chunk)")
    case True
    then have "6 \<le> ?n" "\<And>j. j \<in> {1..4} \<Longrightarrow> reader_buffer ?r ! j AND 0x80 \<noteq> 0"
      using bytes store_chunk_take(2) [OF assms] by (auto simp: length_field_too_long_def)
    then have "remaining_length_loop (reader_buffer ?r) ?n 1 0 = Inl (Malformed Remaining_length_too_large)"
      by (rule remaining_length_loop_too_long [OF le])
    then show ?thesis
      using le True \<open>6 \<le> ?n\<close> by (auto simp: frame_reader_call_def decode_remaining_length_def)
  next
    case False
    have "e' = Malformed Remaining_length_too_large" if "frame_reader_call False ?n ?r = Inl e'" for e'
      using frame_reader_call_fails [OF le] that by (rule fails_onlyD)
    moreover have "frame_reader_call False ?n ?r \<noteq> Inl (Malformed Remaining_length_too_large)"
    proof
      assume "frame_reader_call False ?n ?r = Inl (Malformed Remaining_length_too_large)"
      then have "decode_remaining_length ?r ?n = Inl (Malformed Remaining_length_too_large)"
        by (cases rule: decode_remaining_length_cases [OF le])
          (auto simp: frame_reader_call_def Let_def result_simps split: if_splits)
      then have "6 \<le> ?n \<and> (\<forall>j \<in> {1..4}. reader_buffer ?r ! j AND 0x80 \<noteq> 0)"
        using remaining_length_loop_throws [OF le, of 1 0]
        by (auto simp: decode_remaining_length_def split: if_splits)
      then show False
        using False bytes store_chunk_take(2) [OF assms] by (auto simp: length_field_too_long_def)
    qed
    ultimately show ?thesis
      using False by auto
  qed
qed

section \<open>CONNECT at the server\<close>

lemma encodes_connack: "encodes (Connack (new_connack False rc)) [0x20, 2, 0, connack_second_byte rc]"
proof -
  have s: "sendable (Connack (new_connack False rc))"
    by (rule sendable_new)
  have loop: "encode_remaining_length_loop 2 = [2]"
    by (subst encode_remaining_length_loop.simps) simp
  have "packet_type_and_flags (Connack (new_connack False rc)) = 0x20"
    "packet_remaining_length (Connack (new_connack False rc)) = 2"
    by (simp_all add: packet_type_and_flags_def packet_remaining_length_def new_packet_defs type_into_def)
  moreover have "packet_type (Connack (new_connack False rc)) = CONNACK"
    using well_typed_def [of "Connack (new_connack False rc)"] by simp
  then have "encode_body (Connack (new_connack False rc)) = Inr [0, connack_second_byte rc]"
    using s by (simp add: encode_body_def encode_connack_body_def) (simp add: new_packet_defs)
  ultimately show ?thesis
    using encode_packet_exact [OF s] loop by (auto simp: encodes_def)
qed

lemma perform_connack:
  assumes "srv_objects s c = Some con" "con_open con"
  shows "perform inline [(c, Send (Connack (new_connack False rc)))] s =
    Inr (s, [(c, [0x20, 2, 0, connack_second_byte rc])])"
  using assms encodes_connack [of rc] by (simp add: write_packet_def encodes_def)

section \<open>The acceptor\<close>

text \<open>Nothing but accepting a connection and closing all of them concerns the acceptor and the flag.\<close>

definition same_acceptor :: "server \<Rightarrow> server \<Rightarrow> bool" where
  "same_acceptor s s' \<longleftrightarrow> srv_acceptor_open s' = srv_acceptor_open s \<and> srv_accepting s' = srv_accepting s \<and>
     srv_connections_closed s' = srv_connections_closed s"

lemma same_acceptor_updates [simp]:
  "same_acceptor s s" "same_acceptor (put_connection c con s) s' = same_acceptor s s'"
  "same_acceptor (s\<lparr>srv_sessions := sm\<rparr>) s' = same_acceptor s s'"
  by (simp_all add: same_acceptor_def put_connection_def)

lemma perform_acceptor: "perform inline out s = Inr (s', written) \<Longrightarrow> same_acceptor s s'"
proof (induction inline out s arbitrary: written rule: perform.induct)
  case (2 inline d p out s)
  then show ?case
    by (cases "srv_objects s d") (auto simp: result_simps)
next
  case (3 inline d out s)
  then show ?case
    by (cases "srv_objects s d") auto
qed auto

lemma run_callback_acceptor: "run_callback cfg inline c callback s = Inr (s', written) \<Longrightarrow> same_acceptor s s'"
  by (auto simp: run_callback_def result_simps split: option.splits dest: perform_acceptor)

lemma run_session_timer_acceptor: "run_session_timer inline timer s = Inr (s', written) \<Longrightarrow> same_acceptor s s'"
  by (auto simp: run_session_timer_def result_simps dest: perform_acceptor)

lemma server_accepts:
  assumes "server_reaches cfg written s"
  shows "srv_acceptor_open s \<and> srv_accepting s"
  using assms unfolding server_reaches_def
proof induction
  case (server_continues written s ev inline s' written')
  then show ?case
    by (cases ev) (auto simp: cm_start_def cm_stop_def peer_reset_def do_close_connections_def cm_stop_all_def
        put_connection_def same_acceptor_def result_simps elim!: on_accepted_cases
        dest!: run_callback_acceptor run_session_timer_acceptor split: option.splits)
qed (simp add: server_run_def do_accept_def)

lemma connections_closed_stays:
  assumes "server_handle cfg inline ev s = Inr (s', written)" "srv_connections_closed s"
  shows "srv_connections_closed s'"
  using assms by (cases ev) (auto simp: cm_start_def cm_stop_def peer_reset_def do_close_connections_def
      cm_stop_all_def put_connection_def same_acceptor_def result_simps elim!: on_accepted_cases
      dest!: run_callback_acceptor run_session_timer_acceptor split: option.splits)

end
