(* ===== verification/Server_Properties.thy ===== *)
theory Server_Properties
  imports Server_Delivery "HOL-Library.Code_Target_Nat"
begin

text \<open>
  The properties of the whole server: its invariant, what can end its process, and what clients
  observe, from bytes received to bytes written. The witnesses are runs of the server, evaluated in
  the kernel from its start: connections accepted, bytes received chunk by chunk, bytes written.
\<close>

section \<open>Sample runs\<close>

definition sample_config :: config where
  "sample_config = \<lparr>cfg_read_buffer_size = 32, cfg_max_retries = 3,
     cfg_authenticate = (\<lambda>ip user pwd. user \<noteq> Some ''eve'')\<rparr>"

definition sample_socket :: tcp_socket where
  "sample_socket = \<lparr>sock_open = True,
     sock_local = Some \<lparr>ep_address = ''10.0.0.1'', ep_port = 1883\<rparr>,
     sock_remote = Some \<lparr>ep_address = ''10.0.0.2'', ep_port = 40000\<rparr>\<rparr>"

lemma sample_socket_known: "peer_known sample_socket"
  by (simp add: sample_socket_def peer_known_def)

abbreviation client_arrives :: server_event where
  "client_arrives \<equiv> Accepted (Socket_accepted sample_socket)"

text \<open>A packet in the three pieces the frame reader asks for.\<close>

definition packet_arrives :: "conn \<Rightarrow> byte \<Rightarrow> byte list \<Rightarrow> (bool \<times> server_event) list" where
  "packet_arrives c tf body =
     [(False, Received c [tf]), (False, Received c [word_of_nat (length body)]), (False, Received c body)]"

definition connect_body :: "byte \<Rightarrow> byte list" where
  "connect_body x = [0, 4, 77, 81, 84, 84, 4, 2, 0, 0, 0, 1, x]"

text \<open>Clients \<open>a\<close> and \<open>b\<close> connect, \<open>b\<close> subscribes to \<open>t\<close> with quality of service 1.\<close>

definition sample_events :: "(bool \<times> server_event) list" where
  "sample_events =
     [(False, client_arrives), (False, client_arrives)] @
     packet_arrives 0 0x10 (connect_body 97) @ packet_arrives 1 0x10 (connect_body 98) @
     packet_arrives 1 0x82 [0, 7, 0, 1, 116, 1]"

definition state_after :: "(bool \<times> server_event) list \<Rightarrow> server" where
  "state_after evs =
     (case play sample_config evs (server_run new_server) of Some (Inr (s, w)) \<Rightarrow> s | _ \<Rightarrow> new_server)"

definition writes_of :: "(bool \<times> server_event) list \<Rightarrow> writes option" where
  "writes_of evs =
     (case play sample_config evs (server_run new_server) of Some (Inr (s, w)) \<Rightarrow> Some w | _ \<Rightarrow> None)"

lemma state_after_reached: "writes_of evs = Some w \<Longrightarrow> server_reaches sample_config w (state_after evs)"
  by (auto simp: writes_of_def state_after_def split: option.splits sum.splits intro: play_reaches)

text \<open>The server answers CONNECT with CONNACK and SUBSCRIBE with SUBACK.\<close>

lemma sample_writes:
  "writes_of sample_events = Some [(0, [0x20, 2, 0, 0]), (1, [0x20, 2, 0, 0]), (1, [0x90, 3, 0, 7, 1])]"
  by code_simp

text \<open>Everything a witness needs of a state, evaluated together with the run that reaches it.\<close>

definition observe :: "(bool \<times> server_event) list \<Rightarrow> (server \<Rightarrow> 'a) \<Rightarrow> (writes \<times> 'a) option" where
  "observe evs look =
     (case play sample_config evs (server_run new_server) of
        Some (Inr (s, w)) \<Rightarrow> Some (w, look s) | _ \<Rightarrow> None)"

lemma observeD:
  "observe evs look = Some (w, x) \<Longrightarrow> writes_of evs = Some w \<and> look (state_after evs) = x"
  by (auto simp: observe_def writes_of_def state_after_def split: option.splits sum.splits)

lemma handled_writes: "map_sum id snd r = Inr w \<Longrightarrow> \<exists>s'. r = Inr (s', w)"
  by (cases r) auto

lemma sample_buffer [simp]: "cfg_read_buffer_size sample_config \<le> 268435455"
  by (simp add: sample_config_def)

section \<open>The invariant\<close>

text \<open>
  C2. The invariant of the server. Whatever connections do and in whatever order asio completes
  operations, stops and timers: a session belongs to the connection that authenticated with its
  identifier (so no two sessions share a connection), the connection manager keeps existing connections
  only, every read buffer has its configured size between callbacks, and all bytes ever written to a
  socket are encodings of packets, each encoded without an exception, an assertion or a write outside
  its buffer.
\<close>

theorem server_invariant:
  assumes "cfg_read_buffer_size cfg \<le> 268435455" "server_reaches cfg written s"
  shows "(\<forall>cid c con. session_conn (srv_sessions s) cid = Some c \<and> srv_objects s c = Some con \<longrightarrow>
            con_client_id con = Some cid) \<and>
    (\<forall>c \<in> srv_connections s. srv_objects s c \<noteq> None) \<and>
    (\<forall>c con. srv_objects s c = Some con \<longrightarrow>
       length (reader_buffer (con_reader con)) = cfg_read_buffer_size cfg) \<and>
    (\<forall>(c, bytes) \<in> set written. \<exists>p. sendable p \<and> encodes p bytes)"
proof -
  have "server_ok cfg s" "encodings written"
    using server_reaches_ok [OF assms] by simp_all
  then show ?thesis
    by (auto simp: server_ok_def owners_ok_def objects_ok_def connection_ok_def encodings_def encodes_def)
qed

theorem server_invariant_witness:
  "\<exists>p. sendable p \<and> encodes p [0x90, 3, 0, 7, 1]"
  using server_invariant [OF sample_buffer state_after_reached [OF sample_writes]] by (simp add: sample_config_def)

section \<open>What ends the process\<close>

text \<open>
  C6. The only errors that leave the event loop, and so end the process: a failed assertion; a
  connection whose peer has reset it before its acceptance is handled; or, when bytes are received, a length field of more than four bytes, a frame longer than the read buffer
  (which is then reallocated under the read in progress), a packet type only servers send, a CONNECT
  whose protocol name ends the buffer, any packet but CONNECT and PINGREQ before the client has
  authenticated, and a CONNECT on a socket that has been closed or reset. No other event, in no reachable state, does anything undefined or throws.
\<close>

theorem what_ends_the_process:
  assumes "cfg_read_buffer_size cfg \<le> 268435455" "server_reaches cfg written s" "enabled ev s"
    and "server_handle cfg inline ev s = Inl e" "e \<noteq> Assertion_failed"
  shows "e = System_error \<and> (\<exists>socket. ev = Accepted (Socket_accepted socket) \<and> sock_remote socket = None) \<or>
    (\<exists>c chunk con. ev = Received c chunk \<and> srv_objects s c = Some con \<and>
    (let answer = frame_reader_call False (con_transferred con + length chunk)
                    (store_chunk (con_transferred con) chunk (con_reader con))
     in e = Malformed Remaining_length_too_large \<and> answer = Inl e \<or>
        (\<exists>k r'. answer = Inr (k, r') \<and>
          (e = Undefined_behaviour \<and> length (reader_buffer r') \<noteq> cfg_read_buffer_size cfg \<or>
           k = 0 \<and> (\<exists>f. reader_frame r' = Some f \<and>
             (e = Invalid_argument \<and> \<not> client_sent (frame_type f) \<or>
              e = System_error \<and> frame_type f = CONNECT \<and> con_client_id con = None \<and>
                \<not> peer_known (con_socket con) \<or>
              e = Undefined_behaviour \<and>
                (frame_type f = CONNECT \<and> cfg_read_buffer_size cfg < frame_end f + 2 \<or>
                 con_client_id con = None \<and> needs_client_id (frame_type f))))))))"
proof -
  have ok: "server_ok cfg s"
    using server_reaches_ok [OF assms(1,2)] by simp
  consider "e = System_error \<and> (\<exists>socket. ev = Accepted (Socket_accepted socket) \<and> sock_remote socket = None)"
    | c chunk con where "ev = Received c chunk" "srv_objects s c = Some con"
        "bytes_failure chunk (surroundings_of cfg inline c s) con e"
    using fails_onlyD [OF server_handle_fails [OF assms(1) ok assms(3)] assms(4)] assms(5)
    by (auto simp: step_failure_def)
  then show ?thesis
  proof cases
    case 1
    then show ?thesis
      by blast
  next
    case (2 c chunk con)
    note ev = 2(1,2) and fail = 2(3)
    let ?r = "store_chunk (con_transferred con) chunk (con_reader con)"
    have "connection_ok (cfg_read_buffer_size cfg) con" "length chunk \<le> bytes_wanted con"
      using server_ok_object [OF ok ev(2)] assms(3) ev by simp_all
    then have "con_transferred con + length chunk \<le> length (reader_buffer ?r)"
      using bytes_wanted_le [of "cfg_read_buffer_size cfg" con chunk]
      by (simp add: connection_ok_def length_store_chunk)
    from frame_reader_call_fails [OF this] show ?thesis
      using fail ev assms(5)
      by (auto simp: bytes_failure_def frame_failure_def peer_lost_def fails_only_def surroundings_of_def
          split: sum.splits)
  qed
qed

text \<open>A client that sends DISCONNECT as its first packet ends the process.\<close>

definition one_byte_received :: "(bool \<times> server_event) list" where
  "one_byte_received = [(False, client_arrives), (False, Received 0 [0xE0])]"

lemma one_byte_received_observed:
  "observe one_byte_received (\<lambda>s. (
     enabled (Received 0 [0]) s,
     map_sum id snd (server_handle sample_config False (Received 0 [0]) s)))
   = Some ([],
     True,
     Inl Undefined_behaviour)"
  by code_simp

lemma one_byte_received_eval:
  "writes_of one_byte_received = Some []"
  "enabled (Received 0 [0]) (state_after one_byte_received)"
  "map_sum id snd (server_handle sample_config False (Received 0 [0]) (state_after one_byte_received))
     = Inl Undefined_behaviour"
  using observeD [OF one_byte_received_observed] by simp_all

theorem what_ends_the_process_witness:
  "\<exists>con. srv_objects (state_after one_byte_received) 0 = Some con \<and>
     (\<exists>k r' f. frame_reader_call False (con_transferred con + 1)
        (store_chunk (con_transferred con) [0] (con_reader con)) = Inr (k, r') \<and>
      (length (reader_buffer r') \<noteq> 32 \<or> reader_frame r' = Some f))"
proof -
  have "server_handle sample_config False (Received 0 [0]) (state_after one_byte_received) = Inl Undefined_behaviour"
    using one_byte_received_eval(3)
    by (cases "server_handle sample_config False (Received 0 [0]) (state_after one_byte_received)") simp_all
  from what_ends_the_process [OF sample_buffer state_after_reached [OF one_byte_received_eval(1)]
      one_byte_received_eval(2) this]
  show ?thesis
    by (auto simp: sample_config_def)
qed

lemma connect_received:
  assumes "server_ok cfg s" "cfg_read_buffer_size cfg \<le> 268435455" "enabled (Received c chunk) s"
    and "srv_objects s c = Some con" "completed_frame con chunk = Some (buf, f)" "decode_packet buf f = Inr (Connect k)"
  shows "server_handle cfg inline (Received c chunk) s =
    rbind (process_connect_packet (surroundings_of cfg inline c s) c k
        (after_frame (cfg_read_buffer_size cfg) buf chunk con) (srv_sessions s)) (\<lambda>(con', sm', out).
    perform inline out (put_connection c (read_frame con') (s\<lparr>srv_sessions := sm'\<rparr>)))"
proof -
  have "packet_type (Connect k) = CONNECT"
    using decode_packet_well_typed [OF assms(6)] by (simp add: well_typed_def)
  then show ?thesis
    using received_callback [OF assms, of inline]
    by (simp add: process_decoded_packet_def rbind_assoc case_prod_unfold)
qed

lemma received_position:
  assumes "server_ok cfg s" "enabled (Received c chunk) s" "srv_objects s c = Some con"
  shows "con_transferred con + length chunk \<le> length (reader_buffer (con_reader con))"
    and "length (reader_buffer (con_reader con)) = cfg_read_buffer_size cfg"
proof -
  have con: "connection_ok (cfg_read_buffer_size cfg) con" and wanted: "length chunk \<le> bytes_wanted con"
    using server_ok_object [OF assms(1,3)] assms(2,3) by simp_all
  show "length (reader_buffer (con_reader con)) = cfg_read_buffer_size cfg"
    using con by (simp add: connection_ok_def)
  then show "con_transferred con + length chunk \<le> length (reader_buffer (con_reader con))"
    using bytes_wanted_le [OF con wanted] by simp
qed

lemma received_fails:
  "bytes_received (surroundings_of cfg inline c s) c chunk con (srv_sessions s) = Inl e \<Longrightarrow>
   srv_objects s c = Some con \<Longrightarrow> server_handle cfg inline (Received c chunk) s = Inl e"
  by (simp add: run_callback_def)

lemma length_field_ends_the_process:
  assumes "server_ok cfg s" "enabled (Received c chunk) s" "srv_objects s c = Some con"
    and "length_field_too_long (received_so_far con chunk)"
  shows "server_handle cfg inline (Received c chunk) s = Inl (Malformed Remaining_length_too_large)"
proof -
  have "frame_reader_call False (con_transferred con + length chunk)
      (store_chunk (con_transferred con) chunk (con_reader con)) = Inl (Malformed Remaining_length_too_large)"
    using assms(4) frame_reader_throws_iff [OF received_position(1) [OF assms(1-3)]] by blast
  then show ?thesis
    by (intro received_fails [OF _ assms(3)]) (simp add: bytes_received_def Let_def)
qed

lemma long_frame_ends_the_process:
  assumes "server_ok cfg s" "enabled (Received c chunk) s" "srv_objects s c = Some con"
    and "decode_remaining_length (store_chunk (con_transferred con) chunk (con_reader con))
      (con_transferred con + length chunk) = Inr (Some (rlen, hlen))" "cfg_read_buffer_size cfg < hlen + rlen"
  shows "server_handle cfg inline (Received c chunk) s = Inl Undefined_behaviour"
  using assms(4,5) received_position [OF assms(1-3)] length_store_chunk [OF received_position(1) [OF assms(1-3)]]
  by (intro received_fails [OF _ assms(3)])
    (auto simp: bytes_received_def frame_reader_call_def Let_def size_minus_def)

lemma unauthenticated_packet_ends_the_process:
  assumes "server_ok cfg s" "cfg_read_buffer_size cfg \<le> 268435455" "enabled (Received c chunk) s"
    and "srv_objects s c = Some con" "con_client_id con = None" "completed_frame con chunk = Some (buf, f)"
    and "decode_packet buf f = Inr p" "needs_client_id (packet_type p)" "client_sent (packet_type p)"
  shows "server_handle cfg inline (Received c chunk) s = Inl Undefined_behaviour"
proof -
  have "process_decoded_packet env c p (after_frame n buf chunk con) sm = Inl Undefined_behaviour" for env n sm
    using assms(5,8,9) by (auto simp: process_decoded_packet_def Let_def needs_client_id_def client_sent_def
        dispatch_to_None dispatch_disconnect_packet_eq(2))
  then show ?thesis
    using received_callback [OF assms(1-4,6,7), of inline] by simp
qed

lemma reset_connection_ends_the_process:
  assumes "server_ok cfg s" "cfg_read_buffer_size cfg \<le> 268435455" "enabled (Received c chunk) s"
    and "srv_objects s c = Some con" "con_client_id con = None" "completed_frame con chunk = Some (buf, f)"
    and "decode_packet buf f = Inr (Connect k)" "sock_remote (con_socket con) = None"
  shows "server_handle cfg inline (Received c chunk) s = Inl System_error"
  using assms(5,8) connect_received [OF assms(1-4,6,7), of inline]
  by (simp add: process_connect_packet_eq remote_endpoint_cases(2) peer_known_def)

lemma reset_before_accept_ends_the_process:
  assumes "server_reaches cfg written s" "sock_open socket" "sock_remote socket = None"
  shows "enabled (Accepted (Socket_accepted socket)) s \<and>
    server_handle cfg inline (Accepted (Socket_accepted socket)) s = Inl System_error"
  using assms(2,3) server_accepts [OF assms(1)]
  by (auto simp: on_accepted_def create_connection_def new_connection_def connection_description_def
      remote_endpoint_def Let_def)

text \<open>
  C17. What any client can do to the process, in every reachable state and without authenticating: a
  length field of more than four bytes throws in the completion condition of the read, where nobody
  catches it; a frame announced longer than the read buffer lets the condition reallocate the memory
  asio writes to; a packet other than CONNECT and PINGREQ before authentication dereferences the empty
  client identifier; a CONNECT whose client has reset the connection meanwhile throws when its address is
  asked for, and a connection that is reset before the server has handled its acceptance when it is named.
\<close>

theorem client_input_that_ends_the_process:
  assumes "cfg_read_buffer_size cfg \<le> 268435455" "server_reaches cfg written s"
    and "enabled (Received c chunk) s" "srv_objects s c = Some con"
  shows "(length_field_too_long (received_so_far con chunk) \<longrightarrow>
      server_handle cfg inline (Received c chunk) s = Inl (Malformed Remaining_length_too_large)) \<and>
    (\<forall>rlen hlen. decode_remaining_length (store_chunk (con_transferred con) chunk (con_reader con))
          (con_transferred con + length chunk) = Inr (Some (rlen, hlen)) \<and>
        cfg_read_buffer_size cfg < hlen + rlen \<longrightarrow>
      server_handle cfg inline (Received c chunk) s = Inl Undefined_behaviour) \<and>
    (\<forall>buf f p. con_client_id con = None \<and> completed_frame con chunk = Some (buf, f) \<and>
        decode_packet buf f = Inr p \<and> needs_client_id (packet_type p) \<and> client_sent (packet_type p) \<longrightarrow>
      server_handle cfg inline (Received c chunk) s = Inl Undefined_behaviour) \<and>
    (\<forall>buf f k. con_client_id con = None \<and> completed_frame con chunk = Some (buf, f) \<and>
        decode_packet buf f = Inr (Connect k) \<and> sock_remote (con_socket con) = None \<longrightarrow>
      server_handle cfg inline (Received c chunk) s = Inl System_error) \<and>
    (\<forall>socket. sock_open socket \<and> sock_remote socket = None \<longrightarrow>
      enabled (Accepted (Socket_accepted socket)) s \<and>
      server_handle cfg inline (Accepted (Socket_accepted socket)) s = Inl System_error)"
proof -
  have ok: "server_ok cfg s"
    using server_reaches_ok [OF assms(1,2)] by simp
  show ?thesis
    using length_field_ends_the_process [OF ok assms(3,4)] long_frame_ends_the_process [OF ok assms(3,4)]
      unauthenticated_packet_ends_the_process [OF ok assms(1,3,4)]
      reset_connection_ends_the_process [OF ok assms(1,3,4)] reset_before_accept_ends_the_process [OF assms(2)]
    by blast
qed

theorem client_input_that_ends_the_process_witness:
  "\<exists>con. srv_objects (state_after one_byte_received) 0 = Some con \<and>
    (\<exists>buf f. con_client_id con = None \<and> completed_frame con [0] = Some (buf, f) \<and>
      decode_packet buf f = Inr (Disconnect new_disconnect)) \<and>
    server_handle sample_config False (Received 0 [0]) (state_after one_byte_received) = Inl Undefined_behaviour"
proof -
  have eval: "map_option (\<lambda>con. (con_client_id con,
      case completed_frame con [0] of None \<Rightarrow> None | Some (buf, f) \<Rightarrow>
        Some (decode_packet buf f = Inr (Disconnect new_disconnect))))
      (srv_objects (state_after one_byte_received) 0) = Some (None, Some True)"
    by code_simp
  then obtain con buf f where con: "srv_objects (state_after one_byte_received) 0 = Some con"
    "con_client_id con = None" "completed_frame con [0] = Some (buf, f)"
    "decode_packet buf f = Inr (Disconnect new_disconnect)"
    by (auto split: option.splits)
  have "needs_client_id (packet_type (Disconnect new_disconnect)) \<and> client_sent (packet_type (Disconnect new_disconnect))"
    by code_simp
  then show ?thesis
    using client_input_that_ends_the_process [OF sample_buffer state_after_reached [OF one_byte_received_eval(1)]
        one_byte_received_eval(2) con(1), of False] con by (auto simp: sample_config_def)
qed

text \<open>
  The client resets its connection while its CONNECT is being read, or before the server accepted it. In
  the second run a timer closes the socket between the arrival of the CONNECT and its completion.
\<close>

lemma reset_peers_end_the_process:
  "map_option (map_sum id snd) (play sample_config
     ([(False, client_arrives), (False, Received 0 [0x10]), (False, Peer_reset 0), (False, Received 0 [13]),
       (False, Received 0 (connect_body 97))]) (server_run new_server)) = Some (Inl System_error)"
  "map_option (map_sum id snd) (play sample_config
     ([(False, client_arrives), (False, Received 0 [0x10]), (False, Received 0 [13]), (True, Connect_timer 0 Success),
       (False, Received 0 (connect_body 97))]) (server_run new_server)) = Some (Inl System_error)"
  "map_option (map_sum id snd) (play sample_config
     [(False, Accepted (Socket_accepted (sample_socket\<lparr>sock_remote := None\<rparr>)))] (server_run new_server)) =
     Some (Inl System_error)"
  by code_simp+

section \<open>What clients observe\<close>

lemma dispatch_connect_new_client:
  assumes "dispatch_to (surroundings_of cfg inline c s) c (Connect k) (authenticated k d con) sm = Inr (sm', out)"
    and "packet_type (Connect k) = CONNECT" "srv_objects s c \<noteq> None" "session_conn sm (client_id k) = None"
  shows "out = [] \<and> session_conn sm' = (session_conn sm)(client_id k \<mapsto> c)"
  using assms by (auto simp: dispatch_to_def handle_packet_received_def no_effects_def result_simps
      sm_client_connected_def session_store_insert_def surroundings_of_def session_conn_def
      put_session_def new_client_session_def fun_eq_iff split: option.splits)

text \<open>CONNECT is answered: credentials refused, and accepted.\<close>

lemma connect_refused:
  assumes "con_client_id con = None" "con_open con" "sock_remote (con_socket con) = Some peer"
    and "\<not> cfg_authenticate cfg (ep_address peer) (username k) (password k)"
    and "rbind (process_connect_packet (surroundings_of cfg inline c s) c k con (srv_sessions s))
      (\<lambda>(con', sm', out). perform inline out (put_connection c (read_frame con') (s\<lparr>srv_sessions := sm'\<rparr>)))
      = Inr (s', written')"
  shows "written' = [(c, [0x20, 2, 0, 4])] \<and> srv_sessions s' = srv_sessions s \<and>
    srv_objects s' c = Some (read_frame (con\<lparr>con_close_after_write := Some authentication_failed\<rparr>))"
proof -
  let ?con' = "read_frame (con\<lparr>con_close_after_write := Some authentication_failed\<rparr>)"
  let ?out = "[(c, Send (Connack (new_connack False BAD_USERNAME_OR_PASSWORD)))]"
  have "remote_endpoint (con_socket con) = Inr peer"
    using assms(2,3) by (simp add: remote_endpoint_def)
  then have "process_connect_packet (surroundings_of cfg inline c s) c k con (srv_sessions s) =
      Inr (con\<lparr>con_close_after_write := Some authentication_failed\<rparr>, srv_sessions s, ?out)"
    using assms(1,2,4) by (simp add: process_connect_packet_eq surroundings_of_def write_packet_and_close_connection_def)
  then have "perform inline ?out (put_connection c ?con' (s\<lparr>srv_sessions := srv_sessions s\<rparr>)) = Inr (s', written')"
    using assms(5) by (simp only: rbind_Inr prod.case)
  then have "s' = put_connection c ?con' (s\<lparr>srv_sessions := srv_sessions s\<rparr>) \<and> written' = [(c, [0x20, 2, 0, 4])]"
    using assms(2) perform_connack [of "put_connection c ?con' (s\<lparr>srv_sessions := srv_sessions s\<rparr>)" c ?con'
        inline BAD_USERNAME_OR_PASSWORD] by (simp add: put_connection_def)
  then show ?thesis
    by (simp add: put_connection_def)
qed

lemma connect_accepted:
  assumes "con_client_id con = None" "con_open con" "sock_remote (con_socket con) = Some peer"
    and "cfg_authenticate cfg (ep_address peer) (username k) (password k)" "packet_type (Connect k) = CONNECT"
    and "srv_objects s c \<noteq> None" "session_conn (srv_sessions s) (client_id k) = None"
    and "rbind (process_connect_packet (surroundings_of cfg inline c s) c k con (srv_sessions s))
      (\<lambda>(con', sm', out). perform inline out (put_connection c (read_frame con') (s\<lparr>srv_sessions := sm'\<rparr>)))
      = Inr (s', written')"
  shows "\<exists>d. written' = [(c, [0x20, 2, 0, 0])] \<and>
    session_conn (srv_sessions s') = (session_conn (srv_sessions s))(client_id k \<mapsto> c) \<and>
    srv_objects s' c = Some (read_frame (authenticated k d con))"
proof -
  have peer: "remote_endpoint (con_socket con) = Inr peer"
    using assms(2,3) by (simp add: remote_endpoint_def)
  obtain d where d: "connection_description (con_socket con) (client_id k) = Inr d"
    using connection_description_known(1) [of "con_socket con"] assms(2,3) by (auto simp: peer_known_def)
  let ?auth = "authenticated k d con"
  obtain sm' out where connected: "dispatch_to (surroundings_of cfg inline c s) c (Connect k) ?auth (srv_sessions s) =
      Inr (sm', out)"
    and p: "perform inline (out @ [(c, Send (Connack (new_connack False CONNECTION_ACCEPTED)))])
      (put_connection c (read_frame ?auth) (s\<lparr>srv_sessions := sm'\<rparr>)) = Inr (s', written')"
    using assms(1,4,8) peer d unfolding process_connect_packet_eq by (auto simp: surroundings_of_def result_simps)
  have out: "out = []" "session_conn sm' = (session_conn (srv_sessions s))(client_id k \<mapsto> c)"
    using dispatch_connect_new_client [OF connected assms(5-7)] by simp_all
  have "s' = put_connection c (read_frame ?auth) (s\<lparr>srv_sessions := sm'\<rparr>) \<and> written' = [(c, [0x20, 2, 0, 0])]"
    using p out(1) assms(2) perform_connack [of "put_connection c (read_frame ?auth) (s\<lparr>srv_sessions := sm'\<rparr>)"
        c "read_frame ?auth" inline CONNECTION_ACCEPTED] by (simp add: put_connection_def)
  then show ?thesis
    using out(2) by (auto simp: put_connection_def)
qed

text \<open>
  C13. The handshake, byte by byte. When the last bytes of the first CONNECT of an open connection arrive
  and are handled: if the credentials are refused, the only bytes written are CONNACK with return code 4, no
  session changes and the connection will be closed when they are written; otherwise the only bytes
  written are CONNACK with return code 0, the only new session is the client's own on this connection
  (if it had none), the timer that waits for CONNECT is off, the keep alive timer runs exactly if the
  client asked for it, and the next packet is being read.
\<close>

theorem connect_handshake:
  assumes "cfg_read_buffer_size cfg \<le> 268435455" "server_reaches cfg written s"
    and "enabled (Received c chunk) s" "srv_objects s c = Some con" "con_client_id con = None"
    and "con_open con" "sock_remote (con_socket con) = Some peer"
    and "completed_frame con chunk = Some (buf, f)" "decode_packet buf f = Inr (Connect k)"
    and "session_conn (srv_sessions s) (client_id k) = None"
    and "server_handle cfg inline (Received c chunk) s = Inr (s', written')"
  shows "\<exists>con'. srv_objects s' c = Some con' \<and> con_reading con' \<and>
    (if cfg_authenticate cfg (ep_address peer) (username k) (password k)
     then written' = [(c, [0x20, 2, 0, 0])] \<and>
       session_conn (srv_sessions s') = (session_conn (srv_sessions s))(client_id k \<mapsto> c) \<and>
       con_client_id con' = Some (client_id k) \<and> \<not> con_connect_timer con' \<and>
       (con_keep_alive_timer con' \<longleftrightarrow> 0 < keep_alive_secs k)
     else written' = [(c, [0x20, 2, 0, 4])] \<and> srv_sessions s' = srv_sessions s \<and>
       con_client_id con' = None \<and> con_close_after_write con' = Some authentication_failed)"
proof -
  let ?con = "after_frame (cfg_read_buffer_size cfg) buf chunk con"
  have ok: "server_ok cfg s"
    using server_reaches_ok [OF assms(1,2)] by simp
  have ty: "packet_type (Connect k) = CONNECT"
    using decode_packet_well_typed [OF assms(9)] by (simp add: well_typed_def)
  have con: "con_client_id ?con = None" "con_open ?con" "sock_remote (con_socket ?con) = Some peer"
    using assms(5-7) by simp_all
  note handled = assms(11) [unfolded connect_received [OF ok assms(1,3,4,8,9), of inline]]
  show ?thesis
  proof (cases "cfg_authenticate cfg (ep_address peer) (username k) (password k)")
    case False
    then show ?thesis
      using connect_refused [OF con False handled] con by (simp add: read_frame_def)
  next
    case True
    then show ?thesis
      using connect_accepted [OF con True ty _ assms(10) handled] assms(4) con
      by (auto simp: read_frame_def authenticated_def close_on_keep_alive_timeout_def Let_def after_frame_def)
  qed
qed

definition decoded_connect :: "mqtt_packet result \<Rightarrow> connect option" where
  "decoded_connect r = (case r of Inr (Connect k) \<Rightarrow> Some k | _ \<Rightarrow> None)"

lemma decoded_connect_iff: "decoded_connect r = Some k \<longleftrightarrow> r = Inr (Connect k)"
  by (cases r) (auto simp: decoded_connect_def split: mqtt_packet.splits)

text \<open>Client \<open>a\<close> connects with a keep alive of 60 seconds; then with the name \<open>eve\<close>, which is refused.\<close>

definition connecting :: "(bool \<times> server_event) list" where
  "connecting = [(False, client_arrives), (False, Received 0 [0x10]), (False, Received 0 [13])]"

definition connect_keep_alive :: "byte list" where
  "connect_keep_alive = [0, 4, 77, 81, 84, 84, 4, 2, 0, 60, 0, 1, 97]"

lemma connecting_observed:
  "observe connecting (\<lambda>s. (
     enabled (Received 0 connect_keep_alive) s,
     map_option (\<lambda>con. (con_client_id con, con_socket con = sample_socket)) (srv_objects s 0),
     Option.bind (srv_objects s 0) (\<lambda>con.
     Option.bind (completed_frame con connect_keep_alive) (\<lambda>(buf, f).
     map_option (\<lambda>k. (client_id k, keep_alive_secs k)) (decoded_connect (decode_packet buf f)))),
     session_conn (srv_sessions s) ''a'',
     map_sum id snd (server_handle sample_config False (Received 0 connect_keep_alive) s)))
   = Some ([],
     True,
     Some (None, True),
     Some (''a'', 60),
     None,
     Inr [(0, [0x20, 2, 0, 0])])"
  by code_simp

lemma connecting_eval:
  "writes_of connecting = Some []"
  "enabled (Received 0 connect_keep_alive) (state_after connecting)"
  "map_option (\<lambda>con. (con_client_id con, con_socket con = sample_socket)) (srv_objects (state_after connecting) 0)
     = Some (None, True)"
  "Option.bind (srv_objects (state_after connecting) 0) (\<lambda>con.
     Option.bind (completed_frame con connect_keep_alive) (\<lambda>(buf, f).
     map_option (\<lambda>k. (client_id k, keep_alive_secs k)) (decoded_connect (decode_packet buf f))))
     = Some (''a'', 60)"
  "session_conn (srv_sessions (state_after connecting)) ''a'' = None"
  "map_sum id snd (server_handle sample_config False (Received 0 connect_keep_alive) (state_after connecting))
     = Inr [(0, [0x20, 2, 0, 0])]"
  using observeD [OF connecting_observed] by simp_all

theorem connect_handshake_witness:
  "\<exists>s' con'. server_handle sample_config False (Received 0 connect_keep_alive) (state_after connecting) =
      Inr (s', [(0, [0x20, 2, 0, 0])]) \<and>
    srv_objects s' 0 = Some con' \<and> con_reading con' \<and> con_client_id con' = Some ''a'' \<and>
    con_keep_alive_timer con'"
proof -
  obtain con buf f k where con: "srv_objects (state_after connecting) 0 = Some con" "con_client_id con = None"
    "con_socket con = sample_socket" "completed_frame con connect_keep_alive = Some (buf, f)" "decode_packet buf f = Inr (Connect k)"
    "client_id k = ''a''" "keep_alive_secs k = 60"
    using connecting_eval(3,4) by (auto simp: bind_eq_Some_conv decoded_connect_iff)
  have peer: "con_open con" "sock_remote (con_socket con) = Some \<lparr>ep_address = ''10.0.0.2'', ep_port = 40000\<rparr>"
    using con(3) by (simp_all add: sample_socket_def)
  obtain s' where s': "server_handle sample_config False (Received 0 connect_keep_alive) (state_after connecting)
      = Inr (s', [(0, [0x20, 2, 0, 0])])"
    using handled_writes [OF connecting_eval(6)] by blast
  have new: "session_conn (srv_sessions (state_after connecting)) (client_id k) = None"
    using connecting_eval(5) con(6) by simp
  from connect_handshake [OF sample_buffer state_after_reached [OF connecting_eval(1)] connecting_eval(2) con(1,2)
      peer con(4,5) new s'] show ?thesis
    using s' con(6,7) by (auto split: if_splits)
qed

text \<open>
  C14. A frame the decoder rejects closes its connection: when the bytes that complete it are handled,
  the connection is asked to stop (and is closed at once if asio runs the request inline), no further
  packet is read from it, and the session of its client is destroyed.
\<close>

theorem malformed_packet_closes_connection:
  assumes "cfg_read_buffer_size cfg \<le> 268435455" "server_reaches cfg written s"
    and "enabled (Received c chunk) s" "srv_objects s c = Some con"
    and "completed_frame con chunk = Some (buf, f)" "decode_packet buf f = Inl (Malformed m)"
    and "server_handle cfg inline (Received c chunk) s = Inr (s', written')"
  shows "\<exists>con'. srv_objects s' c = Some con' \<and> con_stop_requested con' \<and> \<not> con_reading con' \<and>
    (inline \<longrightarrow> \<not> con_open con') \<and>
    (\<forall>cid. con_client_id con = Some cid \<longrightarrow> session_conn (srv_sessions s') cid = None)"
proof -
  let ?env = "surroundings_of cfg inline c s"
  have ok: "server_ok cfg s"
    using server_reaches_ok [OF assms(1,2)] by simp
  have "length chunk \<le> bytes_wanted con"
    using assms(3,4) by simp
  from bytes_received_malformed [OF callback_pre_of [OF ok assms(1,4)] this assms(5,6)]
  obtain con1 where con1: "con_client_id con1 = con_client_id con" "\<not> con_reading con1"
    and eq: "bytes_received ?env c chunk con (srv_sessions s) =
      connection_close_requested ?env c protocol_violation con1 (srv_sessions s)"
    by blast
  then obtain con2 sm' out where close: "connection_close_requested ?env c protocol_violation con1 (srv_sessions s) =
      Inr (con2, sm', out)"
    and p: "perform inline out (put_connection c con2 (s\<lparr>srv_sessions := sm'\<rparr>)) = Inr (s', written')"
    using assms(4,7) by (auto simp: run_callback_def result_simps)
  have con2: "con2 = stop_connection inline con1"
    using connection_close_requested_reader [OF close] by (simp add: surroundings_of_def)
  have gone: "session_conn sm' cid = None" if "con_client_id con = Some cid" for cid
  proof -
    have "dispatcher_client_disconnected_ungracefully (env_alive ?env) cid (srv_sessions s) = Inr (sm', out)"
      using close that con1(1) by (auto simp: connection_close_requested_def result_simps)
    then show ?thesis
      by (rule disconnected_ungracefully_gone)
  qed
  obtain con' where con': "srv_objects s' c = Some con'" "con' = con2 \<or> con' = stop_connection inline con2"
    using perform_object [OF p, of c con2] by (auto simp: put_connection_def)
  then have "con' = stop_connection inline con1"
    using con2 by auto
  moreover have "srv_sessions s' = sm'"
    using perform_sessions [OF p] by (simp add: put_connection_def)
  ultimately show ?thesis
    using con'(1) con1(2) gone by (auto simp: stop_connection_def do_stop_def Let_def)
qed

text \<open>Client \<open>a\<close> sends a PUBLISH with the reserved quality of service.\<close>

definition before_malformed :: "(bool \<times> server_event) list" where
  "before_malformed = [(False, client_arrives)] @ packet_arrives 0 0x10 (connect_body 97) @
     [(False, Received 0 [0x36]), (False, Received 0 [3])]"

lemma before_malformed_observed:
  "observe before_malformed (\<lambda>s. (
     enabled (Received 0 [0, 1, 116]) s,
     Option.bind (srv_objects s 0) (\<lambda>con.
     map_option (\<lambda>(buf, f). (con_client_id con, decode_packet buf f)) (completed_frame con [0, 1, 116])),
     map_sum id snd (server_handle sample_config True (Received 0 [0, 1, 116]) s)))
   = Some ([(0, [0x20, 2, 0, 0])],
     True,
     Some (Some ''a'', Inl (Malformed Reserved_qos)),
     Inr [])"
  by code_simp

lemma before_malformed_eval:
  "writes_of before_malformed = Some [(0, [0x20, 2, 0, 0])]"
  "enabled (Received 0 [0, 1, 116]) (state_after before_malformed)"
  "Option.bind (srv_objects (state_after before_malformed) 0) (\<lambda>con.
     map_option (\<lambda>(buf, f). (con_client_id con, decode_packet buf f)) (completed_frame con [0, 1, 116]))
     = Some (Some ''a'', Inl (Malformed Reserved_qos))"
  "map_sum id snd (server_handle sample_config True (Received 0 [0, 1, 116]) (state_after before_malformed)) = Inr []"
  using observeD [OF before_malformed_observed] by simp_all

theorem malformed_packet_closes_connection_witness:
  "\<exists>s' con'. server_handle sample_config True (Received 0 [0, 1, 116]) (state_after before_malformed) = Inr (s', []) \<and>
    srv_objects s' 0 = Some con' \<and> \<not> con_open con' \<and> \<not> con_reading con' \<and>
    session_conn (srv_sessions s') ''a'' = None"
proof -
  obtain con buf f where con: "srv_objects (state_after before_malformed) 0 = Some con"
    "completed_frame con [0, 1, 116] = Some (buf, f)" "decode_packet buf f = Inl (Malformed Reserved_qos)"
    "con_client_id con = Some ''a''"
    using before_malformed_eval(3) by (auto simp: bind_eq_Some_conv)
  obtain s' where s': "server_handle sample_config True (Received 0 [0, 1, 116]) (state_after before_malformed)
      = Inr (s', [])"
    using handled_writes [OF before_malformed_eval(4)] by blast
  from malformed_packet_closes_connection [OF sample_buffer state_after_reached [OF before_malformed_eval(1)]
      before_malformed_eval(2) con(1-3) s'] show ?thesis
    using s' con(4) by blast
qed


definition sample_message :: publish where
  "sample_message = \<lparr>type_and_flags = 0x32, remaining_length = 7, topic = ''t'', packet_identifier = 5,
     application_message = [104, 105]\<rparr>"

definition before_publish :: "(bool \<times> server_event) list" where
  "before_publish = sample_events @ [(False, Received 0 [0x32]), (False, Received 0 [7])]"

lemma before_publish_observed:
  "observe before_publish (\<lambda>s. (
     enabled (Received 0 [0, 1, 116, 0, 5, 104, 105]) s,
     map_option (\<lambda>con. (con_client_id con, received_so_far con [0, 1, 116, 0, 5, 104, 105]))
       (srv_objects s 0),
     map_option (\<lambda>sess. session_rx sess 5 = None) (sm_sessions (srv_sessions s) ''a''),
     session_conn (srv_sessions s) ''b'',
     map_option con_open (srv_objects s 1),
     sm_subscriptions (srv_sessions s),
     map_sum id snd (server_handle sample_config False (Received 0 [0, 1, 116, 0, 5, 104, 105]) s)))
   = Some ([(0, [0x20, 2, 0, 0]), (1, [0x20, 2, 0, 0]), (1, [0x90, 3, 0, 7, 1])],
     True,
     Some (Some ''a'', [0x32, 7, 0, 1, 116, 0, 5, 104, 105]),
     Some True,
     Some 1,
     Some True,
     [\<lparr>sc_topic_filter = ''t'', sc_maximum_qos = AT_LEAST_ONCE, sc_client_id = ''b''\<rparr>],
     Inr [(0, [0x40, 2, 0, 5]), (1, [0x32, 7, 0, 1, 116, 0, 1, 104, 105])])"
  by code_simp

lemma before_publish_eval:
  "writes_of before_publish = Some [(0, [0x20, 2, 0, 0]), (1, [0x20, 2, 0, 0]), (1, [0x90, 3, 0, 7, 1])]"
  "enabled (Received 0 [0, 1, 116, 0, 5, 104, 105]) (state_after before_publish)"
  "map_option (\<lambda>con. (con_client_id con, received_so_far con [0, 1, 116, 0, 5, 104, 105]))
     (srv_objects (state_after before_publish) 0) = Some (Some ''a'', [0x32, 7, 0, 1, 116, 0, 5, 104, 105])"
  "map_option (\<lambda>sess. session_rx sess 5 = None) (sm_sessions (srv_sessions (state_after before_publish)) ''a'')
     = Some True"
  "session_conn (srv_sessions (state_after before_publish)) ''b'' = Some 1"
  "map_option con_open (srv_objects (state_after before_publish) 1) = Some True"
  "sm_subscriptions (srv_sessions (state_after before_publish)) =
     [\<lparr>sc_topic_filter = ''t'', sc_maximum_qos = AT_LEAST_ONCE, sc_client_id = ''b''\<rparr>]"
  "map_sum id snd (server_handle sample_config False (Received 0 [0, 1, 116, 0, 5, 104, 105]) (state_after before_publish))
     = Inr [(0, [0x40, 2, 0, 5]), (1, [0x32, 7, 0, 1, 116, 0, 1, 104, 105])]"
  using observeD [OF before_publish_observed] by simp_all

lemma sample_message_eval:
  "encode_packet (Publish sample_message) (unat (packet_total_length (Publish sample_message))) =
     Inr [0x32, 7, 0, 1, 116, 0, 5, 104, 105]"
  "relayed (Publish sample_message)"
  by code_simp+


section \<open>Closing\<close>


text \<open>Client \<open>a\<close> subscribes to \<open>t\<close> and disconnects; its own last PUBLISH would have matched.\<close>

definition disconnected_events :: "(bool \<times> server_event) list" where
  "disconnected_events = [(False, client_arrives)] @ packet_arrives 0 0x10 (connect_body 97) @
     [(True, Received 0 [0xE0]), (True, Received 0 [0])]"

lemma disconnected_observed:
  "observe disconnected_events (\<lambda>s. (srv_next_connection s, map_option con_open (srv_objects s 0),
     map_option (map_sum id snd) (play sample_config
       [(False, client_arrives), (False, Stop_run 0), (False, Connect_timer 0 Operation_aborted),
        (False, Written 0 Network_error)] s)))
   = Some ([(0, [0x20, 2, 0, 0])], 1, Some False, Some (Inr []))"
  by code_simp


text \<open>
  C39. A termination signal closes every connection the manager keeps, and nothing more: the server
  goes on accepting, so the very next client (any that has not reset its connection already) gets an open
  connection that is served.
\<close>

theorem termination_signal_keeps_accepting:
  assumes "server_reaches cfg written s" "peer_known socket"
  shows "\<exists>s'. server_handle cfg inline Termination_signal s = Inr (s', []) \<and>
    srv_connections s' = {} \<and> (\<forall>c \<in> srv_connections s. \<not> open_in s' c) \<and> srv_connections_closed s' \<and>
    enabled (Accepted (Socket_accepted socket)) s' \<and>
    (\<exists>s''. server_handle cfg inline' (Accepted (Socket_accepted socket)) s' = Inr (s'', []) \<and>
       srv_connections s'' = {srv_next_connection s'} \<and> open_in s'' (srv_next_connection s') \<and>
       enabled (Accepted (Socket_accepted socket)) s'')"
proof -
  obtain con where con: "new_connection (cfg_read_buffer_size cfg) socket = Inr con"
    using connection_description_known [OF assms(2)] by (fastforce simp: new_connection_def result_simps)
  have "sock_open socket"
    using assms(2) by (simp add: peer_known_def)
  then show ?thesis
    using server_accepts [OF assms(1)] con new_connection_ok(3) [OF con]
    by (simp add: do_close_connections_def cm_stop_all_def on_accepted_def do_accept_def create_connection_def
        cm_start_def put_connection_def open_in_def do_stop_def map_option_case Let_def split: option.split)
qed

theorem termination_signal_keeps_accepting_witness:
  "\<exists>s'. server_handle sample_config False Termination_signal (state_after sample_events) = Inr (s', []) \<and>
    srv_connections s' = {} \<and> enabled client_arrives s'"
  using termination_signal_keeps_accepting [OF state_after_reached [OF sample_writes] sample_socket_known,
      where inline = False] by blast

text \<open>
  C40. When the dispatcher stops a connection, because its client released a publication the server
  does not know, the session of the client stays behind, on the connection that is about to vanish: the
  connection is asked to stop, nothing is written, and the session store is unchanged, so a later CONNECT
  with the same identifier is accepted but gets no session of its own.
\<close>

theorem unknown_pubrel_strands_session:
  assumes "cfg_read_buffer_size cfg \<le> 268435455" "server_reaches cfg written s"
    and "enabled (Received c chunk) s" "srv_objects s c = Some con" "con_client_id con = Some cid"
    and "completed_frame con chunk = Some (buf, f)" "decode_packet buf f = Inr (Pubrel ack)"
    and "sm_sessions (srv_sessions s) cid = Some sess" "session_connection sess = c"
    and "session_rx sess (ack_packet_identifier ack) = None"
  shows "\<exists>s' con'. server_handle cfg inline (Received c chunk) s = Inr (s', []) \<and>
    srv_sessions s' = srv_sessions s \<and> srv_objects s' c = Some con' \<and> con_stop_requested con' \<and>
    (\<forall>alive ids k d. ids d = Some cid \<longrightarrow>
       sm_client_connected alive ids k d (srv_sessions s') = Inr (srv_sessions s'))"
proof -
  let ?con = "after_frame (cfg_read_buffer_size cfg) buf chunk con"
  have ok: "server_ok cfg s"
    using server_reaches_ok [OF assms(1,2)] by simp
  have ty: "packet_type (Pubrel ack) = PUBREL"
    using decode_packet_well_typed [OF assms(7)] by (simp add: well_typed_def)
  have same: "put_session cid (sess\<lparr>session_rx := session_rx sess\<rparr>) (srv_sessions s) = srv_sessions s"
    using assms(8) by (simp add: put_session_def fun_upd_idem)
  have "process_decoded_packet (surroundings_of cfg inline c s) c (Pubrel ack) ?con (srv_sessions s) =
      Inr (read_frame ?con, srv_sessions s, [(c, Stop)])"
    using assms(4,5,8,9,10) same
    by (simp add: process_decoded_packet_def ty dispatch_to_def handle_packet_received_def
        sm_client_released_publish_def rx_pubrel_received_def surroundings_of_def to_conn_def)
  then show ?thesis
    using assms(8) received_callback [OF ok assms(1,3,4,6,7), of inline]
    by (auto simp: put_connection_def stop_connection_def do_stop_def Let_def sm_client_connected_def
        session_store_insert_def split: option.splits)
qed

text \<open>Client \<open>a\<close> releases a publication it never sent.\<close>

definition before_pubrel :: "(bool \<times> server_event) list" where
  "before_pubrel = [(False, client_arrives)] @ packet_arrives 0 0x10 (connect_body 97) @
     [(False, Received 0 [0x62]), (False, Received 0 [2])]"

lemma before_pubrel_observed:
  "observe before_pubrel (\<lambda>s. (enabled (Received 0 [0, 9]) s,
     Option.bind (srv_objects s 0) (\<lambda>con.
       map_option (\<lambda>(buf, f). (con_client_id con, decode_packet buf f)) (completed_frame con [0, 9])),
     map_option (\<lambda>sess. (session_connection sess, session_rx sess 9 = None)) (sm_sessions (srv_sessions s) ''a'')))
   = Some ([(0, [0x20, 2, 0, 0])], True, Some (Some ''a'', Inr (Pubrel (new_pubrel 9))), Some (0, True))"
  by code_simp

theorem unknown_pubrel_strands_session_witness:
  "\<exists>s' con'. server_handle sample_config False (Received 0 [0, 9]) (state_after before_pubrel) = Inr (s', []) \<and>
    srv_objects s' 0 = Some con' \<and> con_stop_requested con' \<and> session_conn (srv_sessions s') ''a'' = Some 0"
proof -
  let ?s = "state_after before_pubrel"
  note eval = observeD [OF before_pubrel_observed]
  obtain con buf f where con: "srv_objects ?s 0 = Some con" "con_client_id con = Some ''a''"
    "completed_frame con [0, 9] = Some (buf, f)" "decode_packet buf f = Inr (Pubrel (new_pubrel 9))"
    using eval by (auto simp: bind_eq_Some_conv)
  obtain sess where sess: "sm_sessions (srv_sessions ?s) ''a'' = Some sess" "session_connection sess = 0"
    "session_rx sess (ack_packet_identifier (new_pubrel 9)) = None"
    using eval by (auto simp: new_packet_defs)
  have "enabled (Received 0 [0, 9]) ?s"
    using eval by simp
  from unknown_pubrel_strands_session [OF sample_buffer state_after_reached [OF conjunct1 [OF eval]] this con sess,
      where inline = False]
  show ?thesis
    using sess by (auto simp: session_conn_def)
qed

section \<open>A last will that ends the process\<close>

text \<open>
  Clients \<open>a\<close> and \<open>b\<close> as in the sample run; client \<open>c\<close> connects with a last will for topic \<open>t\<close> of the
  reserved quality of service 3, which is accepted, and loses its connection.
\<close>

definition reserved_last_will :: "(bool \<times> server_event) list" where
  "reserved_last_will = sample_events @ [(False, client_arrives)] @
     packet_arrives 2 0x10
       [0, 4, 77, 81, 84, 84, 4, 0x1C, 0, 0, 0, 1, 99, 0, 1, 116, 0, 1, 120] @
     [(False, Read_failed 2 Network_error)]"

lemma reserved_last_will_aborts_the_server:
  "map_option (map_sum id snd) (play sample_config reserved_last_will (server_run new_server)) =
     Some (Inl Assertion_failed)"
  by code_simp

end
