(* ===== verification/Assertions.thy ===== *)
theory Assertions
  imports Delivery
begin

text \<open>
  Which requests fail an assertion of the dispatcher. In a consistent state there are four: a retained
  last will in a CONNECT, an acknowledgement that does not fit its publication, a publication for a
  session whose next packet identifier is still in flight, and the last will of a lost client, if it has
  the reserved quality of service. Each operation is followed down to the assertion that fails.
\<close>

section \<open>Publications that find no packet identifier\<close>

definition next_identifier :: "client_session \<Rightarrow> nat \<Rightarrow> u16" where
  "next_identifier s i = tx_next_packet_identifier (session_tx s) + of_nat i"

text \<open>One of the next \<open>n\<close> identifiers is in flight, or there are not that many identifiers.\<close>

definition identifiers_taken :: "nat \<Rightarrow> client_session \<Rightarrow> bool" where
  "identifiers_taken n s \<longleftrightarrow>
     2 ^ 16 < n \<or> (\<exists>i \<in> {1..n}. tx_publications (session_tx s) (next_identifier s i) \<noteq> None)"

definition blocked :: "(conn \<Rightarrow> bool) \<Rightarrow> session_manager \<Rightarrow> string \<Rightarrow> QoS \<Rightarrow> bool" where
  "blocked alive sm cid q \<longleftrightarrow> (q = AT_LEAST_ONCE \<or> q = EXACTLY_ONCE) \<and>
     (\<exists>s. sm_sessions sm cid = Some s \<and> alive (session_connection s) \<and> identifiers_taken 1 s)"

lemma identifiers_taken_one:
  "identifiers_taken (Suc 0) s \<longleftrightarrow> tx_publications (session_tx s) (tx_next_packet_identifier (session_tx s) + 1) \<noteq> None"
  by (simp add: identifiers_taken_def next_identifier_def)

lemma session_publish_fails_iff:
  assumes "forwardable p"
  shows "session_publish alive cid p q sm = Inl e \<longleftrightarrow> e = Assertion_failed \<and> blocked alive sm cid q"
  using tx_publish_fails_iff [OF assms]
  by (auto simp: session_publish_def blocked_def identifiers_taken_one result_simps split: option.splits)

lemma session_publish_other:
  "session_publish alive cid p q sm = Inr (sm', p', out) \<Longrightarrow> j \<noteq> cid \<Longrightarrow> sm_sessions sm' j = sm_sessions sm j"
  by (auto simp: session_publish_def result_simps split: option.splits)

lemma publish_loop_fails_iff:
  assumes "sm_ok sm" "forwardable p" "distinct (map fst rs)"
  shows "fold_result (publish_to_subscriber alive) (sm, p, out) rs = Inl e \<longleftrightarrow>
    e = Assertion_failed \<and> (\<exists>(cid, q) \<in> set rs. blocked alive sm cid q)"
  using assms
proof (induction rs arbitrary: sm p out)
  case (Cons r rs)
  obtain cid q where r: "r = (cid, q)"
    by (cases r)
  show ?case
  proof (cases "session_publish alive cid p q sm")
    case (Inl e')
    then show ?thesis
      using session_publish_fails_iff [OF Cons.prems(2), of alive cid q sm e'] by (auto simp: r)
  next
    case (Inr x)
    then obtain sm1 p1 out1 where one: "session_publish alive cid p q sm = Inr (sm1, p1, out1)"
      by (cases x) auto
    have ok: "sm_ok sm1" "forwardable p1"
      using session_publish_ok [OF one Cons.prems(1,2)] by auto
    have "blocked alive sm1 j q' = blocked alive sm j q'" if "(j, q') \<in> set rs" for j q'
    proof -
      have "j \<noteq> cid"
        using Cons.prems(3) that by (force simp: r)
      then show ?thesis
        using session_publish_other [OF one] by (simp add: blocked_def)
    qed
    moreover have "\<not> blocked alive sm cid q"
      using session_publish_fails_iff [OF Cons.prems(2), of alive cid q sm] one by simp
    ultimately show ?thesis
      using Cons.IH [OF ok, of "out @ out1"] Cons.prems(3) one by (auto simp: r)
  qed
qed simp

text \<open>A subscriber of topic \<open>t\<close> cannot be served.\<close>

definition unserved :: "(conn \<Rightarrow> bool) \<Rightarrow> session_manager \<Rightarrow> string \<Rightarrow> string \<Rightarrow> bool" where
  "unserved alive sm t cid \<longleftrightarrow>
     subscribed_qos sm cid t \<noteq> {} \<and> blocked alive sm cid (Max (subscribed_qos sm cid t))"

lemma sm_publish_fails_iff:
  assumes "sm_ok sm" "forwardable p"
  shows "sm_publish alive p sm = Inl e \<longleftrightarrow> e = Assertion_failed \<and> (\<exists>cid. unserved alive sm (topic p) cid)"
proof -
  have "subscriptions_ok (sm_subscriptions sm)"
    using assms(1) by (simp add: sm_ok_def)
  then obtain rs where rs: "resolve_subscribers (sm_subscriptions sm) p = Inr rs" "distinct (map fst rs)"
    "\<And>cid. map_of rs cid = (if subscribed_qos sm cid (topic p) = {} then None
                          else Some (Max (subscribed_qos sm cid (topic p))))"
    using resolve_subscribers_map by blast
  have mem: "(cid, q) \<in> set rs \<longleftrightarrow> subscribed_qos sm cid (topic p) \<noteq> {} \<and> q = Max (subscribed_qos sm cid (topic p))"
    for cid q
    using rs(3) [of cid] map_of_eq_Some_iff [OF rs(2), of cid q] by (auto split: if_splits)
  have "(\<exists>(cid, q) \<in> set rs. blocked alive sm cid q) \<longleftrightarrow> (\<exists>cid. unserved alive sm (topic p) cid)"
  proof
    assume "\<exists>(cid, q) \<in> set rs. blocked alive sm cid q"
    then obtain cid q where "(cid, q) \<in> set rs" "blocked alive sm cid q"
      by blast
    then have "unserved alive sm (topic p) cid"
      by (simp add: unserved_def mem)
    then show "\<exists>cid. unserved alive sm (topic p) cid" ..
  next
    assume "\<exists>cid. unserved alive sm (topic p) cid"
    then obtain cid where "(cid, Max (subscribed_qos sm cid (topic p))) \<in> set rs"
      "blocked alive sm cid (Max (subscribed_qos sm cid (topic p)))"
      by (auto simp: unserved_def mem)
    then show "\<exists>(cid, q) \<in> set rs. blocked alive sm cid q"
      by blast
  qed
  then show ?thesis
    using publish_loop_fails_iff [OF assms rs(2), of alive "[]" e] rs(1) by (simp add: sm_publish_def)
qed

text \<open>Nothing but outgoing publications matters, and the sessions that are there.\<close>

lemma unserved_same_tx:
  assumes "unserved alive sm' t cid" "sm_subscriptions sm' = sm_subscriptions sm"
    and "\<And>s'. sm_sessions sm' cid = Some s' \<Longrightarrow> \<exists>s. sm_sessions sm cid = Some s \<and>
      session_connection s = session_connection s' \<and> session_tx s = session_tx s'"
  shows "unserved alive sm t cid"
proof -
  let ?q = "Max (subscribed_qos sm cid t)"
  have same: "subscribed_qos sm' cid t = subscribed_qos sm cid t"
    using assms(2) by (simp add: subscribed_qos_def)
  obtain s' where s': "sm_sessions sm' cid = Some s'" "alive (session_connection s')" "identifiers_taken 1 s'"
    and q: "subscribed_qos sm cid t \<noteq> {}" "?q = AT_LEAST_ONCE \<or> ?q = EXACTLY_ONCE"
    using assms(1) by (auto simp: unserved_def blocked_def same)
  obtain s where "sm_sessions sm cid = Some s" "session_connection s = session_connection s'"
    "session_tx s = session_tx s'"
    using assms(3) [OF s'(1)] by blast
  then have "blocked alive sm cid ?q"
    using s'(2,3) q(2) by (simp add: blocked_def identifiers_taken_def next_identifier_def)
  then show ?thesis
    using q(1) by (simp add: unserved_def)
qed

section \<open>The packets of clients\<close>

lemma sm_client_published_fails:
  assumes "sm_ok sm" "forwardable p" "sm_client_published alive cid p sm = Inl e"
  shows "\<exists>cid'. unserved alive sm (topic p) cid'"
proof -
  obtain s p0 where s: "sm_sessions sm cid = Some s" and p0: "forwardable p0" "topic p0 = topic p"
    and sent: "session_client_sent_publish alive cid s p0 sm = Inl e"
  proof (cases "sm_sessions sm cid")
    case None
    then show ?thesis
      using assms(3) by (simp add: sm_client_published_def)
  next
    case (Some s)
    have "forwardable (publish_set_retain False p)" "topic (publish_set_retain False p) = topic p"
      using assms(2) by simp_all
    then show ?thesis
      using assms(2,3) Some that [of s p] that [of s "publish_set_retain False p"]
      by (auto simp: sm_client_published_def retain_def result_simps split: if_splits)
  qed
  have ok: "session_ok cid s"
    using assms(1) s by (rule sm_ok_session)
  obtain rx' acts b where rx: "rx_client_sent_publish (alive (session_connection s)) p0 (session_rx s) = Inr (rx', acts, b)"
    "rx_ok rx'"
    using rx_client_sent_publish_ok [of "session_rx s" "alive (session_connection s)" p0] ok
    by (auto simp: session_ok_def)
  let ?sm = "put_session cid (s\<lparr>session_rx := rx'\<rparr>) sm"
  have "sm_ok ?sm"
    using assms(1) ok rx(2) by (intro sm_ok_put_session session_ok_update)
  moreover have "sm_publish alive p0 ?sm = Inl e"
    using sent rx(1) by (auto simp: session_client_sent_publish_def Let_def result_simps split: if_splits)
  ultimately obtain cid' where "unserved alive ?sm (topic p) cid'"
    using sm_publish_fails_iff p0 by metis
  then have "unserved alive sm (topic p) cid'"
    by (rule unserved_same_tx) (use s in \<open>auto split: if_splits\<close>)
  then show ?thesis ..
qed

section \<open>Last wills\<close>

text \<open>A will with the reserved quality of service fails as soon as some session is to get it.\<close>

definition will_undeliverable :: "(conn \<Rightarrow> bool) \<Rightarrow> session_manager \<Rightarrow> connect \<Rightarrow> bool" where
  "will_undeliverable alive sm con \<longleftrightarrow> (\<exists>t. will_topic con = Some t \<and>
     (if connect_last_will_qos con = QOS_RESERVED
      then \<exists>cid s. subscribed_qos sm cid t \<noteq> {} \<and> sm_sessions sm cid = Some s \<and> alive (session_connection s)
      else \<exists>cid. unserved alive sm t cid))"

lemma publish_last_will_fails:
  assumes "sm_ok sm" "session_ok cid s" "publish_last_will alive s sm = Inl e"
  shows "\<exists>con. session_lwt s = Some con \<and> will_undeliverable alive sm con"
proof -
  obtain con where con: "session_lwt s = Some con"
    using assms(3) by (cases "session_lwt s") (simp_all add: publish_last_will_def)
  then have "lwt_ok con"
    using assms(2) by (simp add: session_ok_def)
  then obtain t m where w: "will_topic con = Some t" "will_message con = Some m" "length t \<le> 65535" "length m \<le> 65535"
    by (auto simp: lwt_ok_def)
  have "will_undeliverable alive sm con"
  proof (cases "connect_last_will_qos con = QOS_RESERVED")
    case True
    obtain p where p: "publish_create False QOS_RESERVED False t 0 m = Inr p" "header_type p = PUBLISH"
      "publish_qos p = QOS_RESERVED" "topic p = t"
      using publish_create_reserved by blast
    have "subscriptions_ok (sm_subscriptions sm)"
      using assms(1) by (simp add: sm_ok_def)
    then obtain rs where rs: "resolve_subscribers (sm_subscriptions sm) p = Inr rs" "distinct (map fst rs)"
      "\<And>cid. map_of rs cid = (if subscribed_qos sm cid t = {} then None else Some (Max (subscribed_qos sm cid t)))"
      using resolve_subscribers_map [of sm p] unfolding p(4) by blast
    have "publish_last_will alive s sm = rbind (sm_publish alive p sm) (\<lambda>(sm', _, out). Inr (sm', out))"
      using con w p(1) True by (simp add: publish_last_will_def)
    then obtain j q where "(j, q) \<in> set rs" "deliverable alive sm (j, q)"
      using assms(3) sm_publish_reserved [OF p(2,3) rs(1), of alive] by (auto split: if_splits)
    then have "subscribed_qos sm j t \<noteq> {} \<and> (\<exists>s. sm_sessions sm j = Some s \<and> alive (session_connection s))"
      using rs(3) [of j] map_of_eq_Some_iff [OF rs(2), of j q] by (auto simp: deliverable_def split: if_splits)
    then show ?thesis
      using True w(1) by (auto simp: will_undeliverable_def)
  next
    case False
    obtain p where p: "publish_create False (connect_last_will_qos con) False t 0 m = Inr p" "publish_wf p"
      "topic p = t" "application_message p = m"
      using publish_create_wf [OF False, of t m False False 0] w(3,4) by auto
    then have "forwardable p"
      using w by (simp add: forwardable_def)
    moreover have "sm_publish alive p sm = Inl e"
      using assms(3) con w(1,2) p(1) by (auto simp: publish_last_will_def result_simps)
    ultimately show ?thesis
      using sm_publish_fails_iff [OF assms(1)] False w(1) p(3) by (auto simp: will_undeliverable_def)
  qed
  then show ?thesis
    using con by simp
qed

lemma will_undeliverable_destroyed:
  assumes "will_undeliverable alive (sm_destroy cid sm) con"
  shows "will_undeliverable alive sm con"
proof -
  have qos: "subscribed_qos (sm_destroy cid sm) j t = subscribed_qos sm j t" for j t
    by (simp add: subscribed_qos_def sm_destroy_def)
  have "unserved alive sm t j" if "unserved alive (sm_destroy cid sm) t j" for t j
    by (rule unserved_same_tx [OF that]) (auto simp: sm_destroy_def split: if_splits)
  moreover have "sm_sessions sm j = Some s" if "sm_sessions (sm_destroy cid sm) j = Some s" for j s
    using that by (simp add: sm_destroy_def split: if_splits)
  ultimately show ?thesis
    using assms unfolding will_undeliverable_def qos by (metis (full_types))
qed

text \<open>The session of client \<open>cid\<close> cannot be closed.\<close>

definition closing_aborts :: "(conn \<Rightarrow> bool) \<Rightarrow> session_manager \<Rightarrow> string \<Rightarrow> bool" where
  "closing_aborts alive sm cid \<longleftrightarrow>
     (\<exists>s con. sm_sessions sm cid = Some s \<and> session_lwt s = Some con \<and> will_undeliverable alive sm con)"

lemma disconnected_ungracefully_fails:
  assumes "sm_ok sm" "dispatcher_client_disconnected_ungracefully alive cid sm = Inl e"
  shows "closing_aborts alive sm cid"
proof -
  obtain s where s: "sm_sessions sm cid = Some s" "publish_last_will alive s (sm_destroy cid sm) = Inl e"
    using assms(2) by (auto simp: dispatcher_client_disconnected_ungracefully_def
        sm_client_disconnected_ungracefully_def split: option.splits)
  then show ?thesis
    using publish_last_will_fails [OF sm_ok_destroy [OF assms(1)] sm_ok_session [OF assms(1) s(1)] s(2)]
      will_undeliverable_destroyed unfolding closing_aborts_def by blast
qed

section \<open>Retained messages for a new subscriber\<close>

lemma identifiers_taken_mono: "identifiers_taken m s \<Longrightarrow> m \<le> n \<Longrightarrow> identifiers_taken n s"
  by (force simp: identifiers_taken_def)

lemma tx_publish_identifiers:
  assumes "tx_publish alive p q tx = Inr (tx', p', acts)" "forwardable p"
  shows "tx' = tx \<or> (\<exists>x. tx_publications tx' = (tx_publications tx)(tx_next_packet_identifier tx + 1 \<mapsto> x) \<and>
    tx_next_packet_identifier tx' = tx_next_packet_identifier tx + 1)"
proof -
  have zero: "publish_using_qos0 p tx = Inr (tx', p', acts) \<Longrightarrow> tx' = tx"
    by (rule publish_using_qos0_ok [OF assms(2), of tx]) simp
  show ?thesis
    by (rule publish_using_qos1_cases [OF assms(2), of tx], rule publish_using_qos2_cases [OF assms(2), of tx])
      (use assms(1) zero in \<open>auto simp: tx_publish_def split: if_splits\<close>)
qed

text \<open>A publication takes one of the identifiers at most.\<close>

lemma identifiers_left:
  assumes "tx_publish alive p q (session_tx s) = Inr (tx', p', acts)" "forwardable p" "\<not> identifiers_taken (Suc n) s"
  shows "\<not> identifiers_taken n (s\<lparr>session_tx := tx'\<rparr>)"
  using tx_publish_identifiers [OF assms(1,2)]
proof (elim disjE exE)
  assume "tx' = session_tx s"
  then show ?thesis
    using assms(3) identifiers_taken_mono [of n s "Suc n"] by auto
next
  fix x
  assume x: "tx_publications tx' = (tx_publications (session_tx s))(tx_next_packet_identifier (session_tx s) + 1 \<mapsto> x) \<and>
    tx_next_packet_identifier tx' = tx_next_packet_identifier (session_tx s) + 1"
  have free: "tx_publications (session_tx s) (next_identifier s i) = None" if "i \<in> {1..Suc n}" for i
    using assms(3) that by (auto simp: identifiers_taken_def)
  have "tx_publications tx' (next_identifier (s\<lparr>session_tx := tx'\<rparr>) i) = None" if i: "i \<in> {1..n}" for i
  proof -
    have eq: "next_identifier (s\<lparr>session_tx := tx'\<rparr>) i = next_identifier s (Suc i)"
      using x by (simp add: next_identifier_def algebra_simps)
    have "i < 2 ^ 16"
      using assms(3) i by (auto simp: identifiers_taken_def)
    then have "(of_nat i :: u16) \<noteq> 0"
      using i by (simp add: word_of_nat_eq_0_iff nat_dvd_not_less)
    then have "next_identifier s (Suc i) \<noteq> tx_next_packet_identifier (session_tx s) + 1"
      by (simp add: next_identifier_def)
    then show ?thesis
      using x free [of "Suc i"] i unfolding eq by simp
  qed
  then show ?thesis
    using assms(3) by (auto simp: identifiers_taken_def)
qed

lemma publish_retained_fails:
  assumes "fold_result (publish_retained alive cid) (sm, out) matching = Inl e" "sm_sessions sm cid = Some s"
    and "\<And>p q. (p, q) \<in> set matching \<Longrightarrow> forwardable p \<and> publish_retain p"
  shows "e = Assertion_failed \<and> alive (session_connection s) \<and> identifiers_taken (length matching) s"
  using assms
proof (induction matching arbitrary: sm out s)
  case (Cons m matching)
  obtain p q where m: "m = (p, q)"
    by (cases m)
  have p: "forwardable p" "publish_retain p"
    using Cons.prems(3) [of p q] by (auto simp: m)
  show ?case
  proof (cases "session_publish alive cid p q sm")
    case (Inl e')
    then have b: "e' = Assertion_failed" "blocked alive sm cid q"
      using session_publish_fails_iff [OF p(1)] by auto
    then have "alive (session_connection s)" "identifiers_taken 1 s"
      using Cons.prems(2) by (auto simp: blocked_def)
    moreover have "e = e'"
      using Cons.prems(1) Inl p(2) by (simp add: m publish_retained_def)
    ultimately show ?thesis
      using b(1) identifiers_taken_mono [of 1 s "length (m # matching)"] by simp
  next
    case (Inr x)
    then obtain tx' p' acts where tx: "tx_publish (alive (session_connection s)) p q (session_tx s) = Inr (tx', p', acts)"
      and x: "x = (put_session cid (s\<lparr>session_tx := tx'\<rparr>) sm, p', to_conn (session_connection s) acts)"
      using Cons.prems(2) by (auto simp: session_publish_def result_simps)
    let ?s = "s\<lparr>session_tx := tx'\<rparr>"
    let ?sm = "(put_session cid ?s sm)\<lparr>sm_retained := AList.update (topic p') p' (sm_retained sm)\<rparr>"
    have "fold_result (publish_retained alive cid) (?sm, out @ to_conn (session_connection s) acts) matching = Inl e"
      using Cons.prems(1) Inr x p(2) by (simp add: m publish_retained_def)
    moreover have "sm_sessions ?sm cid = Some ?s"
      by simp
    ultimately have "e = Assertion_failed \<and> alive (session_connection ?s) \<and> identifiers_taken (length matching) ?s"
      by (rule Cons.IH) (use Cons.prems(3) in auto)
    then show ?thesis
      using identifiers_left [OF tx p(1), of "length matching"] by auto
  qed
qed simp

lemma publish_retained_no_session:
  assumes "sm_sessions sm cid = None" "\<And>p q. (p, q) \<in> set matching \<Longrightarrow> forwardable p \<and> publish_retain p"
  shows "fold_result (publish_retained alive cid) (sm, out) matching \<noteq> Inl e"
  using assms
proof (induction matching arbitrary: sm)
  case (Cons m matching)
  obtain p q where m: "m = (p, q)"
    by (cases m)
  let ?sm = "sm\<lparr>sm_retained := AList.update (topic p) p (sm_retained sm)\<rparr>"
  have "publish_retained alive cid (sm, out) m = Inr (?sm, out)"
    using Cons.prems(1) Cons.prems(2) [of p q] by (simp add: m publish_retained_def session_publish_def)
  then show ?case
    using Cons.IH [of ?sm] Cons.prems by (simp del: not_None_eq) blast
qed simp

lemma length_messages_for:
  assumes "retained_ok ms" "\<forall>x \<in> set (subscriptions s). well_formed_filter (topic_filter x)"
    and "messages_for ms s = Inr matching"
  shows "length matching \<le> length ms"
proof -
  obtain rs where rs: "fold_result messages_for_visit [] (List.product ms (subscriptions s)) = Inr rs"
    "distinct (map fst rs)" "\<And>t m q. ((t, m), q) \<in> set rs \<Longrightarrow> (t, m) \<in> set ms"
    using retained_matches [OF assms(1,2)] by blast
  have "length matching = length rs"
    using assms(3) rs(1) by (auto simp: messages_for_def fold_result_nested)
  also have "\<dots> = card (set (map fst rs))"
    using distinct_card [OF rs(2)] by simp
  also have "\<dots> \<le> card (set ms)"
    using rs(3) by (intro card_mono) auto
  also have "\<dots> \<le> length ms"
    by (rule card_length)
  finally show ?thesis .
qed

lemma sm_client_subscribed_fails:
  assumes "sm_ok sm" "\<forall>x \<in> set (subscriptions subscr). well_formed_filter (topic_filter x)"
    and "sm_client_subscribed alive cid subscr sm = Inl e"
  shows "\<exists>s. sm_sessions sm cid = Some s \<and> alive (session_connection s) \<and> identifiers_taken (length (sm_retained sm)) s"
proof -
  let ?sm = "sm\<lparr>sm_subscriptions := fst (subscribe_client (sm_subscriptions sm) cid subscr)\<rparr>"
  obtain s where s: "sm_sessions sm cid = Some s"
    using assms(3) by (auto simp: sm_client_subscribed_def Let_def split: prod.splits option.splits)
  let ?step = "session_send alive cid s (Suback (subscribe_succeed subscr)) ?sm"
  have kept: "sm_retained (fst ?step) = sm_retained sm"
    by (simp add: session_send_def sm_destroy_def)
  obtain matching where m: "messages_for (sm_retained sm) subscr = Inr matching"
    using messages_for_total [OF assms(2)] by blast
  have fails: "fold_result (publish_retained alive cid) ?step matching = Inl e"
    using assms(3) s m kept by (auto simp: sm_client_subscribed_def subscribe_client_def Let_def split: prod.splits)
  have entries: "forwardable p \<and> publish_retain p" if "(p, q) \<in> set matching" for p q
    using messages_for_subset [OF m] that assms(1) by (fastforce simp: sm_ok_def retained_ok_def)
  have alive: "alive (session_connection s)"
  proof (rule ccontr)
    assume gone: "\<not> alive (session_connection s)"
    have cid: "session_client_id s = cid"
      using sm_ok_session [OF assms(1) s] by (simp add: session_ok_def)
    have "?step = (sm_destroy cid ?sm, [])"
      using gone cid by (simp add: session_send_def)
    then show False
      using publish_retained_no_session [of "sm_destroy cid ?sm" cid matching alive "[]"] entries fails
      by (simp add: sm_destroy_def)
  qed
  then have step: "?step = (?sm, to_conn (session_connection s) [Send (Suback (subscribe_succeed subscr))])"
    by (simp add: session_send_def)
  have there: "sm_sessions ?sm cid = Some s"
    using s by simp
  have "identifiers_taken (length matching) s"
    using publish_retained_fails [OF fails [unfolded step] there] entries by blast
  moreover have "length matching \<le> length (sm_retained sm)"
    using length_messages_for [OF _ assms(2) m] assms(1) by (simp add: sm_ok_def)
  ultimately show ?thesis
    using s alive identifiers_taken_mono by blast
qed

section \<open>The dispatcher\<close>

text \<open>The acknowledgement does not fit the publication it names.\<close>

definition unfit_acknowledgement :: "(conn \<Rightarrow> bool) \<Rightarrow> session_manager \<Rightarrow> string \<Rightarrow> publish_ack \<Rightarrow> bool" where
  "unfit_acknowledgement alive sm cid ack \<longleftrightarrow>
     (\<exists>s p. sm_sessions sm cid = Some s \<and> alive (session_connection s) \<and>
        tx_publications (session_tx s) (ack_packet_identifier ack) = Some p \<and> tx_rejects (Ack ack) p)"

lemma session_acked_fails:
  assumes "sm_ok sm" "header_type ack = PUBACK \<or> header_type ack = PUBREC \<or> header_type ack = PUBCOMP"
    and "session_acked alive cid ack sm = Inl e"
  shows "unfit_acknowledgement alive sm cid ack"
proof -
  obtain s where s: "sm_sessions sm cid = Some s" "tx_ack_received (alive (session_connection s)) ack (session_tx s) = Inl e"
    using assms(3) by (auto simp: session_acked_def result_simps split: option.splits)
  have "tx_ok (session_tx s)"
    using sm_ok_session [OF assms(1) s(1)] by (simp add: session_ok_def)
  then show ?thesis
    using tx_ack_received_fails_iff [of "session_tx s" ack _ e] assms(2) s by (auto simp: unfit_acknowledgement_def)
qed

text \<open>
  The packet fails an assertion. PINGREQ and the packets only servers send have no branch in the
  dispatcher; the connection never hands them over.
\<close>

definition packet_aborts :: "(conn \<Rightarrow> bool) \<Rightarrow> session_manager \<Rightarrow> string \<Rightarrow> mqtt_packet \<Rightarrow> bool" where
  "packet_aborts alive sm cid packet \<longleftrightarrow>
     (case packet of
        Connect con \<Rightarrow> connect_contains_last_will con \<and> connect_retain_last_will con
      | Publish p \<Rightarrow> \<exists>cid'. unserved alive sm (topic p) cid'
      | Subscribe s \<Rightarrow> \<exists>sess. sm_sessions sm cid = Some sess \<and> alive (session_connection sess) \<and>
          identifiers_taken (length (sm_retained sm)) sess
      | Puback ack \<Rightarrow> unfit_acknowledgement alive sm cid ack
      | Pubrec ack \<Rightarrow> unfit_acknowledgement alive sm cid ack
      | Pubcomp ack \<Rightarrow> unfit_acknowledgement alive sm cid ack
      | Disconnect d \<Rightarrow> False
      | Unsubscribe u \<Rightarrow> False
      | Pubrel ack \<Rightarrow> False
      | _ \<Rightarrow> True)"

lemma handle_packet_received_fails:
  assumes "sm_ok sm" "dispatchable conn_client_id pc"
    and "handle_packet_received alive conn_client_id pc sm = Inl e"
  shows "packet_aborts alive sm (pc_client_id pc) (pc_packet pc)"
proof -
  note fail = assms(3) [unfolded handle_packet_received_eq [OF assms(2)]]
  have wt: "well_typed (pc_packet pc)"
    using assms(2) by (simp add: dispatchable_def)
  show ?thesis
  proof (cases "pc_packet pc")
    case (Connect con)
    then show ?thesis
      using fail handle_connect_ok [OF assms(1), of conn_client_id "pc_connection pc" con alive] assms(2)
      by (auto simp: packet_aborts_def dispatchable_def no_effects_def result_simps)
  next
    case (Publish p)
    then show ?thesis
      using fail sm_client_published_fails [OF assms(1)] assms(2)
      by (auto simp: packet_aborts_def dispatchable_def)
  next
    case (Subscribe s)
    then show ?thesis
      using fail sm_client_subscribed_fails [OF assms(1)] assms(2)
      by (auto simp: packet_aborts_def dispatchable_def)
  next
    case (Pubrel p)
    then show ?thesis
      using fail sm_client_released_publish_ok [OF assms(1), of alive "pc_client_id pc" p] by auto
  next
    case (Puback p)
    then show ?thesis
      using fail wt session_acked_fails [OF assms(1)] header_type_well_typed(1) by (simp add: packet_aborts_def)
  next
    case (Pubrec p)
    then show ?thesis
      using fail wt session_acked_fails [OF assms(1)] header_type_well_typed(2) by (simp add: packet_aborts_def)
  next
    case (Pubcomp p)
    then show ?thesis
      using fail wt session_acked_fails [OF assms(1)] header_type_well_typed(3) by (simp add: packet_aborts_def)
  qed (use fail in \<open>simp_all add: packet_aborts_def\<close>)
qed

end
