(* ===== verification/Server_Assertions.thy ===== *)
theory Server_Assertions
  imports Server_Properties Assertions
begin

text \<open>
  Which events fail an assertion and abort the server: every callback of a connection is followed down to
  the request of the dispatcher that fails (\<open>Assertions\<close>). With the theorem \<open>what_ends_the_process\<close> this
  is the complete list of the ways the process can end.
\<close>

section \<open>Callbacks that close a connection\<close>

definition con_closing_aborts :: "(conn \<Rightarrow> bool) \<Rightarrow> session_manager \<Rightarrow> connection \<Rightarrow> bool" where
  "con_closing_aborts alive sm con \<longleftrightarrow> (\<exists>cid. con_client_id con = Some cid \<and> closing_aborts alive sm cid)"

lemma con_closing_aborts_same:
  "con_closing_aborts alive sm con' \<Longrightarrow> con_client_id con' = con_client_id con \<Longrightarrow> con_closing_aborts alive sm con"
  by (simp add: con_closing_aborts_def)

lemma dispatch_disconnect_asserts_not:
  "dispatch_disconnect_packet env self con sm \<noteq> Inl Assertion_failed"
  by (cases "con_client_id con") (simp_all add: dispatch_disconnect_packet_eq)

lemma close_fails:
  assumes "sm_ok sm" "connection_close_requested env self reason con sm = Inl Assertion_failed"
  shows "con_closing_aborts (env_alive env) sm con"
  using assms(2) disconnected_ungracefully_fails [OF assms(1)] dispatch_disconnect_asserts_not
  by (auto simp: connection_close_requested_def con_closing_aborts_def result_simps split: option.splits if_splits)

lemma simple_callbacks_fail:
  assumes "sm_ok sm"
  shows "connect_timeout_expired env self ec con sm = Inl Assertion_failed \<Longrightarrow> con_closing_aborts (env_alive env) sm con"
    and "on_packet_written env self ec con sm = Inl Assertion_failed \<Longrightarrow> con_closing_aborts (env_alive env) sm con"
    and "ec \<noteq> Network_error \<Longrightarrow> handle_keep_alive_timeout env self ec con sm = Inl Assertion_failed \<Longrightarrow>
      con_closing_aborts (env_alive env) sm con"
    and "on_last_packet_written env self ec con sm = Inl Assertion_failed \<Longrightarrow> con_closing_aborts (env_alive env) sm con"
    and "ec \<noteq> Success \<Longrightarrow> on_frame_read env self ec con sm = Inl Assertion_failed \<Longrightarrow>
      con_closing_aborts (env_alive env) sm con"
  using close_fails [OF assms, THEN con_closing_aborts_same]
  by (auto simp: connect_timeout_expired_def on_packet_written_def handle_keep_alive_timeout_def
      on_last_packet_written_def on_frame_read_def on_read_failed_def Let_def
      split: completion.splits option.splits if_splits)

section \<open>Packets\<close>

text \<open>The request of a client that is connected, or its first CONNECT, fails.\<close>

definition request_aborts :: "(conn \<Rightarrow> bool) \<Rightarrow> session_manager \<Rightarrow> connection \<Rightarrow> mqtt_packet \<Rightarrow> bool" where
  "request_aborts alive sm con p \<longleftrightarrow>
     (case con_client_id con of
        None \<Rightarrow> \<exists>k. p = Connect k \<and> connect_contains_last_will k \<and> connect_retain_last_will k
      | Some cid \<Rightarrow> packet_aborts alive sm cid p)"

lemma dispatch_to_fails:
  assumes "sm_ok sm" "con_client_id con = Some cid" "dispatch_to env self p con sm = Inl e"
    and "dispatchable ((env_client_id env)(self \<mapsto> cid)) \<lparr>pc_client_id = cid, pc_connection = self, pc_packet = p\<rparr>"
  shows "packet_aborts (env_alive env) sm cid p"
  using handle_packet_received_fails [OF assms(1,4)] assms(2,3) by (simp add: dispatch_to_def)

lemma process_connect_fails:
  assumes "sm_ok sm" "process_connect_packet env self k con sm = Inl Assertion_failed" "lwt_ok k"
    and "well_typed (Connect k)"
  shows "con_closing_aborts (env_alive env) sm con \<or> request_aborts (env_alive env) sm con (Connect k)"
proof (cases "con_client_id con")
  case (Some cid)
  then show ?thesis
    using assms(2) close_fails [OF assms(1)] by (simp add: process_connect_packet_eq)
next
  case None
  then obtain d where "dispatch_to env self (Connect k) (authenticated k d con) sm = Inl Assertion_failed"
    using assms(2) remote_endpoint_cases [of "con_socket con"]
    by (cases "peer_known (con_socket con)")
      (auto simp: process_connect_packet_eq result_simps descriptions_throw_iff
        write_packet_and_close_connection_def split: if_splits)
  moreover have "dispatchable ((env_client_id env)(self \<mapsto> client_id k))
      \<lparr>pc_client_id = client_id k, pc_connection = self, pc_packet = Connect k\<rparr>"
    using assms(3,4) by (simp add: dispatchable_def)
  ultimately have "packet_aborts (env_alive env) sm (client_id k) (Connect k)"
    using dispatch_to_fails [OF assms(1), of "authenticated k d con" "client_id k"] by simp
  then show ?thesis
    using None by (simp add: request_aborts_def packet_aborts_def)
qed

lemma process_decoded_fails:
  assumes "callback_pre env self con sm" "decode_packet buf f = Inr p"
    and "frame_ok (env_read_buffer_size env) f"
    and "process_decoded_packet env self p con sm = Inl Assertion_failed"
  shows "con_closing_aborts (env_alive env) sm con \<or> request_aborts (env_alive env) sm con p"
proof -
  have pre: "sm_ok sm" "env_read_buffer_size env \<le> 268435455"
    using assms(1) by (simp_all add: callback_pre_def)
  have wt: "well_typed p" "client_sent (packet_type p)"
    using decode_packet_well_typed [OF assms(2)] decode_packet_class [OF assms(2)] assms(2)
      decode_packet_unsupported [of f buf] by (auto simp: well_typed_def)
  show ?thesis
  proof (cases "packet_type p = CONNECT")
    case True
    then obtain k where k: "p = Connect k"
      using wt(1) by (cases p) (simp_all add: well_typed_def)
    have "process_connect_packet env self k con sm = Inl Assertion_failed"
      using assms(4) True by (auto simp: process_decoded_packet_def k result_simps)
    from process_connect_fails [OF pre(1) this decoded_connect_lwt_ok] show ?thesis
      using assms(2) wt(1) k by simp
  next
    case False
    then have "dispatch_to env self p con sm = Inl Assertion_failed"
      using assms(4) wt(2) dispatch_disconnect_asserts_not
      by (auto simp: process_decoded_packet_def Let_def client_sent_def result_simps split: if_splits)
    moreover obtain cid where cid: "con_client_id con = Some cid"
      using calculation by (cases "con_client_id con") (auto simp: dispatch_to_None)
    moreover have no_connect: "p \<noteq> Connect k" for k
      using False wt(1) by (auto simp: well_typed_def)
    have "dispatchable ((env_client_id env)(self \<mapsto> cid)) \<lparr>pc_client_id = cid, pc_connection = self, pc_packet = p\<rparr>"
      by (rule decoded_dispatchable [OF assms(2,3) pre(2)]) (use no_connect in blast)
    ultimately show ?thesis
      using dispatch_to_fails [OF pre(1)] by (simp add: request_aborts_def)
  qed
qed

section \<open>Bytes\<close>

text \<open>The read buffer is full and the frame reader wants more; then no frame is there to decode.\<close>

definition buffer_too_small :: "connection \<Rightarrow> byte list \<Rightarrow> bool" where
  "buffer_too_small con chunk \<longleftrightarrow>
     con_transferred con + length chunk = length (reader_buffer (con_reader con)) \<and>
     (\<exists>k r'. frame_reader_call False (con_transferred con + length chunk)
        (store_chunk (con_transferred con) chunk (con_reader con)) = Inr (k, r') \<and> k \<noteq> 0)"

text \<open>An error of the decoder is not a failed assertion.\<close>

lemma completed_frame_decoded:
  assumes "callback_pre env self con sm" "length chunk \<le> bytes_wanted con"
    and "completed_frame con chunk = Some (buf, f)"
    and "bytes_received env self chunk con sm = Inl Assertion_failed"
  shows "(\<exists>p. decode_packet buf f = Inr p) \<or> (\<exists>m. decode_packet buf f = Inl (Malformed m))"
proof (cases "decode_packet buf f")
  case (Inl e)
  obtain r' where r': "reader_answered chunk con 0 r'"
    "reader_buffer r' = buf" "reader_frame r' = Some f" "length buf = length (reader_buffer (con_reader con))"
    using completed_frame_call [OF assms(3)] by (auto simp: reader_answered_def)
  have pre: "connection_ok (env_read_buffer_size env) con" "length (reader_buffer (con_reader con)) = env_read_buffer_size env"
    using assms(1) by (simp_all add: callback_pre_def connection_ok_def)
  have n: "con_transferred con + length chunk \<le> length (reader_buffer (con_reader con))"
    using bytes_wanted_le [OF pre(1) assms(2)] pre(2) by simp
  have f: "in_bounds buf f"
    using completed_frame_ok [OF assms(1-3)] by (simp add: in_bounds_def frame_ok_def)
  have "e \<noteq> Assertion_failed"
    using decode_packet_fails [OF f] Inl by (auto simp: fails_only_def decoding_failure_def)
  then have "\<exists>m. e = Malformed m"
    using assms(4) Inl r'(2-4) bytes_received_answered [OF r'(1) _ n, of env self sm]
    by (auto simp: decode_and_process_def get_frame_def split: error.splits)
  then show ?thesis
    using Inl by blast
qed simp

lemma bytes_received_aborts:
  assumes "callback_pre env self con sm" "con_reading con" "length chunk \<le> bytes_wanted con"
    and "bytes_received env self chunk con sm = Inl Assertion_failed"
  shows "con_closing_aborts (env_alive env) sm con \<or> buffer_too_small con chunk \<or>
    (\<exists>buf f p. completed_frame con chunk = Some (buf, f) \<and> decode_packet buf f = Inr p \<and>
       request_aborts (env_alive env) sm con p)"
proof (cases "completed_frame con chunk")
  case (Some x)
  then obtain buf f where f: "completed_frame con chunk = Some (buf, f)"
    by (cases x) auto
  have sm: "sm_ok sm" "env_read_buffer_size env \<le> 268435455"
    using assms(1) by (simp_all add: callback_pre_def)
  from completed_frame_decoded [OF assms(1,3) f assms(4)] show ?thesis
  proof (elim disjE exE)
    fix p assume p: "decode_packet buf f = Inr p"
    let ?con = "after_frame (env_read_buffer_size env) buf chunk con"
    have "process_decoded_packet env self p ?con sm = Inl Assertion_failed"
      using assms(4) bytes_received_packet [OF assms(1,3) f p] by simp
    moreover have "callback_pre env self ?con sm"
      using assms(1) bytes_wanted_le [OF _ assms(3)] by (auto simp: callback_pre_def connection_ok_def after_frame_def)
    moreover have "frame_ok (env_read_buffer_size env) f"
      using completed_frame_ok [OF assms(1,3) f] by simp
    ultimately have "con_closing_aborts (env_alive env) sm ?con \<or> request_aborts (env_alive env) sm ?con p"
      using process_decoded_fails p by blast
    then show ?thesis
      using f p by (auto simp: con_closing_aborts_def request_aborts_def)
  next
    fix m assume "decode_packet buf f = Inl (Malformed m)"
    then obtain con' where "con_client_id con' = con_client_id con"
      "connection_close_requested env self protocol_violation con' sm = Inl Assertion_failed"
      using assms(4) bytes_received_malformed [OF assms(1,3) f] by metis
    then show ?thesis
      using close_fails [OF sm(1)] con_closing_aborts_same by blast
  qed
next
  case None
  have pre: "connection_ok (env_read_buffer_size env) con" "length (reader_buffer (con_reader con)) = env_read_buffer_size env"
    using assms(1) by (simp_all add: callback_pre_def connection_ok_def)
  let ?r = "store_chunk (con_transferred con) chunk (con_reader con)"
  have n: "con_transferred con + length chunk \<le> length (reader_buffer (con_reader con))"
    using bytes_wanted_le [OF pre(1) assms(3)] pre(2) by simp
  then have size: "length (reader_buffer ?r) = length (reader_buffer (con_reader con))"
    by (rule length_store_chunk)
  show ?thesis
  proof (cases "frame_reader_call False (con_transferred con + length chunk) ?r")
    case (Inl e)
    then show ?thesis
      using assms(4) frame_reader_call_fails [of "con_transferred con + length chunk" ?r] n size
      by (simp add: bytes_received_def Let_def fails_only_def)
  next
    case (Inr x)
    then obtain k r' where k: "frame_reader_call False (con_transferred con + length chunk) ?r = Inr (k, r')"
      by (cases x) auto
    have same: "length (reader_buffer r') = length (reader_buffer (con_reader con))"
    proof (rule ccontr)
      assume "length (reader_buffer r') \<noteq> length (reader_buffer (con_reader con))"
      then show False
        using assms(4) k size by (simp add: bytes_received_def Let_def)
    qed
    have "k \<noteq> 0"
    proof
      assume "k = 0"
      then show False
        using None k same frame_reader_call_ok [OF k] size pre(2) assms(1)
        by (auto simp: completed_frame_def get_frame_def callback_pre_def)
    qed
    then show ?thesis
      using assms(4) k same size by (auto simp: bytes_received_def Let_def buffer_too_small_def split: if_splits)
  qed
qed

section \<open>Events\<close>

text \<open>The connection whose callback an event runs.\<close>

fun event_connection :: "server_event \<Rightarrow> conn option" where
  "event_connection (Received c chunk) = Some c"
| "event_connection (Read_failed c ec) = Some c"
| "event_connection (Connect_timer c ec) = Some c"
| "event_connection (Keep_alive_timer c ec) = Some c"
| "event_connection (Written c ec) = Some c"
| "event_connection (Last_written c ec) = Some c"
| "event_connection ev = None"


text \<open>Client \<open>a\<close> connects with a retained last will.\<close>

definition connecting_with_will :: "(bool \<times> server_event) list" where
  "connecting_with_will = [(False, client_arrives), (False, Received 0 [0x10]), (False, Received 0 [19])]"

definition retained_will :: "byte list" where
  "retained_will = [0, 4, 77, 81, 84, 84, 4, 0x26, 0, 0, 0, 1, 97, 0, 1, 116, 0, 1, 120]"

lemma connecting_with_will_observed:
  "observe connecting_with_will (\<lambda>s. (enabled (Received 0 retained_will) s,
     map_option (\<lambda>con. (con_client_id con, con_transferred con + length retained_will, length (reader_buffer (con_reader con))))
       (srv_objects s 0),
     map_sum id snd (server_handle sample_config False (Received 0 retained_will) s)))
   = Some ([], True, Some (None, 21, 32), Inl Assertion_failed)"
  by code_simp


end
