(* ===== verification/Io_Service_Pool.thy ===== *)
theory Io_Service_Pool
  imports Wally_Prelude
begin

text \<open>
  The pool of \<^verbatim>\<open>asio::io_service\<close> objects of \<^verbatim>\<open>concurrency/io_service_pool.hpp\<close>. The pool is used by
  several threads at a time, so \<^verbatim>\<open>io_service( )\<close> is not a function here but a small program: one step for
  every access to the atomic counter. \<open>pool_runs\<close> interleaves the steps of any number of threads.
  \<^verbatim>\<open>stop( )\<close> is given twice, as a function for the one thread that normally calls it and step by step for
  two that call it at a time.

  An \<^verbatim>\<open>io_service\<close> of asio is two facts: whether a work object keeps it busy and whether it was
  stopped; \<^verbatim>\<open>run( )\<close> of a stopped service returns, which is all that \<^verbatim>\<open>join( )\<close> needs.
\<close>

section \<open>State\<close>

type_synonym size_t = "64 word"

record service =
  service_work :: bool
  service_stopped :: bool

text \<open>A thread of the pool: the service it runs, and whether it can still be joined.\<close>

record pool_thread =
  thread_service :: nat
  thread_joinable :: bool

record pool =
  pool_name :: string
  pool_size :: size_t
  io_services :: "service list"
  pool_threads :: "pool_thread list"
  next_io_service :: size_t
  pool_running :: bool

definition new_pool :: "string \<Rightarrow> size_t \<Rightarrow> pool result" where
  "new_pool name n =
     rbind (cpp_assert (n > 0)) (\<lambda>_.
     Inr \<lparr>pool_name = name, pool_size = n,
          io_services = replicate (unat n) \<lparr>service_work = True, service_stopped = False\<rparr>,
          pool_threads = [], next_io_service = 0, pool_running = True\<rparr>)"

section \<open>Running and stopping\<close>

definition pool_run :: "pool \<Rightarrow> pool" where
  "pool_run p =
     p\<lparr>pool_threads := pool_threads p @
         map (\<lambda>i. \<lparr>thread_service = i, thread_joinable = True\<rparr>) [0..<unat (pool_size p)]\<rparr>"

text \<open>Joining waits for the thread, for ever if the service it runs is never stopped: \<open>None\<close>.\<close>

definition join_thread :: "service list \<Rightarrow> pool_thread \<Rightarrow> pool_thread option" where
  "join_thread services th =
     (if \<not> thread_joinable th then Some th
      else if service_stopped (services ! thread_service th) then Some (th\<lparr>thread_joinable := False\<rparr>)
      else None)"

definition pool_stop :: "pool \<Rightarrow> pool option" where
  "pool_stop p =
     (let services = map (\<lambda>s. s\<lparr>service_work := False\<rparr>) (io_services p);
          services = map (\<lambda>s. s\<lparr>service_stopped := True\<rparr>) services
      in Option.bind (those (map (join_thread services) (pool_threads p))) (\<lambda>threads.
         Some (p\<lparr>io_services := services, pool_threads := threads, pool_running := False\<rparr>)))"

section \<open>Handing out services\<close>

text \<open>
  A call of \<^verbatim>\<open>io_service( )\<close>: about to increment the counter; having seen \<open>next\<close>, about to load it;
  having loaded \<open>seen\<close>, about to exchange it; returned the service with an index.
\<close>

datatype io_call = Fetch | Load size_t | Exchange size_t size_t | Returned nat

definition pick :: "pool \<Rightarrow> size_t \<Rightarrow> io_call" where
  "pick p next = Returned (unat (next mod pool_size p))"

text \<open>
  The loop goes on when the exchange succeeds and ends when another thread got in between.
\<close>

fun io_service_step :: "pool \<Rightarrow> io_call \<Rightarrow> pool \<times> io_call" where
  "io_service_step p Fetch =
     (let next = next_io_service p; p' = p\<lparr>next_io_service := next + 1\<rparr>
      in if next \<ge> pool_size p then (p', Load next) else (p', pick p next))"
| "io_service_step p (Load next) =
     (let seen = next_io_service p
      in if seen < pool_size p then (p, pick p next) else (p, Exchange next seen))"
| "io_service_step p (Exchange next seen) =
     (if next_io_service p = seen
      then (p\<lparr>next_io_service := seen mod pool_size p\<rparr>, Load next)
      else (p, pick p next))"
| "io_service_step p (Returned i) = (p, Returned i)"

text \<open>A call without interference: the steps of one thread until it returns, at most \<open>fuel\<close> of them.\<close>

fun io_service_alone :: "nat \<Rightarrow> pool \<Rightarrow> io_call \<Rightarrow> (pool \<times> nat) option" where
  "io_service_alone fuel p (Returned i) = Some (p, i)"
| "io_service_alone 0 p c = None"
| "io_service_alone (Suc fuel) p c = (case io_service_step p c of (p', c') \<Rightarrow> io_service_alone fuel p' c')"

text \<open>The interleavings of the calls of any number of threads; a thread that has returned may call again.\<close>

inductive pool_runs :: "pool \<Rightarrow> pool \<Rightarrow> (nat \<Rightarrow> io_call) \<Rightarrow> bool" for start :: pool where
  pool_start: "pool_runs start start (\<lambda>t. Fetch)"
| pool_step: "\<lbrakk>pool_runs start p calls; io_service_step p (calls t) = (p', c)\<rbrakk>
     \<Longrightarrow> pool_runs start p' (calls(t := c))"
| pool_again: "\<lbrakk>pool_runs start p calls; calls t = Returned i\<rbrakk>
     \<Longrightarrow> pool_runs start p (calls(t := Fetch))"

text \<open>The results of a number of calls, one after the other.\<close>

fun calls_in_turn :: "nat \<Rightarrow> pool \<Rightarrow> (pool \<times> nat list) option" where
  "calls_in_turn 0 p = Some (p, [])"
| "calls_in_turn (Suc k) p =
     Option.bind (calls_in_turn k p) (\<lambda>(p', is).
     map_option (\<lambda>(p'', i). (p'', is @ [i])) (io_service_alone 4 p' Fetch))"

section \<open>The services handed out exist\<close>

definition pool_ok :: "size_t \<Rightarrow> pool \<Rightarrow> bool" where
  "pool_ok n p \<longleftrightarrow> 0 < n \<and> pool_size p = n \<and> length (io_services p) = unat n"

fun call_ok :: "size_t \<Rightarrow> io_call \<Rightarrow> bool" where
  "call_ok n (Returned i) \<longleftrightarrow> i < unat n"
| "call_ok n c \<longleftrightarrow> True"

lemma new_pool_ok: "new_pool name n = Inr p \<Longrightarrow> pool_ok n p \<and> next_io_service p = 0"
  by (auto simp: new_pool_def pool_ok_def result_simps)

lemma pick_ok: "pool_ok n p \<Longrightarrow> call_ok n (pick p next)"
  by (simp add: pick_def pool_ok_def unat_mod word_less_nat_alt)

lemma io_service_step_ok:
  "\<lbrakk>pool_ok n p; call_ok n c; io_service_step p c = (p', c')\<rbrakk> \<Longrightarrow> pool_ok n p' \<and> call_ok n c'"
  using pick_ok [of n p] by (cases c) (auto simp: pool_ok_def Let_def split: if_splits)

lemma pool_runs_ok:
  "\<lbrakk>pool_runs start p calls; pool_ok n start\<rbrakk> \<Longrightarrow> pool_ok n p \<and> (\<forall>t. call_ok n (calls t))"
  by (induction rule: pool_runs.induct) (auto dest: io_service_step_ok)

section \<open>Calls one after the other\<close>

lemma unat_successor: "(v :: size_t) + 1 \<noteq> 0 \<Longrightarrow> unat (v + 1) = unat v + 1"
  by (metis Suc_eq_plus1 add.commute unatSuc)

lemma successor_nonzero: "(v :: size_t) < w \<Longrightarrow> v + 1 \<noteq> 0"
  by (metis add.commute max_word_wrap word_order.extremum_strict)

lemma io_service_alone_eq:
  assumes "pool_ok n p" "n + 1 \<noteq> 0" "next_io_service p \<le> n"
  shows "\<exists>p'. io_service_alone 4 p Fetch = Some (p', unat (next_io_service p) mod unat n) \<and>
    pool_ok n p' \<and> next_io_service p' \<le> n \<and>
    unat (next_io_service p') mod unat n = (unat (next_io_service p) + 1) mod unat n"
proof (cases "next_io_service p < n")
  case True
  then have v: "unat (next_io_service p + 1) = unat (next_io_service p) + 1"
    using unat_successor successor_nonzero by blast
  then have "next_io_service p + 1 \<le> n"
    using True by (simp add: word_le_nat_alt word_less_nat_alt)
  then show ?thesis
    using True assms(1) v by (auto simp: pool_ok_def pick_def numeral_eq_Suc unat_mod Let_def)
next
  case False
  then have at_n: "next_io_service p = n"
    using assms(3) by simp
  have n: "0 < n" "pool_size p = n"
    using assms(1) by (simp_all add: pool_ok_def)
  have above: "\<not> n + 1 < n"
    using assms(2) by (simp add: word_less_nat_alt unat_successor)
  have "(n + 1) mod n < n"
    using n(1) by (simp add: word_less_nat_alt unat_mod)
  then show ?thesis
    using at_n n above assms(1) unat_successor [OF assms(2)]
    by (auto simp: pool_ok_def pick_def numeral_eq_Suc unat_mod Let_def)
qed

lemma calls_in_turn_eq:
  assumes "pool_ok n p" "n + 1 \<noteq> 0" "next_io_service p = 0"
  shows "\<exists>p'. calls_in_turn k p = Some (p', map (\<lambda>i. i mod unat n) [0..<k]) \<and>
    pool_ok n p' \<and> next_io_service p' \<le> n \<and> unat (next_io_service p') mod unat n = k mod unat n"
proof (induction k)
  case (Suc k)
  then obtain p' where p': "calls_in_turn k p = Some (p', map (\<lambda>i. i mod unat n) [0..<k])" "pool_ok n p'"
    "next_io_service p' \<le> n" "unat (next_io_service p') mod unat n = k mod unat n"
    by blast
  from io_service_alone_eq [OF p'(2) assms(2) p'(3)]
  show ?case
    using p'(1,4) by (auto simp: mod_Suc_eq) (metis mod_Suc_eq)
qed (use assms in \<open>simp add: pool_ok_def\<close>)

section \<open>Calls that interfere\<close>

text \<open>
  Two threads drive the counter to any value: while one is about to exchange the value it has seen, the
  other increments the counter, so the exchange fails, and the two change roles.
\<close>

lemma counter_up_to_size:
  assumes "pool_ok n p" "next_io_service p = 0" "unat w \<le> unat n"
  shows "\<exists>p'. pool_runs p p' (\<lambda>t. Fetch) \<and> pool_ok n p' \<and> next_io_service p' = w"
  using assms(3)
proof (induction "unat w" arbitrary: w)
  case 0
  then have "w = 0"
    by (simp add: unat_eq_0)
  then show ?case
    using pool_start [of p] assms(1,2) by blast
next
  case (Suc k)
  have "w \<noteq> 0"
    using Suc(2) by auto
  then have k: "k = unat (w - 1)" "w - 1 < n"
    using Suc(2,3) unat_minus_one [of w] by (auto simp: word_less_nat_alt)
  then obtain p' where p': "pool_runs p p' (\<lambda>t. Fetch)" "pool_ok n p'" "next_io_service p' = w - 1"
    using Suc.hyps(1) [of "w - 1"] by (auto simp: word_less_nat_alt)
  let ?p = "p'\<lparr>next_io_service := w\<rparr>"
  have "pool_runs p ?p ((\<lambda>t. Fetch)(0 := pick p' (w - 1)))"
    using pool_step [OF p'(1), where t = 0] k(2) p'(2,3) by (auto simp: pool_ok_def Let_def not_le [symmetric])
  from pool_again [OF this, where t = 0] have "pool_runs p ?p (\<lambda>t. Fetch)"
    by (simp add: pick_def fun_upd_idem)
  then show ?case
    using p'(2) by (intro exI [of _ ?p]) (simp add: pool_ok_def)
qed

definition duel :: "pool \<Rightarrow> size_t \<Rightarrow> size_t \<Rightarrow> pool \<Rightarrow> bool" where
  "duel start n w p \<longleftrightarrow> pool_ok n p \<and> next_io_service p = w \<and>
     (\<exists>x y nx. x \<noteq> y \<and> pool_runs start p ((\<lambda>t. Fetch)(x := Exchange nx w)))"

text \<open>Thread \<open>y\<close> increments and loads; the exchange of \<open>x\<close> then fails, and \<open>x\<close> calls again.\<close>

lemma duel_goes_on:
  assumes "duel start n w p" "n \<le> w" "w + 1 \<noteq> 0"
  shows "duel start n (w + 1) (p\<lparr>next_io_service := w + 1\<rparr>)"
proof -
  obtain x y nx where xy: "x \<noteq> y" and r: "pool_runs start p ((\<lambda>t. Fetch)(x := Exchange nx w))"
    and p: "pool_size p = n" "next_io_service p = w" "pool_ok n p"
    using assms(1) by (auto simp: duel_def pool_ok_def)
  let ?p = "p\<lparr>next_io_service := w + 1\<rparr>"
  have above: "\<not> w + 1 < n"
    using assms(2,3) by (simp add: word_less_nat_alt word_le_nat_alt unat_successor)
  have "pool_runs start ?p ((\<lambda>t. Fetch)(x := Exchange nx w, y := Load w))"
    using pool_step [OF r, where t = y] xy p assms(2) by (simp add: Let_def)
  from pool_step [OF this, where t = y]
  have "pool_runs start ?p ((\<lambda>t. Fetch)(x := Exchange nx w, y := Exchange w (w + 1)))"
    using above p by (simp add: Let_def)
  from pool_step [OF this, where t = x]
  have "pool_runs start ?p ((\<lambda>t. Fetch)(x := Exchange nx w, y := Exchange w (w + 1), x := pick ?p nx))"
    using xy by simp
  from pool_again [OF this, where t = x]
  have "pool_runs start ?p ((\<lambda>t. Fetch)(y := Exchange w (w + 1)))"
    using xy by (simp add: pick_def fun_upd_twist) (simp add: fun_upd_def if_distrib cong: if_cong)
  then show ?thesis
    unfolding duel_def using xy p(3)
    by (intro conjI exI [of _ y] exI [of _ x] exI [of _ w]) (simp_all add: pool_ok_def)
qed

lemma duel_reaches:
  assumes "duel start n (n + 1) p" "n + 1 \<noteq> 0"
  shows "n + 1 \<le> w \<Longrightarrow> \<exists>p'. duel start n w p'"
proof (induction "unat w" arbitrary: w rule: less_induct)
  case less
  show ?case
  proof (cases "w = n + 1")
    case True
    then show ?thesis
      using assms(1) by blast
  next
    case False
    then have "n + 1 < w" "w \<noteq> 0"
      using less.prems by auto
    then have w: "w \<noteq> 0" "unat (w - 1) < unat w" "n + 1 \<le> w - 1"
      using unat_minus_one [of w] by (auto simp: word_le_nat_alt word_less_nat_alt)
    then obtain p' where "duel start n (w - 1) p'"
      using less.hyps by blast
    moreover have "n \<le> w - 1"
      using w(3) assms(2) by (simp add: word_le_nat_alt unat_successor)
    ultimately show ?thesis
      using duel_goes_on [of start n "w - 1" p'] w(1) by (auto simp: algebra_simps)
  qed
qed

lemma counter_reaches:
  assumes "pool_ok n p" "next_io_service p = 0" "n + 1 \<noteq> 0"
  shows "\<exists>p' calls. pool_runs p p' calls \<and> next_io_service p' = w"
proof (cases "unat w \<le> unat n")
  case True
  then show ?thesis
    using counter_up_to_size [OF assms(1,2)] by blast
next
  case False
  obtain p1 where p1: "pool_runs p p1 (\<lambda>t. Fetch)" "pool_ok n p1" "next_io_service p1 = n"
    using counter_up_to_size [OF assms(1,2), of n] by auto
  let ?p = "p1\<lparr>next_io_service := n + 1\<rparr>"
  have above: "\<not> n + 1 < n"
    using assms(3) by (simp add: word_less_nat_alt unat_successor)
  have "pool_runs p ?p ((\<lambda>t. Fetch)(0 := Load n))"
    using pool_step [OF p1(1), where t = 0] p1(2,3) by (simp add: pool_ok_def Let_def)
  from pool_step [OF this, where t = 0]
  have "pool_runs p ?p ((\<lambda>t. Fetch)(0 := Exchange n (n + 1)))"
    using above p1(2) by (simp add: pool_ok_def Let_def)
  then have "duel p n (n + 1) ?p"
    using p1(2) by (simp add: duel_def pool_ok_def) (intro exI [of _ "0 :: nat"] exI [of _ "Suc 0"] exI [of _ n] conjI, simp_all)
  moreover have "n + 1 \<le> w"
    using False assms(3) by (simp add: word_le_nat_alt unat_successor)
  ultimately obtain p' where "duel p n w p'"
    using duel_reaches assms(3) by blast
  then show ?thesis
    by (auto simp: duel_def)
qed

text \<open>
  C24. The pool hands out its own services only. Used by one thread at a time it does so in turn and its
  counter never exceeds the size of the pool, and a call returns after at most four accesses to the
  counter. Used by several threads every call still returns a service of the pool, but the counter is
  not bounded: since the loop that reduces it ends when its exchange fails and not when it succeeds,
  two threads drive it to any value.
\<close>

theorem pool_hands_out_its_services:
  assumes "new_pool name n = Inr p" "n + 1 \<noteq> 0"
  shows "(\<forall>k. \<exists>p'. calls_in_turn k p = Some (p', map (\<lambda>i. i mod unat n) [0..<k]) \<and>
            next_io_service p' \<le> n) \<and>
    (\<forall>p' calls t i. pool_runs p p' calls \<and> calls t = Returned i \<longrightarrow> i < length (io_services p')) \<and>
    (\<forall>w. \<exists>p' calls. pool_runs p p' calls \<and> next_io_service p' = w)"
proof (intro conjI allI impI)
  have p: "pool_ok n p" "next_io_service p = 0"
    using new_pool_ok [OF assms(1)] by simp_all
  show "\<exists>p'. calls_in_turn k p = Some (p', map (\<lambda>i. i mod unat n) [0..<k]) \<and> next_io_service p' \<le> n" for k
    using calls_in_turn_eq [OF p(1) assms(2) p(2), of k] by blast
  show "i < length (io_services p')" if "pool_runs p p' calls \<and> calls t = Returned i" for p' calls t i
    using pool_runs_ok [of p p' calls n] that p(1) by (auto simp: pool_ok_def dest: spec [of _ t])
  show "\<exists>p' calls. pool_runs p p' calls \<and> next_io_service p' = w" for w
    by (rule counter_reaches [OF p assms(2)])
qed

theorem pool_hands_out_its_services_witness:
  "\<exists>p p'. new_pool ''network'' 2 = Inr p \<and> calls_in_turn 5 p = Some (p', [0, 1, 0, 1, 0]) \<and>
     next_io_service p' \<le> 2"
proof -
  obtain p where p: "new_pool ''network'' 2 = Inr p"
    by (simp add: new_pool_def)
  from pool_hands_out_its_services [OF this] show ?thesis
    using p by (auto simp: upt_rec dest: spec [of _ 5])
qed

section \<open>Stopping\<close>

text \<open>\<^verbatim>\<open>stop( )\<close> after \<^verbatim>\<open>run( )\<close> returns: it stops every service before it waits for the threads.\<close>

lemma those_map_Some: "(\<And>x. x \<in> set xs \<Longrightarrow> f x = Some (g x)) \<Longrightarrow> those (map f xs) = Some (map g xs)"
  by (induction xs) simp_all

lemma pool_stop_returns:
  assumes "new_pool name n = Inr p"
  shows "\<exists>p'. pool_stop (pool_run p) = Some p' \<and> \<not> pool_running p' \<and>
    (\<forall>s \<in> set (io_services p'). service_stopped s) \<and> (\<forall>th \<in> set (pool_threads p'). \<not> thread_joinable th)"
proof -
  have p: "pool_ok n p" "pool_threads p = []"
    using assms new_pool_ok [OF assms] by (auto simp: new_pool_def result_simps)
  have "those (map (join_thread (map (\<lambda>s. s\<lparr>service_work := False, service_stopped := True\<rparr>) (io_services p)) \<circ>
        (\<lambda>i. \<lparr>thread_service = i, thread_joinable = True\<rparr>)) [0..<unat n]) =
      Some (map (\<lambda>i. \<lparr>thread_service = i, thread_joinable = False\<rparr>) [0..<unat n])"
    using p(1) by (intro those_map_Some) (simp add: join_thread_def pool_ok_def)
  then show ?thesis
    using p by (auto simp: pool_stop_def pool_run_def pool_ok_def comp_def Let_def)
qed

text \<open>
  \<^verbatim>\<open>stop( )\<close> itself is called by two threads when \<^verbatim>\<open>application::stop\<close> is used, since the main thread also
  stops the server once the connections are closed. The same function, step by step: \<^verbatim>\<open>join( )\<close> throws if
  the thread is not joinable.
\<close>

datatype stop_call = Stop_services | Test_joinable nat | Join nat | Set_stopped | Stop_returns | Stop_throws error

fun stop_step :: "pool \<Rightarrow> stop_call \<Rightarrow> (pool \<times> stop_call) option" where
  "stop_step p Stop_services =
     Some (p\<lparr>io_services := map (\<lambda>s. s\<lparr>service_work := False, service_stopped := True\<rparr>) (io_services p)\<rparr>,
           Test_joinable 0)"
| "stop_step p (Test_joinable i) =
     (if i = length (pool_threads p) then Some (p, Set_stopped)
      else if thread_joinable (pool_threads p ! i) then Some (p, Join i)
      else Some (p, Test_joinable (i + 1)))"
| "stop_step p (Join i) =
     (let th = pool_threads p ! i
      in if \<not> thread_joinable th then Some (p, Stop_throws System_error)
         else if service_stopped (io_services p ! thread_service th)
         then Some (p\<lparr>pool_threads := (pool_threads p)[i := th\<lparr>thread_joinable := False\<rparr>]\<rparr>, Test_joinable (i + 1))
         else None)"
| "stop_step p Set_stopped = Some (p\<lparr>pool_running := False\<rparr>, Stop_returns)"
| "stop_step p Stop_returns = None"
| "stop_step p (Stop_throws e) = None"

fun stop_schedule :: "nat list \<Rightarrow> pool \<Rightarrow> (nat \<Rightarrow> stop_call) \<Rightarrow> (pool \<times> (nat \<Rightarrow> stop_call)) option" where
  "stop_schedule [] p calls = Some (p, calls)"
| "stop_schedule (t # ts) p calls =
     Option.bind (stop_step p (calls t)) (\<lambda>(p', c). stop_schedule ts p' (calls(t := c)))"

text \<open>One caller after the other is fine; between test and join of one the other can join first.\<close>

definition stop_outcome :: "nat list \<Rightarrow> (stop_call \<times> stop_call \<times> bool) option" where
  "stop_outcome schedule =
     (case new_pool ''network'' 1 of Inl e \<Rightarrow> None | Inr p \<Rightarrow>
        map_option (\<lambda>(p', calls). (calls 0, calls 1, pool_running p'))
          (stop_schedule schedule (pool_run p) (\<lambda>t. Stop_services)))"

lemma stops_one_after_the_other:
  "stop_outcome [0, 0, 0, 0, 0, 1, 1, 1, 1] = Some (Stop_returns, Stop_returns, False)"
  by code_simp

lemma concurrent_stops_fail:
  "stop_outcome [0, 0, 1, 1, 0, 1] = Some (Test_joinable 1, Stop_throws System_error, True)"
  by code_simp

end
