(* ===== verification/Packet_Strings.thy ===== *)
theory Packet_Strings
  imports Connection
begin

text \<open>
  What the log shows: the \<^verbatim>\<open>to_string\<close> functions and stream output operators of the protocol classes
  and of \<^verbatim>\<open>dispatch/common.hpp\<close>. Output to a \<^verbatim>\<open>std::ostringstream\<close> is concatenation: an unsigned integer
  is written in decimal, a \<^verbatim>\<open>bool\<close> as 0 or 1. After \<^verbatim>\<open>seekp( pos - 1 )\<close> the next character replaces the last
  one written. The section on decimal numbers also serves \<^verbatim>\<open>std::to_string\<close> elsewhere.
\<close>

section \<open>Enumerations\<close>

definition bool_string :: "bool \<Rightarrow> string" where
  "bool_string b = (if b then ''1'' else ''0'')"

fun return_code_string :: "connect_return_code \<Rightarrow> string" where
  "return_code_string CONNECTION_ACCEPTED = ''Connection accepted''"
| "return_code_string UNACCEPTABLE_PROTOCOL_VERSION = ''Unacceptable protocol version''"
| "return_code_string IDENTIFIER_REJECTED = ''Identifier rejected''"
| "return_code_string SERVER_UNAVAILABLE = ''Server unavailable''"
| "return_code_string BAD_USERNAME_OR_PASSWORD = ''Bad username or password''"
| "return_code_string NOT_AUTHORIZED = ''Not authorized''"
| "return_code_string CONNECT_RESERVED = ''Reserved for future use''"

fun suback_code_string :: "suback_return_code \<Rightarrow> string" where
  "suback_code_string MAXIMUM_QOS0 = ''Success: maximum QoS 0''"
| "suback_code_string MAXIMUM_QOS1 = ''Success: maximum QoS 1''"
| "suback_code_string MAXIMUM_QOS2 = ''Success: maximum QoS 2''"
| "suback_code_string FAILURE = ''Failure''"
| "suback_code_string SUBACK_RESERVED = ''Reserved for future use''"

fun disconnect_reason_string :: "disconnect_reason \<Rightarrow> string" where
  "disconnect_reason_string not_a_disconnect = ''Not a DISCONNECT''"
| "disconnect_reason_string client_disconnect = ''Client disconnect''"
| "disconnect_reason_string authentication_failed = ''Authentication failed''"
| "disconnect_reason_string protocol_violation = ''Protocol violation''"
| "disconnect_reason_string keep_alive_timeout_expired = ''Keep alive timeout expired''"
| "disconnect_reason_string network_or_server_failure = ''Network or server failure''"

section \<open>Packets\<close>

definition overwrite_last :: "string \<Rightarrow> string \<Rightarrow> string" where
  "overwrite_last before after = butlast before @ after"

definition connect_string :: "connect \<Rightarrow> string" where
  "connect_string c =
     ''connect[cltid:'' @ client_id c @ ''|lwt_ret:'' @ bool_string (connect_retain_last_will c) @
     ''|lwt_qos:'' @ qos_string (connect_last_will_qos c) @
     ''|clean_sess:'' @ bool_string (connect_clean_session c) @
     ''|keep_alive:'' @ decimal (unat (keep_alive_secs c)) @
     ''|lwt_top:'' @ (case will_topic c of Some t \<Rightarrow> t | None \<Rightarrow> ''[NULL]'') @
     ''|lwt_msg:'' @ (if will_message c \<noteq> None then ''[MESSAGE]'' else ''[NULL]'') @
     ''|usr:'' @ (case username c of Some u \<Rightarrow> u | None \<Rightarrow> ''[NULL]'') @
     ''|pwd:'' @ (if password c \<noteq> None then ''[PROTECTED]'' else ''[NULL]'') @ '']''"

definition connack_string :: "connack \<Rightarrow> string" where
  "connack_string p =
     ''connack[rc:'' @ return_code_string (return_code p) @
     ''|sp:'' @ bool_string (session_present p) @ '']''"

definition publish_string :: "publish \<Rightarrow> string" where
  "publish_string p =
     ''publish['' @
     (if publish_qos p = AT_LEAST_ONCE \<or> publish_qos p = EXACTLY_ONCE
      then ''pktid:'' @ decimal (unat (packet_identifier p)) @ ''|'' else []) @
     ''dup:'' @ bool_string (publish_dup p) @ ''|qos:'' @ qos_string (publish_qos p) @
     ''|ret:'' @ bool_string (publish_retain p) @ ''|topic:'' @ topic p @
     ''|msg-size:'' @ decimal (length (application_message p)) @ '']''"

definition ack_string :: "string \<Rightarrow> u16 \<Rightarrow> string" where
  "ack_string name pktid = name @ ''[pktid:'' @ decimal (unat pktid) @ '']''"

definition puback_string :: "publish_ack \<Rightarrow> string" where
  "puback_string p = ack_string ''puback'' (ack_packet_identifier p)"

definition pubrec_string :: "publish_ack \<Rightarrow> string" where
  "pubrec_string p = ack_string ''pubrec'' (ack_packet_identifier p)"

definition pubrel_string :: "publish_ack \<Rightarrow> string" where
  "pubrel_string p = ack_string ''pubrel'' (ack_packet_identifier p)"

definition pubcomp_string :: "publish_ack \<Rightarrow> string" where
  "pubcomp_string p = ack_string ''pubcomp'' (ack_packet_identifier p)"

definition unsuback_string :: "unsuback \<Rightarrow> string" where
  "unsuback_string p = ack_string ''unsuback'' (unsuback_packet_identifier p)"

definition suback_string :: "suback \<Rightarrow> string" where
  "suback_string p =
     overwrite_last
       (''suback[pktid:'' @ decimal (unat (suback_packet_identifier p)) @ ''|rcs:'' @
        concat (map (\<lambda>rc. suback_code_string rc @ '':'') (return_codes p)))
       '']''"

definition subscription_string :: "subscription \<Rightarrow> string" where
  "subscription_string s = ''subscr:['' @ topic_filter s @ ''|'' @ qos_string (maximum_qos s) @ '']''"

definition subscribe_string :: "subscribe \<Rightarrow> string" where
  "subscribe_string p =
     overwrite_last
       (''subscribe[pktid:'' @ decimal (unat (subscribe_packet_identifier p)) @ ''|'' @
        concat (map (\<lambda>s. subscription_string s @ '' '') (subscriptions p)))
       '']''"

definition unsubscribe_string :: "unsubscribe \<Rightarrow> string" where
  "unsubscribe_string p =
     overwrite_last
       (''unsubscribe[pktid:'' @ decimal (unat (unsubscribe_packet_identifier p)) @ ''|'' @
        concat (map (\<lambda>filter. filter @ '' '') (topic_filters p)))
       '']''"

definition pingreq_string :: "mqtt_header \<Rightarrow> string" where
  "pingreq_string p = ''pingreq[]''"

definition pingresp_string :: "mqtt_header \<Rightarrow> string" where
  "pingresp_string p = ''pingresp[]''"

definition disconnect_string :: "mqtt_header \<Rightarrow> string" where
  "disconnect_string p = ''disconnect[]''"

text \<open>The virtual function.\<close>

fun packet_string :: "mqtt_packet \<Rightarrow> string" where
  "packet_string (Connect p) = connect_string p"
| "packet_string (Connack p) = connack_string p"
| "packet_string (Publish p) = publish_string p"
| "packet_string (Puback p) = puback_string p"
| "packet_string (Pubrec p) = pubrec_string p"
| "packet_string (Pubrel p) = pubrel_string p"
| "packet_string (Pubcomp p) = pubcomp_string p"
| "packet_string (Subscribe p) = subscribe_string p"
| "packet_string (Suback p) = suback_string p"
| "packet_string (Unsubscribe p) = unsubscribe_string p"
| "packet_string (Unsuback p) = unsuback_string p"
| "packet_string (Pingreq p) = pingreq_string p"
| "packet_string (Pingresp p) = pingresp_string p"
| "packet_string (Disconnect p) = disconnect_string p"

section \<open>Reading the log\<close>

lemma bool_string_inject [simp]: "bool_string a @ xs = bool_string b @ ys \<longleftrightarrow> a = b \<and> xs = ys"
  by (simp add: bool_string_def)

lemma bool_string_eq [simp]: "bool_string a = bool_string b \<longleftrightarrow> a = b"
  by (simp add: bool_string_def)

lemma return_code_string_inject [simp]:
  "return_code_string a @ CHR ''|'' # xs = return_code_string b @ CHR ''|'' # ys \<longleftrightarrow> a = b \<and> xs = ys"
  by (cases a; cases b) simp_all

lemma qos_string_inject [simp]:
  "qos_string a @ CHR ''|'' # xs = qos_string b @ CHR ''|'' # ys \<longleftrightarrow> a = b \<and> xs = ys"
  by (cases a; cases b) simp_all

lemma ack_string_inject [simp]: "ack_string name i = ack_string name j \<longleftrightarrow> i = j"
  using decimal_append_inject [of "CHR '']''" "CHR '']''" "unat i" "[]" "unat j" "[]"]
  by (auto simp: ack_string_def word_unat_eq_iff)

text \<open>A number at the end can be read off as well, whatever comes before.\<close>

lemma decimal_suffix_inject:
  assumes "\<not> is_digit x"
  shows "xs @ x # decimal m = ys @ x # decimal n \<longleftrightarrow> xs = ys \<and> m = n"
proof
  assume eq: "xs @ x # decimal m = ys @ x # decimal n"
  have "takeWhile is_digit (rev (zs @ x # decimal k)) = rev (decimal k)" for zs k
  proof -
    have "takeWhile is_digit (rev (decimal k) @ x # rev zs) = rev (decimal k) @ takeWhile is_digit (x # rev zs)"
      by (intro takeWhile_append2) (simp add: digits_of_decimal)
    then show ?thesis
      using assms by simp
  qed
  then have "rev (decimal m) = rev (decimal n)"
    using eq by metis
  then show "xs = ys \<and> m = n"
    using eq by simp
qed simp

text \<open>The codes of SUBACK, each behind a colon, form a prefix code.\<close>

lemma suback_string_eq:
  "suback_string p = ''suback[pktid:'' @ decimal (unat (suback_packet_identifier p)) @ ''|rcs'' @
     concat (map (\<lambda>rc. CHR '':'' # suback_code_string rc) (return_codes p)) @ '']''"
proof -
  have "CHR '':'' # concat (map (\<lambda>rc. suback_code_string rc @ '':'') rcs) =
      concat (map (\<lambda>rc. CHR '':'' # suback_code_string rc) rcs) @ '':''" for rcs
    by (induction rcs) simp_all
  from this [of "return_codes p"] show ?thesis
    by (simp add: suback_string_def overwrite_last_def butlast_append)
qed

lemma suback_codes_inject:
  "concat (map (\<lambda>rc. CHR '':'' # suback_code_string rc) xs) @ '']'' =
   concat (map (\<lambda>rc. CHR '':'' # suback_code_string rc) ys) @ '']'' \<Longrightarrow> xs = ys"
proof (induction xs arbitrary: ys)
  case Nil
  then show ?case
    by (cases ys) simp_all
next
  case (Cons x xs)
  then obtain y ys' where ys: "ys = y # ys'"
    by (cases ys) auto
  then have "suback_code_string x @ concat (map (\<lambda>rc. CHR '':'' # suback_code_string rc) xs) @ '']'' =
      suback_code_string y @ concat (map (\<lambda>rc. CHR '':'' # suback_code_string rc) ys') @ '']''"
    using Cons.prems by simp
  then have "x = y \<and> concat (map (\<lambda>rc. CHR '':'' # suback_code_string rc) xs) @ '']'' =
      concat (map (\<lambda>rc. CHR '':'' # suback_code_string rc) ys') @ '']''"
    by (cases x; cases y) simp_all
  then show ?case
    using Cons.IH ys by blast
qed

lemma suback_string_inject:
  assumes "suback_string p = suback_string q"
  shows "suback_packet_identifier p = suback_packet_identifier q \<and> return_codes p = return_codes q"
  using assms suback_codes_inject [of "return_codes p" "return_codes q"]
  by (auto simp: suback_string_eq decimal_append_inject word_unat_eq_iff)

lemma publish_string_inject:
  assumes "publish_string p = publish_string q" "publish_qos p \<noteq> QOS_RESERVED" "publish_qos q \<noteq> QOS_RESERVED"
  shows "publish_dup p = publish_dup q \<and> publish_qos p = publish_qos q \<and> publish_retain p = publish_retain q \<and>
    topic p = topic q \<and> length (application_message p) = length (application_message q) \<and>
    (publish_qos p \<noteq> AT_MOST_ONCE \<longrightarrow> packet_identifier p = packet_identifier q)"
proof -
  define size_text where "size_text = ''|msg-size''"
  have eq: "publish_string r = ''publish['' @
      (if publish_qos r = AT_MOST_ONCE then [] else ''pktid:'' @ decimal (unat (packet_identifier r)) @ ''|'') @
      ''dup:'' @ bool_string (publish_dup r) @ ''|qos:'' @ qos_string (publish_qos r) @
      ''|ret:'' @ bool_string (publish_retain r) @ ''|topic:'' @ topic r @ size_text @
      CHR '':'' # decimal (length (application_message r)) @ '']''"
    if "publish_qos r \<noteq> QOS_RESERVED" for r
    using that by (cases "publish_qos r") (simp_all add: publish_string_def size_text_def)
  have last: "xs @ size_text @ CHR '':'' # decimal m @ '']'' = ys @ size_text @ CHR '':'' # decimal n @ '']'' \<longleftrightarrow>
      xs = ys \<and> m = n" for xs ys m n
    using decimal_suffix_inject [OF not_digits(3), of "xs @ size_text" m "ys @ size_text" n]
      append_same_eq [of "xs @ size_text @ CHR '':'' # decimal m" "'']''" "ys @ size_text @ CHR '':'' # decimal n"]
    by (simp del: append_same_eq)
  have "publish_qos p = AT_MOST_ONCE \<longleftrightarrow> publish_qos q = AT_MOST_ONCE"
    using assms(1) eq [OF assms(2)] eq [OF assms(3)] by (auto split: if_splits)
  then show ?thesis
    using assms(1) unfolding eq [OF assms(2)] eq [OF assms(3)]
    by (cases "publish_qos p = AT_MOST_ONCE") (simp_all add: decimal_append_inject last word_unat_eq_iff)
qed

text \<open>The word before the bracket names the class of the packet.\<close>

lemma packet_string_class:
  "packet_string p = packet_string q \<Longrightarrow> class_type p = class_type q"
  by (cases p; cases q) (simp_all add: connect_string_def connack_string_def publish_string_def
      puback_string_def pubrec_string_def pubrel_string_def pubcomp_string_def ack_string_def
      unsuback_string_def suback_string_eq subscribe_string_def unsubscribe_string_def overwrite_last_def
      pingreq_string_def pingresp_string_def disconnect_string_def butlast_append split: if_splits)

lemma sendable_class: "sendable p \<Longrightarrow> packet_type p = class_type p"
  by (cases p) (auto simp: packet_type_def publish_wf_def header_type_def mqtt_header.defs)

lemma connack_string_inject:
  "connack_string p = connack_string q \<Longrightarrow> return_code p = return_code q \<and> session_present p = session_present q"
  by (simp add: connack_string_def)

lemma packet_string_body:
  assumes "sendable p" "sendable q" "packet_string p = packet_string q" "class_type p \<noteq> PUBLISH"
  shows "encode_body p = encode_body q"
proof -
  have same: "class_type q = class_type p"
    using packet_string_class [OF assms(3)] by simp
  note defs = encode_body_defs sendable_class [unfolded packet_type_def] puback_string_def pubrec_string_def
    pubrel_string_def pubcomp_string_def unsuback_string_def
  show ?thesis
    using assms same by (cases p; cases q; simp; auto simp: defs dest: connack_string_inject suback_string_inject)
qed



end
