(* ===== verification/Application.thy ===== *)
theory Application
  imports Server Io_Service_Pool Packet_Strings
begin

text \<open>
  The process around the server: command line options (\<^verbatim>\<open>app/options_factory.cpp\<close>, \<^verbatim>\<open>defaults.hpp\<close>,
  \<^verbatim>\<open>context.hpp\<close>), loggers (\<^verbatim>\<open>logging/logging.cpp\<close>), the registry of authentication services
  (\<^verbatim>\<open>app/authentication_service_factories\<close>, \<^verbatim>\<open>impl\<close>) and \<^verbatim>\<open>app/application.cpp\<close>, whose main thread starts
  the server, waits for the network thread to close all connections, and stops it.

  cxxopts parses the command line. What the code sees of it is the result of the parse, an exception or
  a value for each option: a parameter here, of which \<open>typed_parse\<close> states what cxxopts documents (an
  option has a value of its declared type, given or default). Whether the log file can be opened and the
  address be bound is a parameter as well.
\<close>

section \<open>Options\<close>

datatype value_type = String_type | Int_type | Uint32_type | Size_type | Bool_type

datatype option_value =
    String_value string | Int_value int | Uint32_value u32 | Size_value size_t | Bool_value bool

fun type_of_value :: "option_value \<Rightarrow> value_type" where
  "type_of_value (String_value _) = String_type"
| "type_of_value (Int_value _) = Int_type"
| "type_of_value (Uint32_value _) = Uint32_type"
| "type_of_value (Size_value _) = Size_type"
| "type_of_value (Bool_value _) = Bool_type"

record option_declaration =
  opt_group :: string
  opt_spec :: string
  opt_type :: value_type
  opt_default :: string
  opt_implicit :: "string option"

definition DEFAULT_CONNECT_TIMEOUT_MS :: nat where "DEFAULT_CONNECT_TIMEOUT_MS = 10000"
definition DEFAULT_INITIAL_READ_BUFFER_SIZE :: nat where "DEFAULT_INITIAL_READ_BUFFER_SIZE = 256"
definition DEFAULT_INITIAL_WRITE_BUFFER_SIZE :: nat where "DEFAULT_INITIAL_WRITE_BUFFER_SIZE = 256"
definition DEFAULT_LOG_FILE :: string where "DEFAULT_LOG_FILE = ''/var/log/mqttd.log''"
definition DEFAULT_LOG_LEVEL :: string where "DEFAULT_LOG_LEVEL = ''info''"
definition DEFAULT_SERVER_ADDRESS :: string where "DEFAULT_SERVER_ADDRESS = ''0.0.0.0''"
definition DEFAULT_SERVER_PORT :: nat where "DEFAULT_SERVER_PORT = 1883"
definition DEFAULT_PUB_ACK_TIMEOUT_MS :: nat where "DEFAULT_PUB_ACK_TIMEOUT_MS = 1000"
definition DEFAULT_PUB_MAX_RETRIES :: nat where "DEFAULT_PUB_MAX_RETRIES = 5"
definition DEFAULT_AUTHENTICATION_SERVICE_FACTORY :: string where
  "DEFAULT_AUTHENTICATION_SERVICE_FACTORY = ''accept_all''"

lemmas default_defs =
  DEFAULT_CONNECT_TIMEOUT_MS_def DEFAULT_INITIAL_READ_BUFFER_SIZE_def DEFAULT_INITIAL_WRITE_BUFFER_SIZE_def
  DEFAULT_LOG_FILE_def DEFAULT_LOG_LEVEL_def DEFAULT_SERVER_ADDRESS_def DEFAULT_SERVER_PORT_def
  DEFAULT_PUB_ACK_TIMEOUT_MS_def DEFAULT_PUB_MAX_RETRIES_def DEFAULT_AUTHENTICATION_SERVICE_FACTORY_def

text \<open>An option without \<^verbatim>\<open>cxxopts::value\<close> is a \<^verbatim>\<open>bool\<close> that is false unless given; the help texts are left out.\<close>

definition option_of :: "string \<Rightarrow> string \<Rightarrow> value_type \<Rightarrow> string \<Rightarrow> option_declaration" where
  "option_of opts spec type dflt =
     \<lparr>opt_group = opts, opt_spec = spec, opt_type = type, opt_default = dflt,
      opt_implicit = (if type = Bool_type then Some ''true'' else None)\<rparr>"

definition options_factory_create :: "option_declaration list" where
  "options_factory_create =
     [option_of ''Command line'' ''h,help'' Bool_type ''false'',
      option_of ''Server'' ''l,server-address'' String_type DEFAULT_SERVER_ADDRESS,
      option_of ''Server'' ''p,server-port'' Int_type (decimal DEFAULT_SERVER_PORT),
      option_of ''Connection'' ''t,conn-timeout'' Uint32_type (decimal DEFAULT_CONNECT_TIMEOUT_MS),
      option_of ''Connection'' ''conn-rbuf-size'' Size_type (decimal DEFAULT_INITIAL_READ_BUFFER_SIZE),
      option_of ''Connection'' ''conn-wbuf-size'' Size_type (decimal DEFAULT_INITIAL_WRITE_BUFFER_SIZE),
      option_of ''Logging'' ''f,log-file'' String_type DEFAULT_LOG_FILE,
      option_of ''Logging'' ''log-console'' Bool_type ''false'',
      option_of ''Logging'' ''log-level'' String_type DEFAULT_LOG_LEVEL,
      option_of ''Logging'' ''s,log-disable'' Bool_type ''false'',
      option_of ''Publication'' ''pub-ack-timeout'' Uint32_type (decimal DEFAULT_PUB_ACK_TIMEOUT_MS),
      option_of ''Publication'' ''pub-max-retries'' Size_type (decimal DEFAULT_PUB_MAX_RETRIES),
      option_of ''Authentication'' ''auth-service-factory'' String_type
        DEFAULT_AUTHENTICATION_SERVICE_FACTORY]"

text \<open>The long name of an option follows the comma of its specification, if it has one.\<close>

definition long_name :: "string \<Rightarrow> string" where
  "long_name spec = (case dropWhile (\<lambda>c. c \<noteq> CHR '','') spec of [] \<Rightarrow> spec | _ # name \<Rightarrow> name)"

record parse_result =
  option_count :: "string \<Rightarrow> nat"
  option_values :: "string \<Rightarrow> option_value option"

definition typed_parse :: "parse_result \<Rightarrow> bool" where
  "typed_parse config \<longleftrightarrow> (\<forall>d \<in> set options_factory_create.
     map_option type_of_value (option_values config (long_name (opt_spec d))) = Some (opt_type d))"

text \<open>\<^verbatim>\<open>context::operator[]\<close> throws for an undeclared option, \<^verbatim>\<open>as<T>( )\<close> is a \<^verbatim>\<open>dynamic_cast\<close>.\<close>

definition context_option :: "parse_result \<Rightarrow> string \<Rightarrow> option_value result" where
  "context_option config name =
     (case option_values config name of None \<Rightarrow> Inl Option_exception | Some v \<Rightarrow> Inr v)"

fun as_string :: "option_value \<Rightarrow> string result" where
  "as_string (String_value s) = Inr s" | "as_string _ = Inl Bad_cast"

fun as_int :: "option_value \<Rightarrow> int result" where
  "as_int (Int_value i) = Inr i" | "as_int _ = Inl Bad_cast"

fun as_uint32 :: "option_value \<Rightarrow> u32 result" where
  "as_uint32 (Uint32_value n) = Inr n" | "as_uint32 _ = Inl Bad_cast"

fun as_size :: "option_value \<Rightarrow> size_t result" where
  "as_size (Size_value n) = Inr n" | "as_size _ = Inl Bad_cast"

fun as_bool :: "option_value \<Rightarrow> bool result" where
  "as_bool (Bool_value b) = Inr b" | "as_bool _ = Inl Bad_cast"

section \<open>Logging\<close>

datatype log_level = trace | debug | info | warn | err | critical | off

datatype sink = Null_sink | File_sink string | Stdout_sink

record logger_factory =
  log_pattern :: string
  factory_level :: log_level
  factory_sinks :: "sink list"

record logger =
  logger_name :: string
  logger_sinks :: "sink list"
  logger_pattern :: string
  logger_level :: log_level
  logger_flush_on :: log_level

definition LEVELS_BY_NAME :: "(string \<times> log_level) list" where
  "LEVELS_BY_NAME =
     [(''trace'', trace), (''debug'', debug), (''info'', info), (''warn'', warn), (''err'', err),
      (''critical'', critical)]"

definition is_supported_log_level :: "string \<Rightarrow> bool" where
  "is_supported_log_level name \<longleftrightarrow> map_of LEVELS_BY_NAME name \<noteq> None"

definition safe_log_level_filter :: "string \<Rightarrow> log_level \<Rightarrow> log_level result" where
  "safe_log_level_filter name default_level =
     (if \<not> is_supported_log_level name then Inr default_level
      else case map_of LEVELS_BY_NAME name of None \<Rightarrow> Inl Out_of_range | Some level \<Rightarrow> Inr level)"

definition logger_factory_create :: "(string \<Rightarrow> bool) \<Rightarrow> parse_result \<Rightarrow> logger_factory result" where
  "logger_factory_create can_open config =
     rbind (rbind (context_option config ''log-level'') as_string) (\<lambda>level_name.
     rbind (safe_log_level_filter level_name info) (\<lambda>level.
     rbind (rbind (context_option config ''log-disable'') as_bool) (\<lambda>disabled.
     rbind
       (if disabled then Inr [Null_sink]
        else
          rbind (rbind (context_option config ''log-file'') as_string) (\<lambda>file.
          rbind (check (can_open file) Spdlog_exception) (\<lambda>_.
          rbind (rbind (context_option config ''log-console'') as_bool) (\<lambda>console.
          Inr (File_sink file # (if console then [Stdout_sink] else []))))))
       (\<lambda>sinks.
     Inr \<lparr>log_pattern = ''[%Y-%m-%d %H:%M:%S.%f] [%l] [%P/%t] [%n] %v'', factory_level = level,
          factory_sinks = sinks\<rparr>))))"

definition logger_factory_disabled :: logger_factory where
  "logger_factory_disabled = \<lparr>log_pattern = [], factory_level = off, factory_sinks = [Null_sink]\<rparr>"

definition logger_factory_logger :: "logger_factory \<Rightarrow> string \<Rightarrow> logger" where
  "logger_factory_logger factory name =
     \<lparr>logger_name = name, logger_sinks = factory_sinks factory, logger_pattern = log_pattern factory,
      logger_level = factory_level factory, logger_flush_on = err\<rparr>"

section \<open>Authentication services\<close>

type_synonym authentication_service = "string \<Rightarrow> string option \<Rightarrow> string option \<Rightarrow> bool"
type_synonym authentication_service_factory = "parse_result \<Rightarrow> authentication_service"

definition accept_all_authenticate :: authentication_service where
  "accept_all_authenticate client_ip user pwd = True"

definition accept_all_factory :: authentication_service_factory where
  "accept_all_factory config = accept_all_authenticate"

definition factories_by_name :: "(string \<times> authentication_service_factory) list" where
  "factories_by_name = [(''accept_all'', accept_all_factory)]"

definition factory_named :: "string \<Rightarrow> authentication_service_factory result" where
  "factory_named name =
     (case map_of factories_by_name name of None \<Rightarrow> Inl Out_of_range | Some factory \<Rightarrow> Inr factory)"

section \<open>Starting\<close>

text \<open>The surroundings of the process: what can be opened and bound.\<close>

record platform =
  plat_can_open :: "string \<Rightarrow> bool"
  plat_can_listen :: "string \<Rightarrow> int \<Rightarrow> bool"

text \<open>\<^verbatim>\<open>mqtt_server::run\<close>: resolve and bind the configured address, accept, start the network thread.\<close>

definition start_server :: "platform \<Rightarrow> parse_result \<Rightarrow> (server \<times> pool) result" where
  "start_server plat config =
     rbind (new_pool ''network'' 1) (\<lambda>pool.
     rbind (rbind (context_option config ''server-address'') as_string) (\<lambda>address.
     rbind (rbind (context_option config ''server-port'') as_int) (\<lambda>port.
     rbind (check (plat_can_listen plat address port) System_error) (\<lambda>_.
     Inr (server_run new_server, pool_run pool)))))"

text \<open>
  What the constructors of connections and publications, and the timers of connections, read from the
  options later, put together.
\<close>

definition serving_config :: "parse_result \<Rightarrow> authentication_service \<Rightarrow> config result" where
  "serving_config config auth =
     rbind (rbind (context_option config ''conn-rbuf-size'') as_size) (\<lambda>read_buffer_size.
     rbind (rbind (context_option config ''conn-wbuf-size'') as_size) (\<lambda>write_buffer_size.
     rbind (rbind (context_option config ''conn-timeout'') as_uint32) (\<lambda>connect_timeout.
     rbind (rbind (context_option config ''pub-ack-timeout'') as_uint32) (\<lambda>ack_timeout.
     rbind (rbind (context_option config ''pub-max-retries'') as_size) (\<lambda>max_retries.
     Inr \<lparr>cfg_read_buffer_size = unat read_buffer_size, cfg_max_retries = unat max_retries,
          cfg_authenticate = auth\<rparr>)))))"

definition EC_OK :: int where "EC_OK = 0"
definition EC_MALFORMED_CMDLINE :: int where "EC_MALFORMED_CMDLINE = 1"
definition EC_RUNTIME_ERROR :: int where "EC_RUNTIME_ERROR = 2"

datatype main_thread = Await_closed | Stop_pool | Await_stopped | Exited int | Aborted error

text \<open>
  \<^verbatim>\<open>application::run\<close> up to the first wait: with the help option it ends at once, and so it does with an
  exception, which its handlers turn into an exit code.
\<close>

definition std_exception :: "error \<Rightarrow> bool" where
  "std_exception e \<longleftrightarrow> e \<noteq> Assertion_failed \<and> e \<noteq> Undefined_behaviour"

definition exit_of :: "error \<Rightarrow> main_thread" where
  "exit_of e =
     (if e = Option_exception then Exited EC_MALFORMED_CMDLINE
      else if std_exception e then Exited EC_RUNTIME_ERROR
      else Aborted e)"

definition application_start ::
  "platform \<Rightarrow> parse_result result \<Rightarrow> main_thread \<times> (authentication_service \<times> server \<times> pool) option" where
  "application_start plat parsed =
     (case rbind parsed (\<lambda>config.
             if option_count config ''help'' > 0 then Inr None
             else
               rbind (logger_factory_create (plat_can_open plat) config) (\<lambda>_.
               rbind (rbind (context_option config ''auth-service-factory'') as_string) (\<lambda>name.
               rbind (factory_named name) (\<lambda>factory.
               rbind (start_server plat config) (\<lambda>(srv, pool).
               Inr (Some (factory config, srv, pool)))))))
      of Inl e \<Rightarrow> (exit_of e, None)
       | Inr None \<Rightarrow> (Exited EC_OK, None)
       | Inr (Some serving) \<Rightarrow> (Await_closed, Some serving))"

section \<open>The main thread and the network thread\<close>

record process =
  prc_main :: main_thread
  prc_server :: server
  prc_pool :: pool

definition network_running :: "process \<Rightarrow> bool" where
  "network_running p \<longleftrightarrow> \<not> service_stopped (io_services (prc_pool p) ! 0)"

text \<open>
  A step of the main thread: waiting for the connections to be closed, stopping the pool, waiting for it
  to have stopped. \<open>None\<close>: it cannot go on (yet).
\<close>

definition wait_until_connections_closed :: "server \<Rightarrow> unit option" where
  "wait_until_connections_closed s = (if srv_connections_closed s then Some () else None)"

definition wait_until_stopped :: "pool \<Rightarrow> unit option" where
  "wait_until_stopped p = (if \<not> pool_running p then Some () else None)"

definition main_step :: "process \<Rightarrow> process option" where
  "main_step p =
     (case prc_main p of
        Await_closed \<Rightarrow>
          map_option (\<lambda>_. p\<lparr>prc_main := Stop_pool\<rparr>) (wait_until_connections_closed (prc_server p))
      | Stop_pool \<Rightarrow>
          map_option (\<lambda>pool. p\<lparr>prc_pool := pool, prc_main := Await_stopped\<rparr>) (pool_stop (prc_pool p))
      | Await_stopped \<Rightarrow>
          map_option (\<lambda>_. p\<lparr>prc_main := Exited EC_OK\<rparr>) (wait_until_stopped (prc_pool p))
      | _ \<Rightarrow> None)"

text \<open>
  The two threads interleaved. An error that leaves the network thread ends the process, whatever the
  main thread does: nothing catches an exception that leaves a \<^verbatim>\<open>std::thread\<close>.
\<close>

definition process_alive :: "process \<Rightarrow> bool" where
  "process_alive p \<longleftrightarrow> (\<forall>code. prc_main p \<noteq> Exited code) \<and> (\<forall>e. prc_main p \<noteq> Aborted e)"

inductive process_runs :: "config \<Rightarrow> process \<Rightarrow> writes \<Rightarrow> process \<Rightarrow> bool"
  for cfg :: config and start :: process where
  process_starts: "process_runs cfg start [] start"
| network_step: "\<lbrakk>process_runs cfg start written p; process_alive p; network_running p;
      enabled ev (prc_server p); server_handle cfg inline ev (prc_server p) = Inr (s', written')\<rbrakk>
     \<Longrightarrow> process_runs cfg start (written @ written') (p\<lparr>prc_server := s'\<rparr>)"
| network_fails: "\<lbrakk>process_runs cfg start written p; process_alive p; network_running p;
      enabled ev (prc_server p); server_handle cfg inline ev (prc_server p) = Inl e\<rbrakk>
     \<Longrightarrow> process_runs cfg start written (p\<lparr>prc_main := Aborted e\<rparr>)"
| main_thread_step: "\<lbrakk>process_runs cfg start written p; main_step p = Some p'\<rbrakk>
     \<Longrightarrow> process_runs cfg start written p'"

end
