(* ===== verification/Application_Properties.thy ===== *)
theory Application_Properties
  imports Application Server_Delivery "HOL-Library.Code_Target_Nat"
begin

text \<open>
  What the process does as a whole: how it starts, for every parsed command line and every platform, and
  how it ends, under any interleaving of its main thread and its network thread.
\<close>

section \<open>Starting\<close>

text \<open>The values of typed options.\<close>

definition string_option :: "parse_result \<Rightarrow> string \<Rightarrow> string" where
  "string_option config name = (case option_values config name of Some (String_value s) \<Rightarrow> s | _ \<Rightarrow> [])"

definition int_option :: "parse_result \<Rightarrow> string \<Rightarrow> int" where
  "int_option config name = (case option_values config name of Some (Int_value i) \<Rightarrow> i | _ \<Rightarrow> 0)"

definition size_option :: "parse_result \<Rightarrow> string \<Rightarrow> size_t" where
  "size_option config name = (case option_values config name of Some (Size_value n) \<Rightarrow> n | _ \<Rightarrow> 0)"

definition bool_option :: "parse_result \<Rightarrow> string \<Rightarrow> bool" where
  "bool_option config name = (case option_values config name of Some (Bool_value b) \<Rightarrow> b | _ \<Rightarrow> False)"

lemma typed_reads:
  "map_option type_of_value (option_values config name) = Some String_type \<Longrightarrow>
     rbind (context_option config name) as_string = Inr (string_option config name)"
  "map_option type_of_value (option_values config name) = Some Int_type \<Longrightarrow>
     rbind (context_option config name) as_int = Inr (int_option config name)"
  "map_option type_of_value (option_values config name) = Some Uint32_type \<Longrightarrow>
     \<exists>n. rbind (context_option config name) as_uint32 = Inr n"
  "map_option type_of_value (option_values config name) = Some Size_type \<Longrightarrow>
     rbind (context_option config name) as_size = Inr (size_option config name)"
  "map_option type_of_value (option_values config name) = Some Bool_type \<Longrightarrow>
     rbind (context_option config name) as_bool = Inr (bool_option config name)"
  by (auto simp: context_option_def string_option_def int_option_def size_option_def bool_option_def
      elim: type_of_value.elims)

lemma declared_types:
  assumes "typed_parse config"
  shows "map_option type_of_value (option_values config ''server-address'') = Some String_type"
    "map_option type_of_value (option_values config ''log-file'') = Some String_type"
    "map_option type_of_value (option_values config ''log-level'') = Some String_type"
    "map_option type_of_value (option_values config ''auth-service-factory'') = Some String_type"
    "map_option type_of_value (option_values config ''server-port'') = Some Int_type"
    "map_option type_of_value (option_values config ''conn-timeout'') = Some Uint32_type"
    "map_option type_of_value (option_values config ''pub-ack-timeout'') = Some Uint32_type"
    "map_option type_of_value (option_values config ''conn-rbuf-size'') = Some Size_type"
    "map_option type_of_value (option_values config ''conn-wbuf-size'') = Some Size_type"
    "map_option type_of_value (option_values config ''pub-max-retries'') = Some Size_type"
    "map_option type_of_value (option_values config ''log-console'') = Some Bool_type"
    "map_option type_of_value (option_values config ''log-disable'') = Some Bool_type"
  using assms by (simp_all add: typed_parse_def options_factory_create_def option_of_def long_name_def)

lemmas typed_options =
  declared_types(1-4) [THEN typed_reads(1)] declared_types(5) [THEN typed_reads(2)]
  declared_types(8-10) [THEN typed_reads(4)] declared_types(11,12) [THEN typed_reads(5)]

text \<open>Every option the code reads is declared with the type it is read as, so no read throws.\<close>

lemma logger_factory_create_eq:
  assumes "typed_parse config"
  shows "\<exists>level. logger_factory_create can_open config =
    (if bool_option config ''log-disable'' \<or> can_open (string_option config ''log-file'')
     then Inr \<lparr>log_pattern = ''[%Y-%m-%d %H:%M:%S.%f] [%l] [%P/%t] [%n] %v'', factory_level = level,
       factory_sinks =
         (if bool_option config ''log-disable'' then [Null_sink]
          else File_sink (string_option config ''log-file'') #
            (if bool_option config ''log-console'' then [Stdout_sink] else []))\<rparr>
     else Inl Spdlog_exception)"
proof -
  have "\<exists>level. safe_log_level_filter name info = Inr level" for name
    by (auto simp: safe_log_level_filter_def is_supported_log_level_def)
  then obtain level where "safe_log_level_filter (string_option config ''log-level'') info = Inr level"
    by blast
  then show ?thesis
    by (simp add: logger_factory_create_def typed_options [OF assms])
qed

definition startable :: "platform \<Rightarrow> parse_result \<Rightarrow> bool" where
  "startable plat config \<longleftrightarrow>
     (bool_option config ''log-disable'' \<or> plat_can_open plat (string_option config ''log-file'')) \<and>
     string_option config ''auth-service-factory'' = ''accept_all'' \<and>
     plat_can_listen plat (string_option config ''server-address'') (int_option config ''server-port'')"

lemma start_server_eq:
  assumes "typed_parse config"
  shows "\<exists>pool. new_pool ''network'' 1 = Inr pool \<and> start_server plat config =
    (if plat_can_listen plat (string_option config ''server-address'') (int_option config ''server-port'')
     then Inr (server_run new_server, pool_run pool) else Inl System_error)"
  by (simp add: start_server_def typed_options [OF assms] new_pool_def)

lemma serving_config_eq:
  assumes "typed_parse config"
  shows "serving_config config auth =
    Inr \<lparr>cfg_read_buffer_size = unat (size_option config ''conn-rbuf-size''),
         cfg_max_retries = unat (size_option config ''pub-max-retries''),
         cfg_authenticate = auth\<rparr>"
proof -
  obtain m n where "rbind (context_option config ''conn-timeout'') as_uint32 = Inr m"
    "rbind (context_option config ''pub-ack-timeout'') as_uint32 = Inr n"
    using declared_types(6,7) [OF assms, THEN typed_reads(3)] by blast
  then show ?thesis
    by (simp add: serving_config_def typed_options [OF assms])
qed

lemma factory_named_eq:
  "factory_named name = (if name = ''accept_all'' then Inr accept_all_factory else Inl Out_of_range)"
  by (simp add: factory_named_def factories_by_name_def)

lemma application_start_eq:
  assumes "typed_parse config" "option_count config ''help'' = 0"
  shows "if startable plat config
       then \<exists>pool. application_start plat (Inr config) = (Await_closed, Some
            (\<lambda>ip user pwd. True, server_run new_server, pool)) \<and>
          length (pool_threads pool) = 1 \<and> pool_running pool
       else application_start plat (Inr config) = (Exited EC_RUNTIME_ERROR, None)"
proof -
  obtain level where log: "logger_factory_create (plat_can_open plat) config =
    (if bool_option config ''log-disable'' \<or> plat_can_open plat (string_option config ''log-file'')
     then Inr \<lparr>log_pattern = ''[%Y-%m-%d %H:%M:%S.%f] [%l] [%P/%t] [%n] %v'', factory_level = level,
       factory_sinks =
         (if bool_option config ''log-disable'' then [Null_sink]
          else File_sink (string_option config ''log-file'') #
            (if bool_option config ''log-console'' then [Stdout_sink] else []))\<rparr>
     else Inl Spdlog_exception)"
    using logger_factory_create_eq [OF assms(1)] by blast
  obtain pool where pool: "new_pool ''network'' 1 = Inr pool" "start_server plat config =
    (if plat_can_listen plat (string_option config ''server-address'') (int_option config ''server-port'')
     then Inr (server_run new_server, pool_run pool) else Inl System_error)"
    using start_server_eq [OF assms(1)] by blast
  have one: "length (pool_threads (pool_run pool)) = 1" "pool_running (pool_run pool)"
    using pool(1) by (auto simp: new_pool_def pool_run_def)
  have everybody: "accept_all_authenticate = (\<lambda>ip user pwd. True)"
    by (simp add: fun_eq_iff accept_all_authenticate_def)
  show ?thesis
    using assms(2) one
    by (simp add: application_start_def log pool(2) typed_options(4) [OF assms(1)]
        factory_named_eq startable_def exit_of_def std_exception_def accept_all_factory_def everybody)
qed

text \<open>
  C25. How the process starts. A command line cxxopts refuses ends it with exit code 1, a request for help
  with 0. Otherwise no option is read that is not declared or has another type: the process either ends
  with exit code 2, if the log file cannot be opened, the authentication service is not
  \<^verbatim>\<open>accept_all\<close> or the address cannot be bound, or it serves, with the configured read buffer size and
  number of retries, letting everybody in, with one network thread.
\<close>

theorem startup_outcome:
  assumes "typed_parse config"
  shows "application_start plat (Inl Option_exception) = (Exited EC_MALFORMED_CMDLINE, None) \<and>
    (0 < option_count config ''help'' \<longrightarrow> application_start plat (Inr config) = (Exited EC_OK, None)) \<and>
    (option_count config ''help'' = 0 \<longrightarrow>
      (if startable plat config
       then \<exists>pool. application_start plat (Inr config) = (Await_closed, Some
            (\<lambda>ip user pwd. True, server_run new_server, pool)) \<and>
          length (pool_threads pool) = 1 \<and> pool_running pool \<and>
          serving_config config (\<lambda>ip user pwd. True) =
            Inr \<lparr>cfg_read_buffer_size = unat (size_option config ''conn-rbuf-size''),
              cfg_max_retries = unat (size_option config ''pub-max-retries''),
              cfg_authenticate = (\<lambda>ip user pwd. True)\<rparr>
       else application_start plat (Inr config) = (Exited EC_RUNTIME_ERROR, None)))"
proof (intro conjI impI)
  show "application_start plat (Inl Option_exception) = (Exited EC_MALFORMED_CMDLINE, None)"
    by (simp add: application_start_def exit_of_def)
  show "application_start plat (Inr config) = (Exited EC_OK, None)" if "0 < option_count config ''help''"
    using that by (simp add: application_start_def)
qed (use application_start_eq [OF assms, of plat] serving_config_eq [OF assms] in auto)

text \<open>The empty command line: every option has its default.\<close>

fun value_of_text :: "value_type \<Rightarrow> string \<Rightarrow> option_value" where
  "value_of_text String_type s = String_value s"
| "value_of_text Int_type s = Int_value (int (read_decimal s))"
| "value_of_text Uint32_type s = Uint32_value (word_of_nat (read_decimal s))"
| "value_of_text Size_type s = Size_value (word_of_nat (read_decimal s))"
| "value_of_text Bool_type s = Bool_value (s = ''true'')"

definition default_options :: parse_result where
  "default_options =
     \<lparr>option_count = (\<lambda>name. 0),
      option_values = (\<lambda>name. map_option (\<lambda>d. value_of_text (opt_type d) (opt_default d))
        (find (\<lambda>d. long_name (opt_spec d) = name) options_factory_create))\<rparr>"

lemma typed_default_options: "typed_parse default_options"
  by (simp add: typed_parse_def default_options_def options_factory_create_def option_of_def long_name_def)

definition sample_platform :: platform where
  "sample_platform = \<lparr>plat_can_open = (\<lambda>file. True), plat_can_listen = (\<lambda>address port. address = ''0.0.0.0'' \<and> port = 1883)\<rparr>"

lemma default_option_values:
  "startable sample_platform default_options" "option_count default_options ''help'' = 0"
  "size_option default_options ''conn-rbuf-size'' = 256" "size_option default_options ''pub-max-retries'' = 5"
  by (simp_all add: startable_def sample_platform_def default_options_def options_factory_create_def option_of_def
      long_name_def string_option_def int_option_def size_option_def bool_option_def default_defs)

theorem startup_outcome_witness:
  "\<exists>pool. application_start sample_platform (Inr default_options) =
       (Await_closed, Some (\<lambda>ip user pwd. True, server_run new_server, pool)) \<and>
     serving_config default_options (\<lambda>ip user pwd. True) =
       Inr \<lparr>cfg_read_buffer_size = 256, cfg_max_retries = 5, cfg_authenticate = (\<lambda>ip user pwd. True)\<rparr>"
  using startup_outcome [OF typed_default_options, of sample_platform] default_option_values by auto

section \<open>Ending\<close>

text \<open>What holds of the two threads in every interleaving.\<close>

definition serving :: "server \<Rightarrow> pool \<Rightarrow> process" where
  "serving srv pool = \<lparr>prc_main = Await_closed, prc_server = srv, prc_pool = pool\<rparr>"

definition running_pool :: pool where
  "running_pool = (case new_pool ''network'' 1 of Inr p \<Rightarrow> pool_run p)"

lemma running_pool_stops:
  "\<exists>p'. pool_stop running_pool = Some p' \<and> \<not> pool_running p' \<and> service_stopped (io_services p' ! 0)"
  by (simp add: running_pool_def new_pool_def pool_run_def pool_stop_def join_thread_def)

lemma application_start_serving:
  assumes "application_start plat parsed = (Await_closed, Some (auth, srv, pool))"
  shows "srv = server_run new_server \<and> pool = running_pool"
  using assms by (auto simp: application_start_def exit_of_def start_server_def running_pool_def result_simps
      split: sum.splits option.splits if_splits)

definition process_ok :: "config \<Rightarrow> writes \<Rightarrow> process \<Rightarrow> bool" where
  "process_ok cfg written p \<longleftrightarrow>
     server_reaches cfg written (prc_server p) \<and>
     (case prc_main p of
        Await_closed \<Rightarrow> prc_pool p = running_pool
      | Stop_pool \<Rightarrow> srv_connections_closed (prc_server p) \<and> prc_pool p = running_pool
      | Await_stopped \<Rightarrow> srv_connections_closed (prc_server p) \<and> \<not> pool_running (prc_pool p) \<and> \<not> network_running p
      | Exited code \<Rightarrow> code = EC_OK \<and> srv_connections_closed (prc_server p) \<and> \<not> network_running p
      | Aborted e \<Rightarrow> \<exists>ev inline. enabled ev (prc_server p) \<and> server_handle cfg inline ev (prc_server p) = Inl e)"

lemmas main_step_defs = main_step_def wait_until_connections_closed_def wait_until_stopped_def

lemma main_step_ok: "process_ok cfg written p \<Longrightarrow> main_step p = Some p' \<Longrightarrow> process_ok cfg written p'"
  using running_pool_stops
  by (auto simp: process_ok_def main_step_defs network_running_def split: main_thread.splits if_splits)

lemma process_runs_ok:
  assumes "process_runs cfg (serving (server_run new_server) running_pool) written p"
  shows "process_ok cfg written p"
  using assms
proof induction
  case process_starts
  then show ?case
    by (simp add: process_ok_def serving_def server_reaches_def server_stays)
next
  case (network_step written p ev inline s' written')
  then have "server_reaches cfg (written @ written') s'"
    by (auto simp: process_ok_def server_reaches_def intro: server_continues)
  then show ?case
    using network_step connections_closed_stays [OF network_step.hyps(5)]
    by (auto simp: process_ok_def network_running_def process_alive_def split: main_thread.splits)
next
  case (network_fails written p ev inline e)
  then show ?case
    by (auto simp: process_ok_def)
next
  case (main_thread_step written p p')
  then show ?case
    by (blast intro: main_step_ok)
qed

fun main_steps :: "nat \<Rightarrow> process \<Rightarrow> process option" where
  "main_steps 0 p = Some p"
| "main_steps (Suc k) p = Option.bind (main_step p) (main_steps k)"

lemma main_thread_finishes:
  assumes "process_ok cfg written p" "process_alive p" "srv_connections_closed (prc_server p)"
  shows "\<exists>k \<le> 3. \<exists>p'. main_steps k p = Some p' \<and> prc_main p' = Exited EC_OK"
proof -
  have finish: "main_steps (Suc 0) q = Some (q\<lparr>prc_main := Exited EC_OK\<rparr>)"
    if "prc_main q = Await_stopped" "\<not> pool_running (prc_pool q)" for q
    using that by (simp add: main_step_defs)
  have stop: "\<exists>q'. main_steps (Suc (Suc 0)) q = Some q' \<and> prc_main q' = Exited EC_OK"
    if "prc_main q = Stop_pool" "prc_pool q = running_pool" for q
    using that running_pool_stops by (auto simp: main_step_defs)
  have closed: "\<exists>q'. main_steps (Suc (Suc (Suc 0))) q = Some q' \<and> prc_main q' = Exited EC_OK"
    if "prc_main q = Await_closed" "prc_pool q = running_pool" "srv_connections_closed (prc_server q)" for q
    using that running_pool_stops by (auto simp: main_step_defs)
  show ?thesis
  proof (cases "prc_main p")
    case Await_closed
    then show ?thesis
      using assms closed [of p] by (intro exI [of _ "Suc (Suc (Suc 0))"]) (simp add: process_ok_def)
  next
    case Stop_pool
    then show ?thesis
      using assms(1) stop [of p] by (intro exI [of _ "Suc (Suc 0)"]) (simp add: process_ok_def)
  next
    case Await_stopped
    then show ?thesis
      using assms(1) finish [of p] by (intro exI [of _ "Suc 0"]) (simp add: process_ok_def)
  qed (use assms(2) in \<open>simp_all add: process_alive_def\<close>)
qed

text \<open>
  C16. How the process ends. In every interleaving of the main thread with the network thread, the network
  thread runs the server, and the process: exits with code 0 only after the connections were closed; is
  aborted only by an event whose handling fails; waits as long as the connections are not closed; and, once
  they are, exits within three steps of its main thread, which nothing can block.
\<close>

theorem shutdown_ends_the_process:
  assumes "application_start plat parsed = (Await_closed, Some (auth, srv, pool))"
    and "process_runs cfg (serving srv pool) written p"
  shows "server_reaches cfg written (prc_server p) \<and>
    (\<forall>code. prc_main p = Exited code \<longrightarrow> code = EC_OK \<and> srv_connections_closed (prc_server p)) \<and>
    (\<forall>e. prc_main p = Aborted e \<longrightarrow>
       (\<exists>ev inline. enabled ev (prc_server p) \<and> server_handle cfg inline ev (prc_server p) = Inl e)) \<and>
    (process_alive p \<and> \<not> srv_connections_closed (prc_server p) \<longrightarrow> main_step p = None) \<and>
    (process_alive p \<and> srv_connections_closed (prc_server p) \<longrightarrow>
       (\<exists>k \<le> 3. \<exists>p'. main_steps k p = Some p' \<and> prc_main p' = Exited EC_OK))"
proof -
  have ok: "process_ok cfg written p"
    using assms(2) application_start_serving [OF assms(1)] process_runs_ok by simp
  moreover have "main_step p = None" if "process_alive p" "\<not> srv_connections_closed (prc_server p)"
    using ok that by (auto simp: process_ok_def main_step_defs process_alive_def split: main_thread.splits)
  ultimately show ?thesis
    using main_thread_finishes [OF ok] by (auto simp: process_ok_def)
qed

definition visitor :: tcp_socket where
  "visitor = \<lparr>sock_open = True,
     sock_local = Some \<lparr>ep_address = ''10.0.0.1'', ep_port = 1883\<rparr>,
     sock_remote = Some \<lparr>ep_address = ''10.0.0.2'', ep_port = 40000\<rparr>\<rparr>"

text \<open>A client that is accepted behind the signal is never closed: the process exits over it.\<close>

theorem shutdown_ends_the_process_witness:
  "\<exists>auth cfg pool p p' k. application_start sample_platform (Inr default_options) =
       (Await_closed, Some (auth, server_run new_server, pool)) \<and>
     process_runs cfg (serving (server_run new_server) pool) [] p \<and>
     main_steps k p = Some p' \<and> prc_main p' = Exited EC_OK \<and> open_in (prc_server p) 0"
proof -
  obtain auth pool where start: "application_start sample_platform (Inr default_options) =
      (Await_closed, Some (auth, server_run new_server, pool))"
    using application_start_eq [OF typed_default_options, of sample_platform] default_option_values by auto
  define cfg where "cfg = \<lparr>cfg_read_buffer_size = 256, cfg_max_retries = 5, cfg_authenticate = auth\<rparr>"
  let ?p = "serving (server_run new_server) pool"
  obtain s1 where s1: "server_handle cfg False Termination_signal (prc_server ?p) = Inr (s1, [])" "srv_accepting s1"
    "srv_connections_closed s1" "srv_acceptor_open s1" "srv_next_connection s1 = 0"
    by (simp add: serving_def do_close_connections_def cm_stop_all_def server_run_def do_accept_def new_server_def)
  obtain s2 where s2: "server_handle cfg False (Accepted (Socket_accepted visitor)) s1 = Inr (s2, [])" "open_in s2 0"
    "srv_connections_closed s2"
  proof -
    have "peer_known visitor"
      by (simp add: peer_known_def visitor_def)
    then obtain con where con: "new_connection (cfg_read_buffer_size cfg) visitor = Inr con"
      using connection_description_known by (fastforce simp: new_connection_def result_simps)
    show ?thesis
      using s1 con new_connection_ok(3) [OF con] that
      by (simp add: on_accepted_def do_accept_def create_connection_def cm_start_def put_connection_def
          open_in_def visitor_def Let_def)
  qed
  have alive: "process_alive ?p" "network_running ?p"
    using application_start_serving [OF start]
    by (simp_all add: process_alive_def network_running_def serving_def running_pool_def new_pool_def pool_run_def)
  have "process_runs cfg ?p ([] @ []) (?p\<lparr>prc_server := s1\<rparr>)"
    by (rule network_step [OF process_starts alive _ s1(1)]) simp
  then have one: "process_runs cfg ?p [] (?p\<lparr>prc_server := s1\<rparr>)"
    by simp
  have "process_alive (?p\<lparr>prc_server := s1\<rparr>)" "network_running (?p\<lparr>prc_server := s1\<rparr>)"
    "enabled (Accepted (Socket_accepted visitor)) (prc_server (?p\<lparr>prc_server := s1\<rparr>))"
    "server_handle cfg False (Accepted (Socket_accepted visitor)) (prc_server (?p\<lparr>prc_server := s1\<rparr>)) = Inr (s2, [])"
    using alive s1(2) s2(1) by (simp_all add: process_alive_def network_running_def visitor_def)
  from network_step [OF one this] have run: "process_runs cfg ?p [] (?p\<lparr>prc_server := s2\<rparr>)"
    by simp
  have "process_alive (?p\<lparr>prc_server := s2\<rparr>)"
    using alive by (simp add: process_alive_def)
  then obtain k p' where "main_steps k (?p\<lparr>prc_server := s2\<rparr>) = Some p'" "prc_main p' = Exited EC_OK"
    using shutdown_ends_the_process [OF start run] s2(3) by auto
  then show ?thesis
    using start run s2(2) by fastforce
qed

end
