(* ===== verification/Write_Buffer.thy ===== *)
theory Write_Buffer
  imports Connection
begin

text \<open>
  The write buffer of a connection. \<^verbatim>\<open>write_packet\<close> encodes into \<^verbatim>\<open>write_buffer_\<close> and hands its memory to
  \<^verbatim>\<open>asio::async_write\<close>, which goes on reading from it until the socket has taken all bytes. The theory
  \<open>Server\<close> takes a write to be complete at once, which is what asio does as long as the socket has room.
  Here a write takes its time, and two things are shown: as long as no write starts before the previous
  one is complete, the bytes on the wire are the encodings, one after the other; and writes that overlap
  corrupt each other, since the code does not wait.
\<close>

section \<open>Writes in progress\<close>

text \<open>The memory of the buffer; of each write in progress the bytes already taken and its length.\<close>

record write_state =
  ws_memory :: "byte list"
  ws_pending :: "(nat \<times> nat) list"
  ws_wire :: "byte list"

text \<open>
  \<^verbatim>\<open>clear( )\<close>, \<^verbatim>\<open>resize( )\<close> and encoding overwrite the beginning of the memory. If the memory is too small it
  is released, also if a write in progress reads from it.
\<close>

definition start_write :: "byte list \<Rightarrow> write_state \<Rightarrow> write_state result" where
  "start_write bytes ws =
     (if length (ws_memory ws) < length bytes \<and> ws_pending ws \<noteq> [] then Inl Undefined_behaviour
      else Inr (ws\<lparr>ws_memory := bytes @ drop (length bytes) (ws_memory ws),
                   ws_pending := ws_pending ws @ [(0, length bytes)]\<rparr>))"

definition send_packet :: "mqtt_packet \<Rightarrow> write_state \<Rightarrow> write_state result" where
  "send_packet p ws =
     rbind (encode_packet p (unat (packet_total_length p))) (\<lambda>bytes. start_write bytes ws)"

text \<open>The socket takes \<open>k\<close> bytes of one of the writes in progress.\<close>

definition socket_takes :: "nat \<Rightarrow> nat \<Rightarrow> write_state \<Rightarrow> write_state option" where
  "socket_takes i k ws =
     (if i < length (ws_pending ws) \<and> 0 < k \<and> fst (ws_pending ws ! i) + k \<le> snd (ws_pending ws ! i)
      then let (taken, n) = ws_pending ws ! i
           in Some (ws\<lparr>ws_wire := ws_wire ws @ take k (drop taken (ws_memory ws)),
                       ws_pending := (if taken + k = n then take i (ws_pending ws) @ drop (i + 1) (ws_pending ws)
                                      else (ws_pending ws)[i := (taken + k, n)])\<rparr>)
      else None)"

definition idle_buffer :: "nat \<Rightarrow> write_state" where
  "idle_buffer capacity = \<lparr>ws_memory = replicate capacity 0, ws_pending = [], ws_wire = []\<rparr>"

section \<open>Writes that do not overlap\<close>

inductive writes_in_turn :: "nat \<Rightarrow> mqtt_packet list \<Rightarrow> write_state \<Rightarrow> bool" for capacity :: nat where
  nothing_written: "writes_in_turn capacity [] (idle_buffer capacity)"
| write_starts: "\<lbrakk>writes_in_turn capacity ps ws; ws_pending ws = []; send_packet p ws = Inr ws'\<rbrakk>
     \<Longrightarrow> writes_in_turn capacity (ps @ [p]) ws'"
| write_goes_on: "\<lbrakk>writes_in_turn capacity ps ws; socket_takes i k ws = Some ws'\<rbrakk>
     \<Longrightarrow> writes_in_turn capacity ps ws'"

text \<open>What is still to come of the write in progress.\<close>

definition to_come :: "write_state \<Rightarrow> byte list" where
  "to_come ws = (case ws_pending ws of [] \<Rightarrow> [] | (taken, n) # _ \<Rightarrow> drop taken (take n (ws_memory ws)))"

lemma drop_take_split:
  assumes "i + k \<le> n"
  shows "drop i (take n xs) = take k (drop i xs) @ drop (i + k) (take n xs)"
proof -
  have "take k (drop i (take n xs)) = take k (drop i xs)"
    using assms by (simp add: drop_take min_def)
  moreover have "drop k (drop i (take n xs)) = drop (i + k) (take n xs)"
    by (simp only: drop_drop add.commute)
  ultimately show ?thesis
    by (metis append_take_drop_id)
qed

lemma writes_in_turn_invariant:
  assumes "writes_in_turn capacity ps ws"
  shows "\<exists>encodings. list_all2 (\<lambda>p bytes. encode_packet p (unat (packet_total_length p)) = Inr bytes) ps encodings \<and>
    ws_wire ws @ to_come ws = concat encodings \<and>
    (ws_pending ws = [] \<or> (\<exists>taken n. ws_pending ws = [(taken, n)] \<and> taken < n \<and> n \<le> length (ws_memory ws)))"
  using assms
proof induction
  case nothing_written
  then show ?case
    by (simp add: idle_buffer_def to_come_def)
next
  case (write_starts ps ws p ws')
  then obtain encodings where e:
    "list_all2 (\<lambda>p bytes. encode_packet p (unat (packet_total_length p)) = Inr bytes) ps encodings"
    "ws_wire ws = concat encodings"
    by (auto simp: to_come_def)
  from write_starts.hyps obtain bytes where b: "encode_packet p (unat (packet_total_length p)) = Inr bytes"
    "ws' = ws\<lparr>ws_memory := bytes @ drop (length bytes) (ws_memory ws), ws_pending := [(0, length bytes)]\<rparr>"
    by (auto simp: send_packet_def start_write_def result_simps)
  have "bytes \<noteq> []"
    using b(1) by (auto simp: encode_packet_def encode_fixed_header_def result_simps split: if_splits)
  then show ?case
    using e b by (intro exI [of _ "encodings @ [bytes]"]) (simp add: list_all2_appendI to_come_def)
next
  case (write_goes_on ps ws i k ws')
  then obtain encodings taken n where e:
    "list_all2 (\<lambda>p bytes. encode_packet p (unat (packet_total_length p)) = Inr bytes) ps encodings"
    "ws_wire ws @ to_come ws = concat encodings"
    and p: "ws_pending ws = [(taken, n)]" "taken < n" "n \<le> length (ws_memory ws)" "i = 0" "0 < k" "taken + k \<le> n"
    and ws': "ws' = ws\<lparr>ws_wire := ws_wire ws @ take k (drop taken (ws_memory ws)),
      ws_pending := (if taken + k = n then [] else [(taken + k, n)])\<rparr>"
    by (fastforce simp: socket_takes_def split: if_splits)
  have "drop taken (take n (ws_memory ws)) =
      take k (drop taken (ws_memory ws)) @ drop (taken + k) (take n (ws_memory ws))"
    using p(6) by (rule drop_take_split)
  then have "ws_wire ws' @ to_come ws' = ws_wire ws @ to_come ws"
    using ws' p by (auto simp: to_come_def)
  then show ?case
    using e ws' p by auto
qed

lemma writes_in_turn_are_correct:
  assumes "writes_in_turn capacity ps ws" "ws_pending ws = []"
  shows "\<exists>encodings. list_all2 (\<lambda>p bytes. encode_packet p (unat (packet_total_length p)) = Inr bytes) ps encodings \<and>
    ws_wire ws = concat encodings"
  using writes_in_turn_invariant [OF assms(1)] assms(2) by (auto simp: to_come_def)

section \<open>Writes that overlap\<close>

text \<open>
  The server acknowledges publications 5 and 9. The socket takes two bytes of the first PUBACK before the
  second one is written: the client receives a PUBACK for 9 twice, and none for 5.
\<close>

definition two_acknowledgements :: "byte list option" where
  "two_acknowledgements =
     (case send_packet (Puback (new_puback 5)) (idle_buffer 256) of Inl e \<Rightarrow> None | Inr ws \<Rightarrow>
      Option.bind (socket_takes 0 2 ws) (\<lambda>ws.
      case send_packet (Puback (new_puback 9)) ws of Inl e \<Rightarrow> None | Inr ws \<Rightarrow>
      Option.bind (socket_takes 0 2 ws) (\<lambda>ws.
      map_option ws_wire (socket_takes 0 4 ws))))"

lemma overlapping_writes_corrupt:
  "two_acknowledgements = Some ([0x40, 2, 0, 9] @ [0x40, 2, 0, 9])"
  by code_simp

text \<open>A longer packet even releases the memory of the write in progress.\<close>

lemma overlapping_write_releases_memory:
  "length bytes < length bytes' \<Longrightarrow> start_write bytes (idle_buffer 0) = Inr ws \<Longrightarrow>
   start_write bytes' ws = Inl Undefined_behaviour"
  by (auto simp: start_write_def idle_buffer_def)

end
