(* ===== verification/Spec2Isabelle.thy ===== *)
theory Spec2Isabelle
  imports Server_Assertions Application_Properties Write_Buffer
begin

text \<open>
  Verification of wally-io, an MQTT 3.1.1 broker written in C++ (\<^verbatim>\<open>src/source/server\<close>; paths below are
  relative to its directory \<^verbatim>\<open>io_wally\<close>).

  \<^bold>\<open>The program.\<close> \<^verbatim>\<open>main.cpp\<close> runs an \<^verbatim>\<open>application\<close>, which parses options, creates a logger factory and an
  authentication service and starts the \<^verbatim>\<open>mqtt_server\<close>: an acceptor, a connection manager and a dispatcher on
  one network thread, taken from an \<^verbatim>\<open>io_service_pool\<close>. An \<^verbatim>\<open>mqtt_connection\<close> reads frames through asio,
  decodes them and hands packets to the dispatcher; the dispatcher's session manager keeps a session for
  each client, the subscriptions and the retained messages, and sends packets back to connections, which
  encode and write them. Each session has two stores of publications in flight, one for each direction.

  \<^bold>\<open>Theories, and what they model.\<close> Names of definitions follow the source.

  \<^item> \<open>Wally_Prelude\<close>: bytes and integers as words, C++ failures as values (\<open>error\<close>, \<open>result\<close>, \<open>rbind\<close>),
    reading a buffer through a position, generic lemmas and collections.
  \<^item> \<open>Packet_Header\<close>, \<open>Packets\<close>: \<^verbatim>\<open>protocol/*.hpp\<close>. One record per packet class, extending the record of the
    base class; integers keep their width, so lengths and identifiers wrap as in the code.
  \<^item> \<open>Topic_Filter\<close>: \<^verbatim>\<open>protocol/subscription.hpp\<close> (validation) and \<^verbatim>\<open>dispatch/common.cpp\<close> (matching).
  \<^item> \<open>Encoder\<close>, \<open>Decoder\<close>: \<^verbatim>\<open>codec/*.hpp\<close>. Encoders return the bytes they write, decoders work on
    positions in the read buffer; a read or write outside a buffer is \<open>Undefined_behaviour\<close>.
  \<^item> \<open>Codec_Roundtrip\<close>, \<open>Frame_Reading\<close>, \<open>Decoder_Safety\<close>, \<open>Codec_Properties\<close>: the codec as a whole.
    Encoders and decoders meet in the locales \<open>codec\<close>, \<open>exact_codec\<close>, \<open>codec_loop\<close>.
  \<^item> \<open>In_Flight\<close>, \<open>Tx_Publications\<close>, \<open>Rx_Publications\<close>: \<^verbatim>\<open>dispatch/tx_*\<close> and \<^verbatim>\<open>dispatch/rx_*\<close>, state
    machines with timers as events; the locale \<open>in_flight_protocol\<close> is what both stores promise.
  \<^item> \<open>Topic_Subscriptions\<close>: \<^verbatim>\<open>dispatch/topic_subscriptions.cpp\<close>, \<^verbatim>\<open>dispatch/retained_messages.cpp\<close>; hash
    containers are lists, and results are shown not to depend on their order.
  \<^item> \<open>Client_Sessions\<close>: \<^verbatim>\<open>dispatch/mqtt_client_session*\<close>, \<^verbatim>\<open>dispatch/dispatcher.cpp\<close>. Every operation
    takes and returns the \<open>session_manager\<close> and lists its effects on connections in order.
  \<^item> \<open>Session_Invariant\<close>, \<open>Session_Connections\<close>, \<open>Delivery\<close>: the invariant of the dispatcher, who owns a
    session, and who receives what.
  \<^item> \<open>Sockets\<close>: endpoints of a socket, descriptions of connections, \<^verbatim>\<open>logging_support.hpp\<close>, and when
    they throw.
  \<^item> \<open>Assertions\<close>: the requests that fail an assertion of the dispatcher; \<open>Server_Assertions\<close>: the events
    of the server that do.
  \<^item> \<open>Connection\<close>: \<^verbatim>\<open>mqtt_connection.cpp\<close>, one definition per callback. \<open>Connection_Safety\<close>,
    \<open>Connection_Contract\<close>: the contract of a callback with the server, the locale \<open>con_callback\<close> (and
    \<open>asserting_callback\<close> for callbacks that only fail by assertion), interpreted on every callback.
  \<^item> \<open>Server\<close>: \<^verbatim>\<open>mqtt_connection_manager.cpp\<close>, \<^verbatim>\<open>mqtt_server.cpp\<close>. An event is a completion asio can
    deliver; \<open>enabled\<close> says when, \<open>server_handle\<close> what happens then, with the bytes written; \<open>server_reaches\<close>
    are the reachable states, \<open>play\<close> executes a run. \<open>Server_Invariant\<close>, \<open>Server_Delivery\<close>,
    \<open>Server_Properties\<close>: their theory, with sample runs from the start of the server.
  \<^item> \<open>Write_Buffer\<close>: the memory of \<^verbatim>\<open>write_buffer_\<close> and the asynchronous writes that read from it, which
    \<open>Server\<close> takes to be complete at once. Writes one after the other put the encodings on the wire;
    overlapping writes, which the code does not prevent, corrupt each other.
  \<^item> \<open>Io_Service_Pool\<close>: \<^verbatim>\<open>concurrency/io_service_pool.hpp\<close>, with interleaved threads.
  \<^item> \<open>Packet_Strings\<close>: every \<^verbatim>\<open>to_string\<close> of \<^verbatim>\<open>protocol\<close>, the enumerations of \<^verbatim>\<open>dispatch/common.hpp\<close>.
  \<^item> \<open>Application\<close>, \<open>Application_Properties\<close>: \<^verbatim>\<open>app\<close>, \<^verbatim>\<open>impl\<close>, \<^verbatim>\<open>logging\<close>, \<^verbatim>\<open>context.hpp\<close>, \<^verbatim>\<open>defaults.hpp\<close>;
    the main thread interleaved with the network thread.

  \<^bold>\<open>What is shown.\<close>

  \<^item> Codec: whatever the server sends and can receive crosses the wire in pieces of any size; the frame
    reader takes exactly one frame; decoders fail gracefully, with the exceptions stated; the PUBLISH
    decoder accepts exactly the well formed packets and returns them.
  \<^item> Topics: validation accepts exactly the well formed filters; the matcher agrees with the levelwise
    relation of the specification without \<open>#\<close>, and its exact (larger) language with \<open>#\<close> is given.
  \<^item> Publications in flight: invariants of the stores, retries and their end, both quality of service
    handshakes, no second dispatch, and which acknowledgements abort the server.
  \<^item> Dispatcher: its invariant under every interleaving, delivery exactly once with the highest
    subscribed quality of service, retained messages as a map, last wills, ownership of sessions.
  \<^item> Server: its invariant, every way the process can end, the CONNECT handshake and the relay of a
    PUBLISH from bytes received to bytes written, nothing written to closed sockets, shutdown.
  \<^item> Process: exit codes, shutdown in every interleaving of the two threads, and the pool of services.

  Where the code does something else than it means to, the theorem states what it does.

  \<^bold>\<open>Bounds and fuel.\<close> Loops are structural or terminate by a measure; the only fuel is the 4 steps of
  \<open>io_service_alone\<close>, shown to be enough. Properties of the server assume a configured read buffer of at
  most 268435455 bytes, the longest remaining length, so that lengths do not overflow 32 bits. Sample
  configurations use a buffer of 32 bytes to keep runs short.

  \<^bold>\<open>Parameters.\<close> asio is the environment: the events of \<open>Server\<close> in any enabled order and with any split
  of received bytes, and \<open>inline\<close>, whether a posted stop runs at once. The authentication service, the
  result cxxopts returns for a command line (\<open>typed_parse\<close> is its documented typing), whether a log file
  can be opened and an address be bound are parameters; so is the text of a peer's address. A peer may
  reset its connection at any time (\<open>Peer_reset\<close>); asio's \<^verbatim>\<open>remote_endpoint( )\<close> then throws.

  \<^bold>\<open>Not modelled.\<close> Log output other than the renderings above, which has no effect on the state (an
  exception while it is formatted is caught by spdlog); the text of help and exceptions; the memory order of
  atomics (the code uses the sequentially consistent default); in \<open>Server\<close>, writes that overlap; \<^verbatim>\<open>wait_until_bound\<close> and \<^verbatim>\<open>wait_until_started\<close>, which serve tests only;
  \<^verbatim>\<open>src/external\<close> and the tests.
\<close>

end
